(* ===== verification/Prelude.thy ===== *)
theory Prelude
  imports Main
begin

text \<open>
  Shared vocabulary of the development: actions that may fail (Go's \<open>(value, error)\<close>
  results over a mutable state), their invariant rules, and generic facts on lists used by
  the table, hub and interface models.

  An action is a function from the state to an error or a value, with the state after it.
  \<open>seq_act\<close> is Go's \<^verbatim>\<open>if err != nil { return err }\<close>; \<open>attempt\<close> is the
  \<^verbatim>\<open>x, err := f()\<close> that lets the caller look at (or ignore) the error.
\<close>

section \<open>Fallible stateful actions\<close>

type_synonym ('s, 'e, 'a) act = "'s \<Rightarrow> ('e + 'a) \<times> 's"

named_theorems inv_intros \<open>rules that an action keeps an invariant\<close>
named_theorems act_simps \<open>evaluation rules of the actions\<close>

definition ok :: "'a \<Rightarrow> ('s, 'e, 'a) act" where
  "ok a = (\<lambda>s. (Inr a, s))"

definition fail :: "'e \<Rightarrow> ('s, 'e, 'a) act" where
  "fail e = (\<lambda>s. (Inl e, s))"

definition seq_act :: "('s, 'e, 'a) act \<Rightarrow> ('a \<Rightarrow> ('s, 'e, 'b) act) \<Rightarrow> ('s, 'e, 'b) act" where
  "seq_act m f = (\<lambda>s. case m s of (Inl e, s') \<Rightarrow> (Inl e, s') | (Inr a, s') \<Rightarrow> f a s')"

definition attempt :: "('s, 'e, 'a) act \<Rightarrow> ('s, 'e, 'e + 'a) act" where
  "attempt m = (\<lambda>s. case m s of (r, s') \<Rightarrow> (Inr r, s'))"

definition is_ok :: "'e + 'a \<Rightarrow> bool" where
  "is_ok r \<longleftrightarrow> (case r of Inl _ \<Rightarrow> False | Inr _ \<Rightarrow> True)"

lemma is_ok_simps [simp]: "is_ok (Inr a)" "\<not> is_ok (Inl e)"
  by (simp_all add: is_ok_def)

lemma is_ok_iff: "is_ok r \<longleftrightarrow> (\<exists>a. r = Inr a)"
  by (cases r) simp_all

lemma ok_app [act_simps]: "ok a s = (Inr a, s)"
  by (simp add: ok_def)

lemma fail_app [act_simps]: "fail e s = (Inl e, s)"
  by (simp add: fail_def)

lemma seq_act_app:
  "seq_act m f s = (case m s of (Inl e, s') \<Rightarrow> (Inl e, s') | (Inr a, s') \<Rightarrow> f a s')"
  by (simp add: seq_act_def)

lemma seq_act_Inr: "m s = (Inr a, s') \<Longrightarrow> seq_act m f s = f a s'"
  by (simp add: seq_act_def)

lemma seq_act_Inl: "m s = (Inl e, s') \<Longrightarrow> seq_act m f s = (Inl e, s')"
  by (simp add: seq_act_def)

lemma attempt_app: "attempt m s = (case m s of (r, s') \<Rightarrow> (Inr r, s'))"
  by (simp add: attempt_def)

lemma seq_act_ok_right: "seq_act m ok = m"
  by (auto simp: seq_act_def ok_def fun_eq_iff split: prod.splits sum.splits)

lemma seq_act_ok_iff:
  "seq_act m f s = (Inr b, s'') \<longleftrightarrow> (\<exists>a s'. m s = (Inr a, s') \<and> f a s' = (Inr b, s''))"
  by (auto simp: seq_act_def split: prod.splits sum.splits)

lemma seq_act_okE:
  assumes "seq_act m f s = (Inr b, s'')"
  obtains a s' where "m s = (Inr a, s')" and "f a s' = (Inr b, s'')"
  using assms by (auto simp: seq_act_ok_iff)

text \<open>Symbolic execution of one step: it failed and that is the result, or the rest ran.\<close>

lemma seq_actE:
  assumes "seq_act m f s = (r, s'')"
  obtains (err) e where "m s = (Inl e, s'')" and "r = Inl e"
    | (step) a s' where "m s = (Inr a, s')" and "f a s' = (r, s'')"
  using assms by (auto simp: seq_act_def split: prod.splits sum.splits)

lemma attemptE:
  assumes "attempt m s = (r, s'')"
  obtains r' where "m s = (r', s'')" and "r = Inr r'"
  using assms by (auto simp: attempt_def split: prod.splits)

lemma okE: "ok a s = (r, s') \<Longrightarrow> (r = Inr a \<Longrightarrow> s' = s \<Longrightarrow> P) \<Longrightarrow> P"
  by (simp add: ok_def)

lemma failE: "fail e s = (r, s') \<Longrightarrow> (r = Inl e \<Longrightarrow> s' = s \<Longrightarrow> P) \<Longrightarrow> P"
  by (simp add: fail_def)

section \<open>Invariants and frames of actions\<close>

text \<open>
  \<open>keeps I m\<close>: whatever the outcome, the action maps \<open>I\<close>-states to
  \<open>I\<close>-states. The rules follow the program's structure, so an operation's invariant
  proof is the list of its statements.
\<close>

definition keeps :: "('s \<Rightarrow> bool) \<Rightarrow> ('s, 'e, 'a) act \<Rightarrow> bool" where
  "keeps I m \<longleftrightarrow> (\<forall>s. I s \<longrightarrow> I (snd (m s)))"

lemma keepsI: "(\<And>s. I s \<Longrightarrow> I (snd (m s))) \<Longrightarrow> keeps I m"
  by (simp add: keeps_def)

lemma keepsD: "keeps I m \<Longrightarrow> I s \<Longrightarrow> I (snd (m s))"
  by (simp add: keeps_def)

lemma keeps_pairD: "keeps I m \<Longrightarrow> I s \<Longrightarrow> m s = (r, s') \<Longrightarrow> I s'"
  by (drule keepsD [of I m s]) simp_all

lemma keeps_ok [inv_intros]: "keeps I (ok a)"
  by (simp add: keeps_def ok_def)

lemma keeps_fail [inv_intros]: "keeps I (fail e)"
  by (simp add: keeps_def fail_def)

lemma keeps_seq [inv_intros]:
  "keeps I m \<Longrightarrow> (\<And>a. keeps I (f a)) \<Longrightarrow> keeps I (seq_act m f)"
  by (force simp: keeps_def seq_act_def split: prod.splits sum.splits)

lemma keeps_attempt [inv_intros]: "keeps I m \<Longrightarrow> keeps I (attempt m)"
  by (force simp: keeps_def attempt_def split: prod.splits)

lemma keeps_if [inv_intros]:
  "(b \<Longrightarrow> keeps I m) \<Longrightarrow> (\<not> b \<Longrightarrow> keeps I n) \<Longrightarrow> keeps I (if b then m else n)"
  by simp

lemma keeps_case_sum [inv_intros]:
  "(\<And>e. r = Inl e \<Longrightarrow> keeps I (f e)) \<Longrightarrow> (\<And>a. r = Inr a \<Longrightarrow> keeps I (g a)) \<Longrightarrow>
   keeps I (case r of Inl e \<Rightarrow> f e | Inr a \<Rightarrow> g a)"
  by (cases r) simp_all

lemma keeps_case_option [inv_intros]:
  "(r = None \<Longrightarrow> keeps I m) \<Longrightarrow> (\<And>a. r = Some a \<Longrightarrow> keeps I (g a)) \<Longrightarrow>
   keeps I (case r of None \<Rightarrow> m | Some a \<Rightarrow> g a)"
  by (cases r) simp_all

lemma keeps_case_prod [inv_intros]:
  "(\<And>a b. p = (a, b) \<Longrightarrow> keeps I (f a b)) \<Longrightarrow> keeps I (case p of (a, b) \<Rightarrow> f a b)"
  by (cases p) simp

lemma keeps_let [inv_intros]: "(\<And>x. x = t \<Longrightarrow> keeps I (f x)) \<Longrightarrow> keeps I (let x = t in f x)"
  by simp

lemma keeps_conj:
  "keeps I m \<Longrightarrow> keeps J m \<Longrightarrow> keeps (\<lambda>s. I s \<and> J s) m"
  by (simp add: keeps_def)

text \<open>
  \<open>leads P m I\<close>: from a \<open>P\<close>-state, whatever the outcome, the action ends in an \<open>I\<close>-state. A step whose
  result the rest depends on carries what it established in an intermediate assertion.
\<close>

definition leads :: "('s \<Rightarrow> bool) \<Rightarrow> ('s, 'e, 'a) act \<Rightarrow> ('s \<Rightarrow> bool) \<Rightarrow> bool" where
  "leads P m I \<longleftrightarrow> (\<forall>s. P s \<longrightarrow> I (snd (m s)))"

lemma keeps_leads: "keeps I m \<longleftrightarrow> leads I m I"
  by (simp add: keeps_def leads_def)

lemma leads_weaken: "keeps J m \<Longrightarrow> (\<And>s. P s \<Longrightarrow> J s) \<Longrightarrow> (\<And>s. J s \<Longrightarrow> I s) \<Longrightarrow> leads P m I"
  by (simp add: keeps_def leads_def)

lemma leads_seq:
  assumes "\<And>s e s'. P s \<Longrightarrow> m s = (Inl e, s') \<Longrightarrow> I s'"
    and "\<And>s a s'. P s \<Longrightarrow> m s = (Inr a, s') \<Longrightarrow> J a s'"
    and "\<And>a. leads (J a) (f a) I"
  shows "leads P (seq_act m f) I"
  unfolding leads_def
proof (intro allI impI)
  fix s assume P: "P s"
  obtain r s' where m: "m s = (r, s')" by force
  show "I (snd (seq_act m f s))"
  proof (cases r)
    case (Inl e)
    with P m assms(1) show ?thesis by (simp add: seq_act_def)
  next
    case (Inr a)
    then have "J a s'" using P m assms(2) by blast
    with m Inr assms(3) show ?thesis by (simp add: seq_act_def leads_def)
  qed
qed

text \<open>A frame: the action leaves a view of the state as it was.\<close>

definition frames :: "('s \<Rightarrow> 'v) \<Rightarrow> ('s, 'e, 'a) act \<Rightarrow> bool" where
  "frames v m \<longleftrightarrow> (\<forall>s. v (snd (m s)) = v s)"

lemma frames_keeps: "frames v m \<longleftrightarrow> (\<forall>x. keeps (\<lambda>s. v s = x) m)"
  by (auto simp: frames_def keeps_def)

lemma framesD: "frames v m \<Longrightarrow> v (snd (m s)) = v s"
  by (simp add: frames_def)

lemma frames_pairD: "frames v m \<Longrightarrow> m s = (r, s') \<Longrightarrow> v s' = v s"
  by (drule framesD [of v m s]) simp

lemma frames_ok [inv_intros]: "frames v (ok a)"
  by (simp add: frames_def ok_def)

lemma frames_fail [inv_intros]: "frames v (fail e)"
  by (simp add: frames_def fail_def)

lemma frames_seq [inv_intros]:
  "frames v m \<Longrightarrow> (\<And>a. frames v (f a)) \<Longrightarrow> frames v (seq_act m f)"
  unfolding frames_keeps by (intro allI keeps_seq) simp_all

lemma frames_attempt [inv_intros]: "frames v m \<Longrightarrow> frames v (attempt m)"
  unfolding frames_keeps by (intro allI keeps_attempt) simp

lemma frames_if [inv_intros]:
  "(b \<Longrightarrow> frames v m) \<Longrightarrow> (\<not> b \<Longrightarrow> frames v n) \<Longrightarrow> frames v (if b then m else n)"
  by simp

lemma frames_case_sum [inv_intros]:
  "(\<And>e. r = Inl e \<Longrightarrow> frames v (f e)) \<Longrightarrow> (\<And>a. r = Inr a \<Longrightarrow> frames v (g a)) \<Longrightarrow>
   frames v (case r of Inl e \<Rightarrow> f e | Inr a \<Rightarrow> g a)"
  by (cases r) simp_all

lemma frames_case_option [inv_intros]:
  "(r = None \<Longrightarrow> frames v m) \<Longrightarrow> (\<And>a. r = Some a \<Longrightarrow> frames v (g a)) \<Longrightarrow>
   frames v (case r of None \<Rightarrow> m | Some a \<Rightarrow> g a)"
  by (cases r) simp_all

lemma frames_case_prod [inv_intros]:
  "(\<And>a b. p = (a, b) \<Longrightarrow> frames v (f a b)) \<Longrightarrow> frames v (case p of (a, b) \<Rightarrow> f a b)"
  by (cases p) simp

lemma frames_let [inv_intros]: "(\<And>x. x = t \<Longrightarrow> frames v (f x)) \<Longrightarrow> frames v (let x = t in f x)"
  by simp

section \<open>Lists\<close>

lemma distinct_map_filter: "distinct (map f xs) \<Longrightarrow> distinct (map f (filter P xs))"
  by (induction xs) auto

lemma distinct_map_eqD:
  "distinct (map f xs) \<Longrightarrow> x \<in> set xs \<Longrightarrow> y \<in> set xs \<Longrightarrow> f x = f y \<Longrightarrow> x = y"
  by (auto simp: distinct_map dest: inj_onD)

text \<open>Updating some rows in place, when the column \<open>k\<close> is not written.\<close>

lemma map_update_column:
  "(\<And>x. k (f x) = k x) \<Longrightarrow> map k (map (\<lambda>x. if P x then f x else x) xs) = map k xs"
  by simp

lemma map_if_id: "(\<And>x. x \<in> set xs \<Longrightarrow> f (g x) = f x) \<Longrightarrow> map f (map g xs) = map f xs"
  by simp

lemma find_eq_Some_distinct:
  assumes "distinct (map f xs)"
  shows "find (\<lambda>x. f x = k) xs = Some x \<longleftrightarrow> x \<in> set xs \<and> f x = k"
  using assms by (induction xs) auto

lemma find_append: "find P (xs @ ys) = (case find P xs of None \<Rightarrow> find P ys | Some x \<Rightarrow> Some x)"
  by (induction xs) simp_all

lemma find_None_map: "find (\<lambda>x. f x = k) xs = None \<longleftrightarrow> k \<notin> f ` set xs"
  by (auto simp: find_None_iff)

end
