(* ===== verification/GoText.thy ===== *)
theory GoText
  imports Prelude
begin

text \<open>
  Go's strings as the program uses them. A Go string is a sequence of bytes, which is what
  HOL's \<open>string\<close> is (a \<open>char\<close> is a byte), so \<open>length\<close> is Go's \<open>len\<close> and a
  slice \<open>s[:n]\<close> counts bytes. A \<open>rune\<close> is a code point, here a \<open>nat\<close>.
  \<open>runes\<close> is the conversion \<^verbatim>\<open>[]rune(s)\<close> (invalid bytes become U+FFFD, one
  rune per byte) and \<open>of_runes\<close> writes runes back as UTF-8, as
  \<^verbatim>\<open>strings.Builder.WriteRune\<close> does. The functions of package \<open>strings\<close> follow,
  with the Unicode lower-case table of the standard library left as a parameter.
\<close>

section \<open>UTF-8\<close>

type_synonym rune = nat

definition RuneError :: rune where
  "RuneError = 0xFFFD"

definition bytes_of :: "string \<Rightarrow> nat list" where
  "bytes_of s = map of_char s"

definition str_of :: "nat list \<Rightarrow> string" where
  "str_of bs = map char_of bs"

definition cont :: "nat \<Rightarrow> bool" where
  "cont b \<longleftrightarrow> 0x80 \<le> b \<and> b \<le> 0xBF"

text \<open>The range the second byte must be in, for the given first byte of three or four.\<close>

definition second_ok :: "nat \<Rightarrow> nat \<Rightarrow> bool" where
  "second_ok b0 b1 \<longleftrightarrow>
     (if b0 = 0xE0 then 0xA0 \<le> b1 \<and> b1 \<le> 0xBF
      else if b0 = 0xED then 0x80 \<le> b1 \<and> b1 \<le> 0x9F
      else if b0 = 0xF0 then 0x90 \<le> b1 \<and> b1 \<le> 0xBF
      else if b0 = 0xF4 then 0x80 \<le> b1 \<and> b1 \<le> 0x8F
      else cont b1)"

text \<open>The first rune of a non-empty byte sequence, and its width in bytes.\<close>

fun decode_rune :: "nat list \<Rightarrow> rune \<times> nat" where
  "decode_rune [] = (RuneError, 0)"
| "decode_rune (b0 # bs) =
     (if b0 < 0x80 then (b0, 1)
      else if 0xC2 \<le> b0 \<and> b0 \<le> 0xDF then
        (case bs of
           b1 # _ \<Rightarrow> if cont b1 then ((b0 - 0xC0) * 64 + (b1 - 0x80), 2) else (RuneError, 1)
         | [] \<Rightarrow> (RuneError, 1))
      else if 0xE0 \<le> b0 \<and> b0 \<le> 0xEF then
        (case bs of
           b1 # b2 # _ \<Rightarrow>
             if second_ok b0 b1 \<and> cont b2
             then ((b0 - 0xE0) * 4096 + (b1 - 0x80) * 64 + (b2 - 0x80), 3) else (RuneError, 1)
         | _ \<Rightarrow> (RuneError, 1))
      else if 0xF0 \<le> b0 \<and> b0 \<le> 0xF4 then
        (case bs of
           b1 # b2 # b3 # _ \<Rightarrow>
             if second_ok b0 b1 \<and> cont b2 \<and> cont b3
             then ((b0 - 0xF0) * 262144 + (b1 - 0x80) * 4096 + (b2 - 0x80) * 64 + (b3 - 0x80), 4)
             else (RuneError, 1)
         | _ \<Rightarrow> (RuneError, 1))
      else (RuneError, 1))"

declare decode_rune.simps(2) [simp del]

text \<open>The runes of a byte sequence, each with the bytes it was read from.\<close>

function (sequential) segs :: "nat list \<Rightarrow> (rune \<times> nat list) list" where
  "segs [] = []"
| "segs (b # bs) =
     (case decode_rune (b # bs) of
        (r, n) \<Rightarrow> (r, take n (b # bs)) # segs (drop (n - 1) bs))"
  by pat_completeness auto
termination
  by (relation "measure length") auto

definition decode :: "nat list \<Rightarrow> rune list" where
  "decode bs = map fst (segs bs)"

definition valid_rune :: "rune \<Rightarrow> bool" where
  "valid_rune r \<longleftrightarrow> r < 0xD800 \<or> (0xE000 \<le> r \<and> r \<le> 0x10FFFF)"

definition encode_rune :: "rune \<Rightarrow> nat list" where
  "encode_rune r =
     (if r < 0x80 then [r]
      else if r < 0x800 then [0xC0 + r div 64, 0x80 + r mod 64]
      else if \<not> valid_rune r then [0xEF, 0xBF, 0xBD]
      else if r < 0x10000 then [0xE0 + r div 4096, 0x80 + r div 64 mod 64, 0x80 + r mod 64]
      else [0xF0 + r div 262144, 0x80 + r div 4096 mod 64, 0x80 + r div 64 mod 64, 0x80 + r mod 64])"

definition encode :: "rune list \<Rightarrow> nat list" where
  "encode rs = concat (map encode_rune rs)"

definition runes :: "string \<Rightarrow> rune list" where
  "runes s = decode (bytes_of s)"

definition of_runes :: "rune list \<Rightarrow> string" where
  "of_runes rs = str_of (encode rs)"

subsection \<open>Decoding yields valid runes, and inverts encoding\<close>

lemma valid_RuneError [simp]: "valid_rune RuneError"
  by (simp add: valid_rune_def RuneError_def)

lemma valid_two: "b0 \<le> 0xDF \<Longrightarrow> cont b1 \<Longrightarrow> valid_rune ((b0 - 0xC0) * 64 + (b1 - 0x80))"
  unfolding valid_rune_def cont_def by linarith

lemma valid_three:
  assumes "0xE0 \<le> b0" "b0 \<le> 0xEF" "second_ok b0 b1" "cont b2"
  shows "valid_rune ((b0 - 0xE0) * 4096 + (b1 - 0x80) * 64 + (b2 - 0x80))"
proof -
  have b1: "0x80 \<le> b1" "b1 \<le> 0xBF" and ed: "b0 = 0xED \<Longrightarrow> b1 \<le> 0x9F"
    using assms(3) by (auto simp: second_ok_def cont_def split: if_splits)
  consider "b0 \<le> 0xEC" | "b0 = 0xED" | "0xEE \<le> b0" by linarith
  then show ?thesis
    using assms b1 ed unfolding valid_rune_def cont_def by cases linarith+
qed

lemma valid_four:
  assumes "0xF0 \<le> b0" "b0 \<le> 0xF4" "second_ok b0 b1" "cont b2" "cont b3"
  shows "valid_rune ((b0 - 0xF0) * 262144 + (b1 - 0x80) * 4096 + (b2 - 0x80) * 64 + (b3 - 0x80))"
proof -
  have b1: "b1 \<le> 0xBF" "b0 = 0xF0 \<Longrightarrow> 0x90 \<le> b1" "b0 = 0xF4 \<Longrightarrow> b1 \<le> 0x8F"
    using assms(3) by (auto simp: second_ok_def cont_def split: if_splits)
  consider "b0 = 0xF0" | "0xF1 \<le> b0" "b0 \<le> 0xF3" | "b0 = 0xF4" using assms by linarith
  then show ?thesis
    using assms b1 unfolding valid_rune_def cont_def by cases linarith+
qed

lemma decode_rune_valid: "valid_rune (fst (decode_rune bs))"
proof (cases bs)
  case (Cons b0 bt)
  then show ?thesis
    by (simp add: decode_rune.simps(2) valid_two valid_three valid_four split: list.splits)
       (simp add: valid_rune_def)
qed simp

lemma decode_rune_width: "1 \<le> snd (decode_rune (b # bs)) \<and> snd (decode_rune (b # bs)) \<le> Suc (length bs)"
  by (auto simp: decode_rune.simps(2) split: list.splits)

lemma decode_rune_ascii: "b < 0x80 \<Longrightarrow> decode_rune (b # bs) = (b, 1)"
  by (simp add: decode_rune.simps(2))

lemma decode_Nil [simp]: "decode [] = []"
  by (simp add: decode_def)

lemma decode_Cons:
  "decode (b # bs) = fst (decode_rune (b # bs)) # decode (drop (snd (decode_rune (b # bs)) - 1) bs)"
  by (simp add: decode_def split: prod.splits)

lemma decode_ascii [simp]: "b < 0x80 \<Longrightarrow> decode (b # bs) = b # decode bs"
  by (simp add: decode_Cons decode_rune_ascii)

lemma decode_valid: "r \<in> set (decode bs) \<Longrightarrow> valid_rune r"
proof (induction bs rule: segs.induct)
  case 1
  then show ?case by simp
next
  case (2 b bs)
  show ?case
  proof (cases "r = fst (decode_rune (b # bs))")
    case True
    then show ?thesis by (simp add: decode_rune_valid)
  next
    case False
    with "2.prems" have "r \<in> set (decode (drop (snd (decode_rune (b # bs)) - 1) bs))"
      by (simp add: decode_Cons)
    then show ?thesis by (rule "2.IH" [OF prod.collapse])
  qed
qed

lemma concat_segs: "concat (map snd (segs bs)) = bs"
proof (induction bs rule: segs.induct)
  case 1
  then show ?case by simp
next
  case (2 b bs)
  obtain r n where rn: "decode_rune (b # bs) = (r, n)" by force
  with decode_rune_width [of b bs] obtain m where n: "n = Suc m" by (cases n) auto
  from "2.IH" [OF rn [symmetric]] have "concat (map snd (segs (drop m bs))) = drop m bs"
    by (simp add: n)
  with rn n show ?case by simp
qed

lemma encode_rune_neq_Nil [simp]: "encode_rune r \<noteq> []"
  by (simp add: encode_rune_def)

lemma base64_digits:
  fixes r :: nat
  shows "r = r div 4096 * 4096 + r div 64 mod 64 * 64 + r mod 64"
    and "r = r div 262144 * 262144 + r div 4096 mod 64 * 4096 + r div 64 mod 64 * 64 + r mod 64"
proof -
  have d: "r div 4096 = r div 64 div 64" "r div 262144 = r div 4096 div 64"
    by (simp_all add: div_mult2_eq [symmetric])
  note m = div_mult_mod_eq [of r 64] div_mult_mod_eq [of "r div 64" 64] div_mult_mod_eq [of "r div 4096" 64]
  show three: "r = r div 4096 * 4096 + r div 64 mod 64 * 64 + r mod 64"
    using m unfolding d by linarith
  show "r = r div 262144 * 262144 + r div 4096 mod 64 * 4096 + r div 64 mod 64 * 64 + r mod 64"
    using three m(3) unfolding d(2) by linarith
qed

lemma decode_encode_rune:
  assumes "valid_rune r"
  shows "decode_rune (encode_rune r @ bs) = (r, length (encode_rune r))"
proof -
  consider (one) "r < 0x80" | (two) "0x80 \<le> r" "r < 0x800" | (three) "0x800 \<le> r" "r < 0x10000"
    | (four) "0x10000 \<le> r" "r \<le> 0x10FFFF"
    using assms unfolding valid_rune_def by linarith
  then show ?thesis
  proof cases
    case one
    then show ?thesis by (simp add: encode_rune_def decode_rune_ascii)
  next
    case two
    have "encode_rune r = [0xC0 + r div 64, 0x80 + r mod 64]"
      using two by (simp add: encode_rune_def)
    moreover have "2 \<le> r div 64" "r div 64 \<le> 31" "r mod 64 \<le> 63" "r div 64 * 64 + r mod 64 = r"
      using two by (auto simp: less_Suc_eq_le [symmetric] div_less_iff_less_mult)
    ultimately show ?thesis
      by (simp add: decode_rune.simps(2) cont_def)
  next
    case three
    obtain a b c where abc: "a = r div 4096" "b = r div 64 mod 64" "c = r mod 64" by blast
    then have r: "r = a * 4096 + b * 64 + c" using base64_digits(1) [of r] by simp
    have lt: "b < 64" "c < 64" "a \<le> 15"
      using three by (simp_all add: abc less_Suc_eq_le [symmetric] div_less_iff_less_mult)
    have e: "encode_rune r = [0xE0 + a, 0x80 + b, 0x80 + c]"
      using three assms by (simp add: encode_rune_def abc)
    have "a = 0 \<Longrightarrow> 32 \<le> b" using three r lt by linarith
    moreover have "a = 13 \<Longrightarrow> b \<le> 31" using assms r lt unfolding valid_rune_def by linarith
    ultimately have "second_ok (0xE0 + a) (0x80 + b)"
      using lt unfolding second_ok_def cont_def by simp
    with e lt show ?thesis
      by (simp add: decode_rune.simps(2) cont_def r)
  next
    case four
    obtain z a b c where zabc: "z = r div 262144" "a = r div 4096 mod 64" "b = r div 64 mod 64" "c = r mod 64"
      by blast
    then have r: "r = z * 262144 + a * 4096 + b * 64 + c" using base64_digits(2) [of r] by simp
    have lt: "a < 64" "b < 64" "c < 64" "z \<le> 4"
      using four by (simp_all add: zabc less_Suc_eq_le [symmetric] div_less_iff_less_mult)
    have e: "encode_rune r = [0xF0 + z, 0x80 + a, 0x80 + b, 0x80 + c]"
      using four assms by (simp add: encode_rune_def zabc)
    have "z = 0 \<Longrightarrow> 16 \<le> a" using four r lt by linarith
    moreover have "z = 4 \<Longrightarrow> a \<le> 15" using four r lt by linarith
    ultimately have "second_ok (0xF0 + z) (0x80 + a)"
      using lt unfolding second_ok_def cont_def by simp
    with e lt show ?thesis
      by (simp add: decode_rune.simps(2) cont_def r)
  qed
qed

lemma decode_encode_append:
  assumes "valid_rune r"
  shows "decode (encode_rune r @ bs) = r # decode bs"
proof -
  obtain b t where e: "encode_rune r = b # t" by (cases "encode_rune r") auto
  have "decode_rune (b # (t @ bs)) = (r, Suc (length t))"
    using decode_encode_rune [OF assms, of bs] by (simp add: e)
  then show ?thesis by (simp add: e decode_Cons)
qed

lemma encode_simps [simp]:
  "encode [] = []" "encode (r # rs) = encode_rune r @ encode rs" "encode (rs @ rs') = encode rs @ encode rs'"
  by (simp_all add: encode_def)

lemma decode_encode: "\<forall>r \<in> set rs. valid_rune r \<Longrightarrow> decode (encode rs) = rs"
  by (induction rs) (simp_all add: decode_encode_append)

lemma encode_rune_byte: "b \<in> set (encode_rune r) \<Longrightarrow> b < 256"
proof -
  assume b: "b \<in> set (encode_rune r)"
  show "b < 256"
  proof (cases "valid_rune r")
    case True
    then have "r div 64 < 0x4400" "r div 4096 \<le> 0x10F" "r div 262144 \<le> 4"
      by (auto simp: valid_rune_def less_Suc_eq_le [symmetric] div_less_iff_less_mult)
    then show ?thesis using b
      by (auto simp: encode_rune_def less_Suc_eq_le [symmetric] div_less_iff_less_mult split: if_splits)
  next
    case False
    then have "0x800 \<le> r" by (simp add: valid_rune_def)
    with b False show ?thesis by (auto simp: encode_rune_def)
  qed
qed

lemma bytes_str: "\<forall>b \<in> set bs. b < 256 \<Longrightarrow> bytes_of (str_of bs) = bs"
  by (induction bs) (auto simp: bytes_of_def str_of_def)

lemma bytes_of_runes [simp]: "bytes_of (of_runes rs) = encode rs"
  unfolding of_runes_def by (rule bytes_str) (auto simp: encode_def encode_rune_byte)

lemma runes_of_runes: "\<forall>r \<in> set rs. valid_rune r \<Longrightarrow> runes (of_runes rs) = rs"
  by (simp add: runes_def decode_encode)

lemma runes_valid: "r \<in> set (runes s) \<Longrightarrow> valid_rune r"
  by (simp add: runes_def decode_valid)


text \<open>Cutting bytes off the end breaks at most the last rune, into invalid bytes.\<close>

lemma decode_rune_wide:
  assumes "decode_rune (b # bs) = (r, w)" and "2 \<le> w"
  shows "0x80 \<le> b \<and> w - 1 \<le> length bs \<and> (\<forall>x \<in> set (take (w - 1) bs). cont x)"
  using assms
  by (auto simp: decode_rune.simps(2) second_ok_def cont_def split: if_splits list.splits)

lemma decode_rune_cut:
  assumes "decode_rune (b # bs) = (r, w)"
  shows "decode_rune (b # take m bs) = (if w \<le> Suc m then (r, w) else (RuneError, 1))"
proof -
  have m: "m = 0 \<or> m = 1 \<or> m = 2 \<or> 3 \<le> m" by auto
  then show ?thesis
    using assms
    by (cases bs rule: list.exhaust; auto simp: decode_rune.simps(2) take_Cons' split: if_splits list.splits)
qed


lemma decode_conts: "\<forall>x \<in> set bs. cont x \<Longrightarrow> set (decode bs) \<subseteq> {RuneError}"
proof (induction bs rule: segs.induct)
  case (2 b bs)
  then have "decode_rune (b # bs) = (RuneError, 1)" by (auto simp: decode_rune.simps(2) cont_def)
  moreover have "set (decode bs) \<subseteq> {RuneError}" using "2.IH" [of RuneError 1] "2.prems" calculation by simp
  ultimately show ?case by (simp add: decode_Cons)
qed simp

lemma decode_take: "set (decode (take n bs)) \<subseteq> insert RuneError (set (decode bs))"
proof (induction bs arbitrary: n rule: segs.induct)
  case (2 b bs)
  obtain r w where rw: "decode_rune (b # bs) = (r, w)" by force
  show ?case
  proof (cases n)
    case (Suc m)
    note cut = decode_rune_cut [OF rw, of m]
    show ?thesis
    proof (cases "w \<le> Suc m")
      case True
      have "drop (w - 1) (take m bs) = take (m - (w - 1)) (drop (w - 1) bs)" by (simp add: drop_take)
      with True Suc cut rw "2.IH" [OF rw [symmetric], of "m - (w - 1)"] show ?thesis by (auto simp: decode_Cons)
    next
      case False
      then have "2 \<le> w" by simp
      have "set (take m bs) \<subseteq> set (take (w - 1) bs)" using False by (intro set_take_subset_set_take) simp
      then have "\<forall>x \<in> set (take m bs). cont x" using decode_rune_wide [OF rw \<open>2 \<le> w\<close>] by blast
      with False Suc cut decode_conts show ?thesis by (auto simp: decode_Cons)
    qed
  qed simp
qed simp

lemma runes_take: "set (runes (take n s)) \<subseteq> insert RuneError (set (runes s))"
  using decode_take [of n "bytes_of s"] by (simp add: runes_def bytes_of_def take_map)


section \<open>Package strings\<close>

definition trim_right :: "string \<Rightarrow> string \<Rightarrow> string" where
  "trim_right s cutset = rev (dropWhile (\<lambda>c. c \<in> set cutset) (rev s))"

definition has_prefix :: "string \<Rightarrow> string \<Rightarrow> bool" where
  "has_prefix s p \<longleftrightarrow> take (length p) s = p"

definition trim_prefix :: "string \<Rightarrow> string \<Rightarrow> string" where
  "trim_prefix s p = (if has_prefix s p then drop (length p) s else s)"

text \<open>
  \<open>strings.ToLower\<close> maps every rune; below 0x80 the mapping is the ASCII one, above it is
  the table \<open>ulow\<close> of package \<open>unicode\<close> (for example it sends U+023A, two bytes in
  UTF-8, to U+2C65, three bytes, and the Kelvin sign U+212A to the ASCII \<open>k\<close>).
\<close>

definition rune_lower :: "(rune \<Rightarrow> rune) \<Rightarrow> rune \<Rightarrow> rune" where
  "rune_lower ulow r = (if r < 0x80 then (if 65 \<le> r \<and> r \<le> 90 then r + 32 else r) else ulow r)"

definition to_lower :: "(rune \<Rightarrow> rune) \<Rightarrow> string \<Rightarrow> string" where
  "to_lower ulow s = of_runes (map (rune_lower ulow) (runes s))"

text \<open>\<open>unicode.IsSpace\<close>: Unicode's White Space property.\<close>

definition is_space :: "rune \<Rightarrow> bool" where
  "is_space r \<longleftrightarrow> r \<in> {9, 10, 11, 12, 13, 32, 0x85, 0xA0, 0x1680, 0x2028, 0x2029, 0x202F, 0x205F, 0x3000}
     \<or> (0x2000 \<le> r \<and> r \<le> 0x200A)"

definition seg_space :: "rune \<times> nat list \<Rightarrow> bool" where
  "seg_space p = is_space (fst p)"

definition trim_space :: "string \<Rightarrow> string" where
  "trim_space s =
     str_of (concat (map snd (rev (dropWhile seg_space (rev (dropWhile seg_space (segs (bytes_of s))))))))"

fun split_fields :: "(rune \<times> nat list) list \<Rightarrow> nat list \<Rightarrow> nat list list" where
  "split_fields [] cur = (if cur = [] then [] else [cur])"
| "split_fields (p # ps) cur =
     (if seg_space p then (if cur = [] then split_fields ps [] else cur # split_fields ps [])
      else split_fields ps (cur @ snd p))"

definition Fields :: "string \<Rightarrow> string list" where
  "Fields s = map str_of (split_fields (segs (bytes_of s)) [])"

fun join :: "string list \<Rightarrow> string \<Rightarrow> string" where
  "join [] sep = []"
| "join [x] sep = x"
| "join (x # y # xs) sep = x @ sep @ join (y # xs) sep"

text \<open>\<open>strings.Index\<close>; \<open>None\<close> is the result -1.\<close>

fun index_of :: "string \<Rightarrow> string \<Rightarrow> nat option" where
  "index_of [] sub = (if sub = [] then Some 0 else None)"
| "index_of (c # s) sub =
     (if has_prefix (c # s) sub then Some 0 else map_option Suc (index_of s sub))"

text \<open>\<open>strings.SplitN\<close> for a non-empty separator and \<open>n > 0\<close>.\<close>

fun split_n :: "string \<Rightarrow> string \<Rightarrow> nat \<Rightarrow> string list" where
  "split_n s sep 0 = []"
| "split_n s sep (Suc 0) = [s]"
| "split_n s sep (Suc (Suc n)) =
     (case index_of s sep of
        None \<Rightarrow> [s]
      | Some i \<Rightarrow> take i s # split_n (drop (i + length sep) s) sep (Suc n))"

text \<open>\<open>strconv.ParseInt(s, 10, 64)\<close>; \<open>None\<close> is any of its errors.\<close>

fun digits_val :: "string \<Rightarrow> int \<Rightarrow> int" where
  "digits_val [] acc = acc"
| "digits_val (c # cs) acc = digits_val cs (10 * acc + (of_char c - 48))"

definition is_digit :: "char \<Rightarrow> bool" where
  "is_digit c \<longleftrightarrow> 48 \<le> (of_char c :: int) \<and> (of_char c :: int) \<le> 57"

definition parse_uint :: "string \<Rightarrow> int option" where
  "parse_uint s = (if s \<noteq> [] \<and> list_all is_digit s then Some (digits_val s 0) else None)"

definition parse_int :: "string \<Rightarrow> int option" where
  "parse_int s =
     (case s of
        [] \<Rightarrow> None
      | c # cs \<Rightarrow>
          let neg = (c = CHR ''-'');
              digs = (if c = CHR ''-'' \<or> c = CHR ''+'' then cs else s)
          in (case parse_uint digs of
                None \<Rightarrow> None
              | Some n \<Rightarrow>
                  if neg then (if n \<le> 2 ^ 63 then Some (- n) else None)
                  else (if n < 2 ^ 63 then Some n else None)))"

section \<open>Lemmas on the string functions\<close>

lemma char_of_byte: "b < 256 \<Longrightarrow> char_of b = c \<longleftrightarrow> b = (of_char c :: nat)"
proof -
  assume "b < 256"
  then have "of_char (char_of b :: char) = b" by simp
  then show ?thesis by (metis char_of_char)
qed

lemma has_prefix_iff: "has_prefix s p \<longleftrightarrow> (\<exists>t. s = p @ t)"
  by (auto simp: has_prefix_def) (metis append_take_drop_id)

lemma has_prefix_length: "has_prefix s p \<Longrightarrow> length p \<le> length s"
  by (auto simp: has_prefix_iff)

lemma index_of_Some:
  "index_of s sub = Some i \<Longrightarrow> i + length sub \<le> length s \<and> take (length sub) (drop i s) = sub"
proof (induction s arbitrary: i)
  case Nil
  then show ?case by (simp split: if_splits)
next
  case (Cons c s)
  then show ?case
    using has_prefix_length [of "c # s" sub]
    by (cases i) (auto simp: has_prefix_def split: if_splits)
qed

lemma trim_right_last: "trim_right s cs = [] \<or> last (trim_right s cs) \<notin> set cs"
proof (cases "dropWhile (\<lambda>c. c \<in> set cs) (rev s)")
  case Nil
  then show ?thesis by (simp add: trim_right_def)
next
  case (Cons a list)
  then have "a \<notin> set cs"
    using hd_dropWhile [of "\<lambda>c. c \<in> set cs" "rev s"] by simp
  with Cons show ?thesis by (simp add: trim_right_def)
qed

lemma trim_right_snoc:
  "trim_right (s @ [c]) cs = (if c \<in> set cs then trim_right s cs else s @ [c])"
  by (simp add: trim_right_def)

lemma trim_right_idem: "trim_right (trim_right s cs) cs = trim_right s cs"
  using trim_right_last [of s cs]
  by (cases "trim_right s cs" rule: rev_cases) (auto simp: trim_right_snoc trim_right_def [of "[]"])

lemma set_trim_right: "set (trim_right s cs) \<subseteq> set s"
  by (auto simp: trim_right_def dest: set_dropWhileD)

lemma length_trim_right: "length (trim_right s cs) \<le> length s"
  by (simp add: trim_right_def length_dropWhile_le [THEN le_trans])

end
