(* ===== verification/Domain.thy ===== *)
theory Domain
  imports GoText
begin

text \<open>
  Package \<^verbatim>\<open>internal/domain\<close>: the data types shared by the store, the hub and the
  interface, the validity tests on names, the canonical key of a direct-message thread, and
  \<open>SanitizeUserText\<close>, which strips terminal control sequences from user text.
  Times are Unix seconds; a Go pointer that may be nil is an \<open>option\<close>.
  The sanitizer is kept as the code has it, an index loop over the runes with helper loops
  that return the index of the last rune to skip; it is proved equal to a recursive
  specification on lists (\<open>strip\<close>).
\<close>

section \<open>Data types\<close>

record User =
  User_ID :: int
  User_Handle :: string
  User_DisplayName :: string
  User_Bio :: string
  User_Pronouns :: string
  User_IsAdmin :: bool
  User_IsSuspended :: bool
  User_CreatedAt :: int
  User_LastSeenAt :: "int option"

record UserKey =
  UserKey_ID :: int
  UserKey_UserID :: int
  UserKey_Fingerprint :: string
  UserKey_PublicKey :: string
  UserKey_Label :: string
  UserKey_AddedAt :: int

record Room =
  Room_ID :: int
  Room_Name :: string
  Room_Topic :: string
  Room_IsPrivate :: bool
  Room_CreatedBy :: int
  Room_CreatedAt :: int

record Member =
  Member_UserID :: int
  Member_Handle :: string
  Member_Role :: string
  Member_JoinedAt :: int
  Member_Online :: bool

record Message =
  Message_ID :: int
  Message_Kind :: string
  Message_RoomID :: "int option"
  Message_DMPeerA :: "int option"
  Message_DMPeerB :: "int option"
  Message_AuthorID :: int
  Message_Author :: string
  Message_Body :: string
  Message_CreatedAt :: int
  Message_Deleted :: bool

record Notification =
  Notification_ID :: int
  Notification_UserID :: int
  Notification_Kind :: string
  Notification_MessageID :: "int option"
  Notification_RoomID :: "int option"
  Notification_CreatedAt :: int
  Notification_Read :: bool

definition MaxBody :: nat where "MaxBody = 2000"
definition MaxHandleLen :: nat where "MaxHandleLen = 20"
definition MaxRoomNameLen :: nat where "MaxRoomNameLen = 32"
definition MaxTopicLen :: nat where "MaxTopicLen = 200"
definition MaxDisplayName :: nat where "MaxDisplayName = 40"
definition MaxBio :: nat where "MaxBio = 280"
definition MaxPronouns :: nat where "MaxPronouns = 20"
definition RoleOwner :: string where "RoleOwner = ''owner''"
definition RoleModerator :: string where "RoleModerator = ''moderator''"
definition RoleMember :: string where "RoleMember = ''member''"

lemmas Max_defs = MaxBody_def MaxHandleLen_def MaxRoomNameLen_def MaxTopicLen_def
  MaxDisplayName_def MaxBio_def MaxPronouns_def
lemmas Role_defs = RoleOwner_def RoleModerator_def RoleMember_def

section \<open>Names\<close>

text \<open>The class \<^verbatim>\<open>[a-z0-9_-]\<close>, on bytes.\<close>

definition name_byte :: "nat \<Rightarrow> bool" where
  "name_byte b \<longleftrightarrow> (97 \<le> b \<and> b \<le> 122) \<or> (48 \<le> b \<and> b \<le> 57) \<or> b = 95 \<or> b = 45"

definition name_char :: "char \<Rightarrow> bool" where
  "name_char c \<longleftrightarrow> name_byte (of_char c)"

definition ValidHandle :: "string \<Rightarrow> bool" where
  "ValidHandle h \<longleftrightarrow> 3 \<le> length h \<and> length h \<le> 20 \<and> list_all name_char h"

definition ValidRoomName :: "string \<Rightarrow> bool" where
  "ValidRoomName n \<longleftrightarrow> 1 \<le> length n \<and> length n \<le> 32 \<and> list_all name_char n"

definition DMKey :: "int \<Rightarrow> int \<Rightarrow> int \<times> int" where
  "DMKey u1 u2 = (if u1 < u2 then (u1, u2) else (u2, u1))"

lemma DMKey_commute: "DMKey u1 u2 = DMKey u2 u1"
  by (auto simp: DMKey_def)

lemma DMKey_le: "DMKey u1 u2 = (a, b) \<Longrightarrow> a \<le> b"
  by (auto simp: DMKey_def split: if_splits)

lemma DMKey_less: "DMKey u1 u2 = (a, b) \<Longrightarrow> u1 \<noteq> u2 \<Longrightarrow> a < b"
  by (auto simp: DMKey_def split: if_splits)

lemma DMKey_set: "DMKey u1 u2 = (a, b) \<Longrightarrow> {a, b} = {u1, u2}"
  by (auto simp: DMKey_def split: if_splits)

lemma DMKey_eq_iff: "DMKey u1 u2 = DMKey v1 v2 \<longleftrightarrow> {u1, u2} = {v1, v2}"
  by (auto simp: DMKey_def doubleton_eq_iff)

section \<open>The sanitizer\<close>

definition csi_final :: "rune \<Rightarrow> bool" where
  "csi_final r \<longleftrightarrow> 0x40 \<le> r \<and> r \<le> 0x7e"

function skipControlSequence :: "rune list \<Rightarrow> nat \<Rightarrow> nat" where
  "skipControlSequence rs i =
     (if i < length rs
      then (if csi_final (rs ! i) then i else skipControlSequence rs (i + 1))
      else length rs - 1)"
  by pat_completeness auto
termination
  by (relation "measure (\<lambda>(rs, i). length rs - i)") auto

function skipStringControl :: "rune list \<Rightarrow> nat \<Rightarrow> nat" where
  "skipStringControl rs i =
     (if i < length rs
      then (if rs ! i = 0x07 then i
            else if rs ! i = 0x1b \<and> i + 1 < length rs \<and> rs ! (i + 1) = 0x5c then i + 1
            else skipStringControl rs (i + 1))
      else length rs - 1)"
  by pat_completeness auto
termination
  by (relation "measure (\<lambda>(rs, i). length rs - i)") auto

declare skipControlSequence.simps [simp del] skipStringControl.simps [simp del]

text \<open>
  \<open>skipEscape\<close>: the loop of its \<^verbatim>\<open>'['\<close> case is the one of
  \<open>skipControlSequence\<close>.
\<close>

definition skipEscape :: "rune list \<Rightarrow> nat \<Rightarrow> nat" where
  "skipEscape rs i0 =
     (if i0 + 1 \<ge> length rs then i0
      else
        let i = i0 + 1; r = rs ! i in
        if r = 0x5b then skipControlSequence rs (i + 1)
        else if r \<in> {0x5d, 0x50, 0x5e, 0x5f} then skipStringControl rs (i + 1)
        else if r \<in> {0x28, 0x29} then (if i + 1 < length rs then i + 1 else i)
        else i)"

lemma skipControlSequence_ge: "i \<le> length rs \<Longrightarrow> i - 1 \<le> skipControlSequence rs i"
  by (induction rs i rule: skipControlSequence.induct)
     (subst skipControlSequence.simps, auto)

lemma skipStringControl_ge: "i \<le> length rs \<Longrightarrow> i - 1 \<le> skipStringControl rs i"
  by (induction rs i rule: skipStringControl.induct)
     (subst skipStringControl.simps, auto)

lemma skipEscape_ge: "i < length rs \<Longrightarrow> i \<le> skipEscape rs i"
  using skipControlSequence_ge [of "i + 2" rs] skipStringControl_ge [of "i + 2" rs]
  by (auto simp: skipEscape_def Let_def)

lemma skipControlSequence_lt: "rs \<noteq> [] \<Longrightarrow> skipControlSequence rs i < length rs"
  by (induction rs i rule: skipControlSequence.induct) (subst skipControlSequence.simps, auto)

lemma skipStringControl_lt: "rs \<noteq> [] \<Longrightarrow> skipStringControl rs i < length rs"
  by (induction rs i rule: skipStringControl.induct) (subst skipStringControl.simps, auto)

text \<open>
  The main loop: the index, and the runes written so far. \<open>unicode.IsControl\<close> holds of
  the runes below 0x20 and of 0x7f to 0x9f.
\<close>

definition is_control :: "rune \<Rightarrow> bool" where
  "is_control r \<longleftrightarrow> r < 0x20 \<or> (0x7f \<le> r \<and> r \<le> 0x9f)"

function sanitize_loop :: "rune list \<Rightarrow> nat \<Rightarrow> rune list \<Rightarrow> rune list" where
  "sanitize_loop rs i b =
     (if i < length rs then
        (let r = rs ! i in
         if r = 0x1b then sanitize_loop rs (skipEscape rs i + 1) b
         else if r = 0x9b then sanitize_loop rs (skipControlSequence rs (i + 1) + 1) b
         else if 0x80 \<le> r \<and> r \<le> 0x9f then sanitize_loop rs (i + 1) b
         else if r = 0x0a \<or> r = 0x09 then sanitize_loop rs (i + 1) (b @ [r])
         else if r < 0x20 \<or> r = 0x7f \<or> is_control r then sanitize_loop rs (i + 1) b
         else sanitize_loop rs (i + 1) (b @ [r]))
      else b)"
  by pat_completeness auto
termination
proof (relation "measure (\<lambda>(rs, i, b). length rs - i)", goal_cases)
  case (2 rs i b r)
  then show ?case using skipEscape_ge [of i rs] by auto
next
  case (3 rs i b r)
  then show ?case using skipControlSequence_ge [of "i + 1" rs] by auto
qed auto

declare sanitize_loop.simps [simp del]

definition SanitizeUserText :: "string \<Rightarrow> string" where
  "SanitizeUserText s = trim_right (of_runes (sanitize_loop (runes s) 0 [])) [CHR 0x0A, CHR 0x09, CHR 0x20]"


subsection \<open>A specification on lists, and the loops against it\<close>

fun after_csi :: "rune list \<Rightarrow> rune list" where
  "after_csi [] = []"
| "after_csi (r # rs) = (if csi_final r then rs else after_csi rs)"

fun after_string :: "rune list \<Rightarrow> rune list" where
  "after_string [] = []"
| "after_string (r # rs) =
     (if r = 0x07 then rs
      else if r = 0x1b \<and> rs \<noteq> [] \<and> hd rs = 0x5c then tl rs
      else after_string rs)"

fun after_escape :: "rune list \<Rightarrow> rune list" where
  "after_escape [] = []"
| "after_escape (r # rs) =
     (if r = 0x5b then after_csi rs
      else if r \<in> {0x5d, 0x50, 0x5e, 0x5f} then after_string rs
      else if r \<in> {0x28, 0x29} then drop 1 rs
      else rs)"

lemma length_after [simp]:
  "length (after_csi rs) \<le> length rs" "length (after_string rs) \<le> length rs"
  "length (after_escape rs) \<le> length rs"
proof -
  show csi: "length (after_csi rs) \<le> length rs" for rs
    by (induction rs) auto
  show str: "length (after_string rs) \<le> length rs" for rs
    by (induction rs) (auto simp: le_diff_conv)
  show "length (after_escape rs) \<le> length rs"
    by (cases rs) (auto intro: le_SucI csi str)
qed

fun allowed :: "rune \<Rightarrow> bool" where
  "allowed r \<longleftrightarrow> r = 0x0a \<or> r = 0x09 \<or> \<not> is_control r"

function (sequential) strip :: "rune list \<Rightarrow> rune list" where
  "strip [] = []"
| "strip (r # rs) =
     (if r = 0x1b then strip (after_escape rs)
      else if r = 0x9b then strip (after_csi rs)
      else if allowed r then r # strip rs
      else strip rs)"
  by pat_completeness auto
termination
  by (relation "measure length") (auto simp: less_Suc_eq_le)

lemma drop_skipCSI:
  "i \<le> length rs \<Longrightarrow> rs \<noteq> [] \<Longrightarrow> drop (skipControlSequence rs i + 1) rs = after_csi (drop i rs)"
proof (induction rs i rule: skipControlSequence.induct)
  case (1 rs i)
  show ?case
  proof (cases "i < length rs")
    case True
    then have "drop i rs = rs ! i # drop (i + 1) rs" by (simp add: Cons_nth_drop_Suc)
    with True 1 show ?thesis by (simp add: skipControlSequence.simps [of rs i])
  next
    case False
    with "1.prems" show ?thesis by (subst skipControlSequence.simps) simp
  qed
qed

lemma drop_skipString:
  "i \<le> length rs \<Longrightarrow> rs \<noteq> [] \<Longrightarrow> drop (skipStringControl rs i + 1) rs = after_string (drop i rs)"
proof (induction rs i rule: skipStringControl.induct)
  case (1 rs i)
  show ?case
  proof (cases "i < length rs")
    case True
    then have d: "drop i rs = rs ! i # drop (i + 1) rs" by (simp add: Cons_nth_drop_Suc)
    have h: "(drop (i + 1) rs \<noteq> [] \<and> hd (drop (i + 1) rs) = x) \<longleftrightarrow> (i + 1 < length rs \<and> rs ! (i + 1) = x)"
      for x by (auto simp: hd_drop_conv_nth)
    have t: "tl (drop (i + 1) rs) = drop (i + 1 + 1) rs" by (simp add: drop_Suc tl_drop)
    show ?thesis
      using True 1 unfolding d after_string.simps h t
      by (simp add: skipStringControl.simps [of rs i])
  next
    case False
    with "1.prems" show ?thesis by (subst skipStringControl.simps) simp
  qed
qed

lemma drop_skipEscape:
  assumes "i < length rs"
  shows "drop (skipEscape rs i + 1) rs = after_escape (drop (i + 1) rs)"
proof (cases "i + 1 < length rs")
  case True
  then have d: "drop (i + 1) rs = rs ! (i + 1) # drop (i + 2) rs"
    by (metis Cons_nth_drop_Suc add_2_eq_Suc' Suc_eq_plus1)
  from True have ne: "rs \<noteq> []" and le: "i + 2 \<le> length rs" by auto
  note skips = drop_skipCSI [OF le ne] drop_skipString [OF le ne]
  have if_drop: "drop ((if c then j else k) + 1) rs = (if c then drop (j + 1) rs else drop (k + 1) rs)"
    for c j k by simp
  have "skipEscape rs i =
      (if rs ! (i + 1) = 0x5b then skipControlSequence rs (i + 2)
       else if rs ! (i + 1) \<in> {0x5d, 0x50, 0x5e, 0x5f} then skipStringControl rs (i + 2)
       else if rs ! (i + 1) \<in> {0x28, 0x29} then (if i + 2 < length rs then i + 2 else i + 1)
       else i + 1)"
    using True by (simp add: skipEscape_def Let_def)
  moreover have "(if i + 2 < length rs then drop (i + 2 + 1) rs else drop (i + 1 + 1) rs) = drop 1 (drop (i + 2) rs)"
    by simp
  ultimately show ?thesis
    by (simp only: if_drop skips d after_escape.simps add.assoc one_add_one)
next
  case False
  with assms show ?thesis by (simp add: skipEscape_def)
qed

lemma sanitize_loop_strip: "sanitize_loop rs i b = b @ strip (drop i rs)"
proof (induction rs i b rule: sanitize_loop.induct)
  case (1 rs i b)
  show ?case
  proof (cases "i < length rs")
    case True
    then have d: "drop i rs = rs ! i # drop (i + 1) rs" and ne: "rs \<noteq> []"
      by (auto simp: Cons_nth_drop_Suc)
    from True have csi: "drop (skipControlSequence rs (i + 1) + 1) rs = after_csi (drop (i + 1) rs)"
      using ne by (intro drop_skipCSI) auto
    show ?thesis
      using "1.IH" [OF True] True
      unfolding d strip.simps drop_skipEscape [OF True, symmetric] csi [symmetric]
      by (subst sanitize_loop.simps) (auto simp: Let_def is_control_def)
  next
    case False
    then show ?thesis by (subst sanitize_loop.simps) simp
  qed
qed


subsection \<open>What the sanitizer promises\<close>

text \<open>C25. The loops of the sanitizer end on every input and never index outside it: the index a skip
  leaves is at or after the one it started from and inside the text, so that the main loop, which goes
  on one further, comes closer to the end at each turn.\<close>

theorem skips_make_progress:
  assumes "i < length rs"
  shows "i \<le> skipEscape rs i \<and> skipEscape rs i < length rs \<and>
    i \<le> skipControlSequence rs (i + 1) \<and> skipControlSequence rs (i + 1) < length rs"
proof -
  have ne: "rs \<noteq> []" using assms by auto
  have "skipEscape rs i < length rs"
    using assms skipControlSequence_lt [OF ne] skipStringControl_lt [OF ne] by (auto simp: skipEscape_def Let_def)
  moreover have "i \<le> skipControlSequence rs (i + 1)" using skipControlSequence_ge [of "i + 1" rs] assms by simp
  ultimately show ?thesis using skipEscape_ge [OF assms] skipControlSequence_lt [OF ne] by simp
qed

theorem skips_make_progress_witness:
  "0 \<le> skipEscape [27, 91, 109] 0 \<and> skipEscape [27, 91, 109] 0 < 3"
  using skips_make_progress [of 0 "[27, 91, 109]"] by simp

definition trimmed :: "rune \<Rightarrow> bool" where
  "trimmed r \<longleftrightarrow> r = 0x0a \<or> r = 0x09 \<or> r = 0x20"

definition rtrim :: "rune list \<Rightarrow> rune list" where
  "rtrim rs = rev (dropWhile trimmed (rev rs))"

lemma set_after: "set (after_csi rs) \<subseteq> set rs" "set (after_string rs) \<subseteq> set rs" "set (after_escape rs) \<subseteq> set rs"
proof -
  show csi: "set (after_csi rs) \<subseteq> set rs" for rs
    by (induction rs) auto
  show str: "set (after_string rs) \<subseteq> set rs" for rs
  proof (induction rs)
    case (Cons r rs)
    then show ?case by (cases rs) auto
  qed simp
  show "set (after_escape rs) \<subseteq> set rs"
    using csi str by (cases rs) (auto dest: in_set_dropD)
qed

lemma set_strip: "set (strip rs) \<subseteq> set rs"
proof (induction rs rule: strip.induct)
  case (2 r rs)
  then have "set (strip (r # rs)) \<subseteq> insert r (set (after_escape rs) \<union> set (after_csi rs) \<union> set rs)"
    by auto
  then show ?case using set_after [of rs] by auto
qed simp

lemma strip_allowed: "r \<in> set (strip rs) \<Longrightarrow> allowed r"
  by (induction rs rule: strip.induct) (auto split: if_splits)

lemma strip_id: "\<forall>r \<in> set rs. allowed r \<Longrightarrow> strip rs = rs"
  by (induction rs) (auto simp: is_control_def)

lemma set_rtrim: "set (rtrim rs) \<subseteq> set rs"
  by (auto simp: rtrim_def dest: set_dropWhileD)

lemma rtrim_snoc: "rtrim (rs @ [r]) = (if trimmed r then rtrim rs else rs @ [r])"
  by (simp add: rtrim_def)

lemma rtrim_idem: "rtrim (rtrim rs) = rtrim rs"
proof (induction rs rule: rev_induct)
  case Nil
  then show ?case by (simp add: rtrim_def)
qed (simp add: rtrim_snoc)

lemma of_runes_simps [simp]: "of_runes [] = []" "of_runes (rs @ rs') = of_runes rs @ of_runes rs'"
  by (simp_all add: of_runes_def str_of_def)

lemma of_runes_single: "of_runes [r] = str_of (encode_rune r)"
  by (simp add: of_runes_def)

text \<open>Trimming bytes and trimming runes agree: the last byte of a rune decides.\<close>

lemma last_encode_trimmed:
  "last (str_of (encode_rune r)) \<in> {CHR 0x0A, CHR 0x09, CHR 0x20} \<longleftrightarrow> trimmed r"
proof (cases "r < 0x80")
  case True
  then show ?thesis by (auto simp: char_of_byte encode_rune_def str_of_def trimmed_def)
next
  case False
  obtain b where b: "last (encode_rune r) = b" "0x80 \<le> b" "b < 256"
    using False encode_rune_byte [of "last (encode_rune r)" r]
    by (auto simp: encode_rune_def split: if_splits)
  have "last (str_of (encode_rune r)) = char_of b"
    by (simp add: str_of_def last_map b)
  then show ?thesis using False b by (auto simp: trimmed_def char_of_byte)
qed

lemma trim_right_of_runes:
  "trim_right (of_runes rs) [CHR 0x0A, CHR 0x09, CHR 0x20] = of_runes (rtrim rs)"
proof (induction rs rule: rev_induct)
  case Nil
  then show ?case by (simp add: rtrim_def trim_right_def)
next
  case (snoc r rs)
  let ?cut = "[CHR 0x0A, CHR 0x09, CHR 0x20]"
  let ?e = "str_of (encode_rune r)"
  have ne: "?e \<noteq> []" by (simp add: str_of_def)
  then have e: "?e = butlast ?e @ [last ?e]" by simp
  have t: "last ?e \<in> set ?cut \<longleftrightarrow> trimmed r" using last_encode_trimmed [of r] by simp
  show ?case
  proof (cases "trimmed r")
    case True
    then have "encode_rune r = [r]" by (auto simp: trimmed_def encode_rune_def)
    with True t have "trim_right (of_runes rs @ ?e) ?cut = trim_right (of_runes rs) ?cut"
      by (simp add: str_of_def trim_right_snoc)
    with True snoc show ?thesis by (simp add: rtrim_snoc of_runes_single)
  next
    case False
    with t have "trim_right ((of_runes rs @ butlast ?e) @ [last ?e]) ?cut = (of_runes rs @ butlast ?e) @ [last ?e]"
      by (simp only: trim_right_snoc if_False)
    with e False show ?thesis by (simp add: rtrim_snoc of_runes_single)
  qed
qed

lemma SanitizeUserText_strip: "SanitizeUserText s = of_runes (rtrim (strip (runes s)))"
  by (simp add: SanitizeUserText_def sanitize_loop_strip trim_right_of_runes)

lemma runes_SanitizeUserText: "runes (SanitizeUserText s) = rtrim (strip (runes s))"
proof -
  have "set (rtrim (strip (runes s))) \<subseteq> set (runes s)"
    using set_rtrim set_strip by (rule subset_trans)
  then show ?thesis
    unfolding SanitizeUserText_strip by (intro runes_of_runes) (auto intro: runes_valid)
qed

text \<open>Text that is safe to show on a terminal: what the sanitizer makes, also when it is cut short.\<close>

definition clean_text :: "string \<Rightarrow> bool" where
  "clean_text s \<longleftrightarrow> (\<forall>r \<in> set (runes s). allowed r)"

lemma clean_sanitized [simp]: "clean_text (SanitizeUserText s)"
  using set_rtrim strip_allowed unfolding clean_text_def runes_SanitizeUserText by blast

lemma clean_take: "clean_text s \<Longrightarrow> clean_text (take n s)"
  using runes_take [of n s] by (auto simp: clean_text_def RuneError_def is_control_def)

lemma clean_Nil [simp]: "clean_text []"
  by (simp add: clean_text_def runes_def bytes_of_def)

text \<open>C12. \<open>SanitizeUserText\<close> removes every terminal control: whatever bytes a user sends, the
  runes of the result are printable or a newline or a tab (no ESC, no C0, DEL or C1 control),
  and the result does not end in a newline, a tab or a space.\<close>

theorem SanitizeUserText_clean:
  "(\<forall>r \<in> set (runes (SanitizeUserText s)). r = 0x0a \<or> r = 0x09 \<or> \<not> is_control r)
   \<and> (SanitizeUserText s = [] \<or> last (SanitizeUserText s) \<notin> {CHR 0x0A, CHR 0x09, CHR 0x20})"
proof
  show "\<forall>r \<in> set (runes (SanitizeUserText s)). r = 0x0a \<or> r = 0x09 \<or> \<not> is_control r"
    using set_rtrim strip_allowed by (fastforce simp: runes_SanitizeUserText)
  show "SanitizeUserText s = [] \<or> last (SanitizeUserText s) \<notin> {CHR 0x0A, CHR 0x09, CHR 0x20}"
    using trim_right_last unfolding SanitizeUserText_def by fastforce
qed

theorem SanitizeUserText_clean_witness:
  "runes (SanitizeUserText (''a'' @ [CHR 0x1B] @ ''[31mb '')) = [97, 98]
   \<and> 27 \<notin> set (runes (SanitizeUserText (''a'' @ [CHR 0x1B] @ ''[31mb '')))"
proof
  have "runes (''a'' @ [CHR 0x1B] @ ''[31mb '') = [97, 27, 91, 51, 49, 109, 98, 32]"
    by (simp add: runes_def bytes_of_def)
  then show "runes (SanitizeUserText (''a'' @ [CHR 0x1B] @ ''[31mb '')) = [97, 98]"
    by (simp add: runes_SanitizeUserText rtrim_def trimmed_def csi_final_def is_control_def)
  show "27 \<notin> set (runes (SanitizeUserText (''a'' @ [CHR 0x1B] @ ''[31mb '')))"
    using SanitizeUserText_clean [of "''a'' @ [CHR 0x1B] @ ''[31mb ''"] by (auto simp: is_control_def)
qed

text \<open>The sanitizer is idempotent: sanitizing stored text again (the interface sanitizes what
  the composer holds, the store sanitizes what it is given) changes nothing.\<close>

theorem SanitizeUserText_idem: "SanitizeUserText (SanitizeUserText s) = SanitizeUserText s"
proof -
  have "strip (rtrim (strip (runes s))) = rtrim (strip (runes s))"
    using set_rtrim strip_allowed by (intro strip_id) blast
  moreover have "SanitizeUserText (SanitizeUserText s) = of_runes (rtrim (strip (rtrim (strip (runes s)))))"
    by (simp only: SanitizeUserText_strip [of "SanitizeUserText s"] runes_SanitizeUserText)
  ultimately show ?thesis by (simp add: rtrim_idem SanitizeUserText_strip)
qed

text \<open>C24. The index loops of the sanitizer, with their early exits at the end of the input, compute
  the recursive specification: escape sequences, string controls and control runes are dropped,
  every other rune is kept in order, and trailing blanks are trimmed.\<close>

theorem SanitizeUserText_spec: "runes (SanitizeUserText s) = rtrim (strip (runes s))"
  by (rule runes_SanitizeUserText)

end
