(* ===== verification/Hub.thy ===== *)
theory Hub
  imports Domain "HOL-Library.AList"
begin

text \<open>
  Package \<^verbatim>\<open>internal/hub\<close>: the in-memory publish/subscribe between sessions.

  A \<open>Sub\<close> is a pointer in the code; its identity is the address \<open>Sub_ID\<close>, and the channel it
  points to lives in \<open>h_chans\<close>: a queue of at most 64 events and whether it is closed. Go maps
  are association lists and sets of subscribers are lists; the iteration order of a map does not
  matter, because an event only touches the channel of the subscriber it is sent to. Sending on
  a closed channel and closing it twice panic: the operations return \<open>None\<close> there. Each operation
  is one step here; the sections the code runs after releasing its mutex are split off in
  theory HubRace.
\<close>

section \<open>Events, subscribers and the hub\<close>

datatype event_kind =
  room_msg | dm_msg | msg_deleted | presence | notify | room_meta | room_removed

record Event =
  Ev_Kind :: event_kind
  Ev_RoomID :: int
  Ev_UserID :: int
  Ev_PeerID :: int
  Ev_Message :: "Message option"
  Ev_Online :: bool
  Ev_Notif :: "Notification option"
  Ev_MentionSet :: "int list"

text \<open>An event of a kind, every other field at Go's zero value.\<close>

definition mk_event :: "event_kind \<Rightarrow> Event" where
  "mk_event k = \<lparr>Ev_Kind = k, Ev_RoomID = 0, Ev_UserID = 0, Ev_PeerID = 0, Ev_Message = None,
     Ev_Online = False, Ev_Notif = None, Ev_MentionSet = []\<rparr>"

record Sub =
  Sub_ID :: nat
  Sub_UserID :: int

record Chan =
  ch_queue :: "Event list"
  ch_closed :: bool

definition chan_cap :: nat where "chan_cap = 64"

record Hub =
  h_rooms :: "(int \<times> Sub list) list"
  h_users :: "(int \<times> Sub list) list"
  h_presenceCnt :: "(int \<times> int) list"
  h_chans :: "nat \<Rightarrow> Chan"
  h_next :: nat

definition NewHub :: Hub where
  "NewHub = \<lparr>h_rooms = [], h_users = [], h_presenceCnt = [],
     h_chans = (\<lambda>_. \<lparr>ch_queue = [], ch_closed = False\<rparr>), h_next = 0\<rparr>"

text \<open>Reading a Go map of sets or of counts: a missing key reads as empty or zero.\<close>

definition subs_at :: "(int \<times> Sub list) list \<Rightarrow> int \<Rightarrow> Sub list" where
  "subs_at m k = (case map_of m k of None \<Rightarrow> [] | Some S \<Rightarrow> S)"

definition count_at :: "(int \<times> int) list \<Rightarrow> int \<Rightarrow> int" where
  "count_at m k = (case map_of m k of None \<Rightarrow> 0 | Some n \<Rightarrow> n)"

section \<open>Operations\<close>

text \<open>\<open>send\<close>: the select with a default drops the event when the buffer is full.\<close>

definition send :: "Sub \<Rightarrow> Event \<Rightarrow> Hub \<Rightarrow> Hub option" where
  "send s ev h =
     (let c = h_chans h (Sub_ID s) in
      if ch_closed c then None
      else if length (ch_queue c) < chan_cap
      then Some (h\<lparr>h_chans := (h_chans h)(Sub_ID s := c\<lparr>ch_queue := ch_queue c @ [ev]\<rparr>)\<rparr>)
      else Some h)"

fun send_all :: "Sub list \<Rightarrow> Event \<Rightarrow> Hub \<Rightarrow> Hub option" where
  "send_all [] ev h = Some h"
| "send_all (s # ss) ev h = (case send s ev h of None \<Rightarrow> None | Some h' \<Rightarrow> send_all ss ev h')"

definition broadcastPresence :: "int \<Rightarrow> bool \<Rightarrow> Hub \<Rightarrow> Hub option" where
  "broadcastPresence userID online h =
     send_all (remdups (concat (map snd (h_rooms h))))
       ((mk_event presence)\<lparr>Ev_UserID := userID, Ev_Online := online\<rparr>) h"

definition Subscribe :: "int \<Rightarrow> Hub \<Rightarrow> (Sub \<times> Hub) option" where
  "Subscribe userID h =
     (let s = \<lparr>Sub_ID = h_next h, Sub_UserID = userID\<rparr>;
          n = count_at (h_presenceCnt h) userID + 1;
          h = h\<lparr>h_next := h_next h + 1,
                h_chans := (h_chans h)(Sub_ID s := \<lparr>ch_queue = [], ch_closed = False\<rparr>),
                h_users := AList.update userID (List.insert s (subs_at (h_users h) userID)) (h_users h),
                h_presenceCnt := AList.update userID n (h_presenceCnt h)\<rparr>
      in if n = 1 then (case broadcastPresence userID True h of None \<Rightarrow> None | Some h' \<Rightarrow> Some (s, h'))
         else Some (s, h))"

text \<open>The sweep over the rooms in \<open>Unsubscribe\<close>.\<close>

fun sweep_rooms :: "Sub \<Rightarrow> (int \<times> Sub list) list \<Rightarrow> (int \<times> Sub list) list" where
  "sweep_rooms s [] = []"
| "sweep_rooms s ((rid, S) # m) =
     (if s \<in> set S
      then (if removeAll s S = [] then sweep_rooms s m else (rid, removeAll s S) # sweep_rooms s m)
      else (rid, S) # sweep_rooms s m)"

text \<open>Deleting a subscriber from the set at a key, and the key when the set becomes empty.\<close>

definition remove_sub :: "Sub \<Rightarrow> int \<Rightarrow> (int \<times> Sub list) list \<Rightarrow> (int \<times> Sub list) list" where
  "remove_sub s k m =
     (case map_of m k of
        None \<Rightarrow> m
      | Some S \<Rightarrow> if removeAll s S = [] then AList.delete k m else AList.update k (removeAll s S) m)"

definition close_chan :: "Sub \<Rightarrow> Hub \<Rightarrow> Hub option" where
  "close_chan s h =
     (let c = h_chans h (Sub_ID s) in
      if ch_closed c then None
      else Some (h\<lparr>h_chans := (h_chans h)(Sub_ID s := c\<lparr>ch_closed := True\<rparr>)\<rparr>))"

text \<open>The section of \<open>Unsubscribe\<close> under the mutex; it also says whether this was the last session.\<close>

definition unsubscribe_maps :: "Sub \<Rightarrow> Hub \<Rightarrow> bool \<times> Hub" where
  "unsubscribe_maps s h =
     (let n = count_at (h_presenceCnt h) (Sub_UserID s) - 1;
          is_last = (n \<le> 0)
      in (is_last,
          h\<lparr>h_rooms := sweep_rooms s (h_rooms h),
            h_users := remove_sub s (Sub_UserID s) (h_users h),
            h_presenceCnt := (if is_last then AList.delete (Sub_UserID s) (h_presenceCnt h)
                              else AList.update (Sub_UserID s) n (h_presenceCnt h))\<rparr>))"

definition Unsubscribe :: "Sub \<Rightarrow> Hub \<Rightarrow> Hub option" where
  "Unsubscribe s h =
     (case unsubscribe_maps s h of
        (is_last, h1) \<Rightarrow>
          (case close_chan s h1 of
             None \<Rightarrow> None
           | Some h2 \<Rightarrow> if is_last then broadcastPresence (Sub_UserID s) False h2 else Some h2))"

definition JoinRoom :: "Sub \<Rightarrow> int \<Rightarrow> Hub \<Rightarrow> Hub" where
  "JoinRoom s roomID h =
     h\<lparr>h_rooms := AList.update roomID (List.insert s (subs_at (h_rooms h) roomID)) (h_rooms h)\<rparr>"

definition LeaveRoom :: "Sub \<Rightarrow> int \<Rightarrow> Hub \<Rightarrow> Hub" where
  "LeaveRoom s roomID h = h\<lparr>h_rooms := remove_sub s roomID (h_rooms h)\<rparr>"

definition RemoveUserFromRoom :: "int \<Rightarrow> int \<Rightarrow> Hub \<Rightarrow> Hub option" where
  "RemoveUserFromRoom userID roomID h =
     (let S = subs_at (h_rooms h) roomID;
          gone = filter (\<lambda>s. Sub_UserID s = userID) S;
          keep = filter (\<lambda>s. Sub_UserID s \<noteq> userID) S;
          h = (case map_of (h_rooms h) roomID of
                 None \<Rightarrow> h
               | Some _ \<Rightarrow>
                   h\<lparr>h_rooms := (if keep = [] then AList.delete roomID (h_rooms h)
                                 else AList.update roomID keep (h_rooms h))\<rparr>)
      in send_all gone ((mk_event room_removed)\<lparr>Ev_RoomID := roomID, Ev_UserID := userID\<rparr>) h)"

definition IsOnline :: "int \<Rightarrow> Hub \<Rightarrow> bool" where
  "IsOnline userID h \<longleftrightarrow> count_at (h_presenceCnt h) userID > 0"

definition OnlineUserIDs :: "Hub \<Rightarrow> int list" where
  "OnlineUserIDs h = map fst (h_presenceCnt h)"

definition PublishRoom :: "int \<Rightarrow> Event \<Rightarrow> Hub \<Rightarrow> Hub option" where
  "PublishRoom roomID ev h = send_all (subs_at (h_rooms h) roomID) ev h"

definition PublishUser :: "int \<Rightarrow> Event \<Rightarrow> Hub \<Rightarrow> Hub option" where
  "PublishUser userID ev h = send_all (subs_at (h_users h) userID) ev h"

section \<open>The maps as functions\<close>

lemma subs_at_update [simp]:
  "subs_at (AList.update k S m) j = (if j = k then S else subs_at m j)"
  by (simp add: subs_at_def update_conv')

lemma count_at_update [simp]:
  "count_at (AList.update k n m) j = (if j = k then n else count_at m j)"
  by (simp add: count_at_def update_conv')

lemma subs_at_delete [simp]:
  "subs_at (AList.delete k m) j = (if j = k then [] else subs_at m j)"
  by (simp add: subs_at_def delete_conv')

lemma count_at_delete [simp]:
  "count_at (AList.delete k m) j = (if j = k then 0 else count_at m j)"
  by (simp add: count_at_def delete_conv')

lemma subs_at_remove_sub [simp]:
  "subs_at (remove_sub s k m) j = (if j = k then removeAll s (subs_at m j) else subs_at m j)"
  by (simp add: remove_sub_def split: option.splits) (simp add: subs_at_def)

lemma sweep_rooms_keys: "fst ` set (sweep_rooms s m) \<subseteq> fst ` set m"
  by (induction s m rule: sweep_rooms.induct) auto

lemma distinct_sweep_rooms: "distinct (map fst m) \<Longrightarrow> distinct (map fst (sweep_rooms s m))"
proof (induction s m rule: sweep_rooms.induct)
  case (2 s rid S m)
  then show ?case using sweep_rooms_keys [of s m] by auto
qed simp

lemma subs_at_sweep_rooms [simp]:
  "distinct (map fst m) \<Longrightarrow> subs_at (sweep_rooms s m) j = removeAll s (subs_at m j)"
proof (induction s m rule: sweep_rooms.induct)
  case (2 s rid S m)
  have "map_of (sweep_rooms s m) rid = None" "map_of m rid = None"
    using "2.prems" sweep_rooms_keys [of s m] by (auto simp: map_of_eq_None_iff)
  with 2 show ?case by (auto simp: subs_at_def)
qed (simp add: subs_at_def)

lemma distinct_remove_sub: "distinct (map fst m) \<Longrightarrow> distinct (map fst (remove_sub s k m))"
  by (simp add: remove_sub_def distinct_update distinct_delete split: option.splits)

lemma set_concat_rooms:
  "distinct (map fst m) \<Longrightarrow> set (concat (map snd m)) = (\<Union>r. set (subs_at m r))"
proof (intro equalityI subsetI)
  fix x assume "x \<in> set (concat (map snd m))"
  then obtain r S where "(r, S) \<in> set m" "x \<in> set S" by auto
  moreover assume "distinct (map fst m)"
  ultimately have "x \<in> set (subs_at m r)" by (simp add: subs_at_def map_of_is_SomeI)
  then show "x \<in> (\<Union>r. set (subs_at m r))" by blast
next
  fix x assume "x \<in> (\<Union>r. set (subs_at m r))"
  then obtain r where "x \<in> set (subs_at m r)" by blast
  then obtain S where "map_of m r = Some S" "x \<in> set S"
    by (cases "map_of m r") (simp_all add: subs_at_def)
  then show "x \<in> set (concat (map snd m))" by (force dest: map_of_SomeD)
qed

section \<open>Sending\<close>

text \<open>What a send does to a channel: append, or drop when the buffer is full.\<close>

definition offer :: "Event \<Rightarrow> Chan \<Rightarrow> Chan" where
  "offer ev c = (if length (ch_queue c) < chan_cap then c\<lparr>ch_queue := ch_queue c @ [ev]\<rparr> else c)"

lemma offer_closed [simp]: "ch_closed (offer ev c) = ch_closed c"
  by (simp add: offer_def)

lemma offer_bound: "length (ch_queue c) \<le> chan_cap \<Longrightarrow> length (ch_queue (offer ev c)) \<le> chan_cap"
  by (simp add: offer_def)

text \<open>The frame of the hub operations that only send: the maps are untouched.\<close>

definition same_maps :: "Hub \<Rightarrow> Hub \<Rightarrow> bool" where
  "same_maps h h' \<longleftrightarrow> h_rooms h' = h_rooms h \<and> h_users h' = h_users h
     \<and> h_presenceCnt h' = h_presenceCnt h \<and> h_next h' = h_next h"

lemma send_eq:
  "send s ev h = (if ch_closed (h_chans h (Sub_ID s)) then None
     else Some (h\<lparr>h_chans := (h_chans h)(Sub_ID s := offer ev (h_chans h (Sub_ID s)))\<rparr>))"
  by (simp add: send_def offer_def Let_def)

text \<open>
  Sending one event to a list of distinct open channels: it never panics, every one of them is
  offered the event once, and nothing else changes.
\<close>

lemma send_all_Some:
  assumes "\<forall>s \<in> set ss. \<not> ch_closed (h_chans h (Sub_ID s))" and "distinct (map Sub_ID ss)"
  shows "\<exists>h'. send_all ss ev h = Some h' \<and> same_maps h h' \<and>
    h_chans h' = (\<lambda>i. if i \<in> Sub_ID ` set ss then offer ev (h_chans h i) else h_chans h i)"
  using assms
proof (induction ss arbitrary: h)
  case Nil
  then show ?case by (simp add: same_maps_def)
next
  case (Cons s ss)
  let ?h = "h\<lparr>h_chans := (h_chans h)(Sub_ID s := offer ev (h_chans h (Sub_ID s)))\<rparr>"
  have "\<forall>t \<in> set ss. \<not> ch_closed (h_chans ?h (Sub_ID t))" using Cons.prems by auto
  with Cons.IH [of ?h] Cons.prems(2) obtain h' where h': "send_all ss ev ?h = Some h'" "same_maps ?h h'"
    "h_chans h' = (\<lambda>i. if i \<in> Sub_ID ` set ss then offer ev (h_chans ?h i) else h_chans ?h i)"
    by auto
  have "send s ev h = Some ?h" using Cons.prems by (simp add: send_eq)
  with h' Cons.prems(2) show ?case
    by (auto simp: same_maps_def fun_eq_iff image_iff)
qed

lemma send_all_NoneD: "send_all ss ev h = None \<Longrightarrow> \<exists>s \<in> set ss. ch_closed (h_chans h (Sub_ID s))"
proof (induction ss arbitrary: h)
  case (Cons s ss)
  show ?case
  proof (cases "ch_closed (h_chans h (Sub_ID s))")
    case False
    let ?h = "h\<lparr>h_chans := (h_chans h)(Sub_ID s := offer ev (h_chans h (Sub_ID s)))\<rparr>"
    from False Cons.prems have "send_all ss ev ?h = None" by (simp add: send_eq)
    then obtain t where "t \<in> set ss" "ch_closed (h_chans ?h (Sub_ID t))" using Cons.IH by blast
    then show ?thesis by (auto split: if_splits)
  qed auto
qed simp

end
