(* ===== verification/HubInv.thy ===== *)
theory HubInv
  imports Hub
begin

text \<open>
  The invariant of the hub and what each operation does. A subscription is \<open>live\<close> from
  \<open>Subscribe\<close> to \<open>Unsubscribe\<close>; the presence counter of a user is the number of the user's live
  subscriptions, rooms hold live subscriptions only, and the channel of a live subscription is
  open, so that no operation panics. \<open>hub_reach\<close> lists what clients do: they join and leave with
  a live subscription and unsubscribe it once.
\<close>

section \<open>The invariant\<close>

definition live :: "Hub \<Rightarrow> Sub \<Rightarrow> bool" where
  "live h s \<longleftrightarrow> s \<in> set (subs_at (h_users h) (Sub_UserID s))"

definition maps_ok :: "Hub \<Rightarrow> bool" where
  "maps_ok h \<longleftrightarrow>
     distinct (map fst (h_rooms h)) \<and> distinct (map fst (h_users h)) \<and>
     distinct (map fst (h_presenceCnt h)) \<and>
     (\<forall>u. distinct (subs_at (h_users h) u)) \<and> (\<forall>r. distinct (subs_at (h_rooms h) r))"

definition subs_ok :: "Hub \<Rightarrow> bool" where
  "subs_ok h \<longleftrightarrow>
     (\<forall>u s. s \<in> set (subs_at (h_users h) u) \<longrightarrow>
        Sub_UserID s = u \<and> Sub_ID s < h_next h \<and> \<not> ch_closed (h_chans h (Sub_ID s))) \<and>
     inj_on Sub_ID {s. live h s} \<and>
     (\<forall>r s. s \<in> set (subs_at (h_rooms h) r) \<longrightarrow> live h s)"

definition presence_ok :: "Hub \<Rightarrow> bool" where
  "presence_ok h \<longleftrightarrow>
     (\<forall>u. map_of (h_presenceCnt h) u =
        (if subs_at (h_users h) u = [] then None else Some (int (length (subs_at (h_users h) u)))))"

definition queues_ok :: "Hub \<Rightarrow> bool" where
  "queues_ok h \<longleftrightarrow> (\<forall>i. length (ch_queue (h_chans h i)) \<le> chan_cap)"

definition hub_ok :: "Hub \<Rightarrow> bool" where
  "hub_ok h \<longleftrightarrow> maps_ok h \<and> subs_ok h \<and> presence_ok h \<and> queues_ok h"

lemma presence_count: "presence_ok h \<Longrightarrow> count_at (h_presenceCnt h) u = int (length (subs_at (h_users h) u))"
  by (simp add: presence_ok_def count_at_def)

lemma live_open: "subs_ok h \<Longrightarrow> live h s \<Longrightarrow> \<not> ch_closed (h_chans h (Sub_ID s))"
  unfolding subs_ok_def live_def by blast

lemma live_inj: "subs_ok h \<Longrightarrow> live h s \<Longrightarrow> live h t \<Longrightarrow> Sub_ID s = Sub_ID t \<Longrightarrow> s = t"
  unfolding subs_ok_def inj_on_def by blast

lemma users_live: "subs_ok h \<Longrightarrow> s \<in> set (subs_at (h_users h) u) \<Longrightarrow> live h s \<and> Sub_UserID s = u"
  unfolding subs_ok_def live_def by blast

lemma rooms_live: "subs_ok h \<Longrightarrow> s \<in> set (subs_at (h_rooms h) r) \<Longrightarrow> live h s"
  unfolding subs_ok_def by blast

lemma NewHub_ok: "hub_ok NewHub"
  by (simp add: hub_ok_def maps_ok_def subs_ok_def presence_ok_def queues_ok_def NewHub_def
      subs_at_def live_def)

text \<open>Sends keep the invariant: it does not look at the queues but for their bound.\<close>

lemma hub_ok_frame:
  assumes "hub_ok h" and "same_maps h h'" and "queues_ok h'"
    and "\<And>i. ch_closed (h_chans h' i) = ch_closed (h_chans h i)"
  shows "hub_ok h'"
proof -
  from assms(2) have eq: "h_rooms h' = h_rooms h" "h_users h' = h_users h" "h_next h' = h_next h"
    "h_presenceCnt h' = h_presenceCnt h" by (simp_all add: same_maps_def)
  from assms(1,3) show ?thesis
    unfolding hub_ok_def maps_ok_def subs_ok_def presence_ok_def live_def eq assms(4) by blast
qed

text \<open>Changing the rooms keeps it when they are sets of live subscriptions.\<close>

lemma hub_ok_rooms:
  assumes "hub_ok h" and "distinct (map fst m)" and "\<And>r. distinct (subs_at m r)"
    and "\<And>r s. s \<in> set (subs_at m r) \<Longrightarrow> live h s"
  shows "hub_ok (h\<lparr>h_rooms := m\<rparr>)"
proof -
  have live: "live (h\<lparr>h_rooms := m\<rparr>) = live h" by (simp add: live_def fun_eq_iff)
  have "maps_ok (h\<lparr>h_rooms := m\<rparr>)" using assms by (simp add: hub_ok_def maps_ok_def)
  moreover have "subs_ok (h\<lparr>h_rooms := m\<rparr>)"
    using assms(1,4) by (simp add: hub_ok_def subs_ok_def live)
  ultimately show ?thesis using assms(1) by (simp add: hub_ok_def presence_ok_def queues_ok_def)
qed

lemma send_all_ok:
  assumes "hub_ok h" and "\<forall>s \<in> set ss. live h s" and "distinct ss"
  obtains h' where "send_all ss ev h = Some h'" and "same_maps h h'" and "hub_ok h'"
    and "h_chans h' = (\<lambda>i. if i \<in> Sub_ID ` set ss then offer ev (h_chans h i) else h_chans h i)"
proof -
  have ok: "subs_ok h" using assms(1) by (simp add: hub_ok_def)
  have "inj_on Sub_ID (set ss)" using assms(2) live_inj [OF ok] by (auto intro: inj_onI)
  then have "distinct (map Sub_ID ss)" using assms(3) by (simp add: distinct_map)
  moreover have "\<forall>s \<in> set ss. \<not> ch_closed (h_chans h (Sub_ID s))"
    using assms(2) live_open [OF ok] by blast
  ultimately obtain h' where h': "send_all ss ev h = Some h'" "same_maps h h'"
    "h_chans h' = (\<lambda>i. if i \<in> Sub_ID ` set ss then offer ev (h_chans h i) else h_chans h i)"
    using send_all_Some by blast
  have "queues_ok h'" using assms(1) h'(3) by (simp add: hub_ok_def queues_ok_def offer_bound)
  then have "hub_ok h'" using assms(1) h' by (intro hub_ok_frame [of h h']) auto
  with h' show thesis by (intro that)
qed

section \<open>Each operation\<close>

lemma broadcastPresence_ok:
  assumes "hub_ok h"
  obtains h' where "broadcastPresence u on h = Some h'" and "same_maps h h'" and "hub_ok h'"
    and "h_chans h' = (\<lambda>i. if \<exists>r. i \<in> Sub_ID ` set (subs_at (h_rooms h) r)
      then offer ((mk_event presence)\<lparr>Ev_UserID := u, Ev_Online := on\<rparr>) (h_chans h i) else h_chans h i)"
proof -
  have d: "distinct (map fst (h_rooms h))" and ok: "subs_ok h"
    using assms by (simp_all add: hub_ok_def maps_ok_def)
  let ?ss = "remdups (concat (map snd (h_rooms h)))"
  have set: "set ?ss = (\<Union>r. set (subs_at (h_rooms h) r))"
    using set_concat_rooms [OF d] by simp
  have "\<forall>s \<in> set ?ss. live h s" unfolding set using rooms_live [OF ok] by blast
  then show thesis
    by (rule send_all_ok [OF assms _ distinct_remdups])
       (rule that, unfold broadcastPresence_def set image_UN, auto)
qed

lemma PublishRoom_ok:
  assumes "hub_ok h"
  obtains h' where "PublishRoom r ev h = Some h'" and "same_maps h h'" and "hub_ok h'"
    and "h_chans h' = (\<lambda>i. if i \<in> Sub_ID ` set (subs_at (h_rooms h) r) then offer ev (h_chans h i) else h_chans h i)"
proof (rule send_all_ok [OF assms])
  show "\<forall>s \<in> set (subs_at (h_rooms h) r). live h s" "distinct (subs_at (h_rooms h) r)"
    using assms rooms_live by (auto simp: hub_ok_def maps_ok_def)
qed (rule that, auto simp: PublishRoom_def)

lemma PublishUser_ok:
  assumes "hub_ok h"
  obtains h' where "PublishUser u ev h = Some h'" and "same_maps h h'" and "hub_ok h'"
    and "h_chans h' = (\<lambda>i. if i \<in> Sub_ID ` set (subs_at (h_users h) u) then offer ev (h_chans h i) else h_chans h i)"
proof (rule send_all_ok [OF assms])
  show "\<forall>s \<in> set (subs_at (h_users h) u). live h s" "distinct (subs_at (h_users h) u)"
    using assms users_live by (auto simp: hub_ok_def maps_ok_def)
qed (rule that, auto simp: PublishUser_def)

lemma JoinRoom_ok:
  assumes "hub_ok h" and "live h s"
  shows "hub_ok (JoinRoom s r h)"
  unfolding JoinRoom_def
  using assms rooms_live
  by (intro hub_ok_rooms) (auto simp: hub_ok_def maps_ok_def distinct_update split: if_splits)

lemma LeaveRoom_ok:
  assumes "hub_ok h"
  shows "hub_ok (LeaveRoom s r h)"
  unfolding LeaveRoom_def
  using assms rooms_live
  by (intro hub_ok_rooms)
     (auto simp: hub_ok_def maps_ok_def distinct_remove_sub distinct_removeAll split: if_splits)

text \<open>\<open>Subscribe\<close> before its broadcast.\<close>

definition subscribe_maps :: "int \<Rightarrow> Hub \<Rightarrow> Sub \<times> Hub" where
  "subscribe_maps u h =
     (let s = \<lparr>Sub_ID = h_next h, Sub_UserID = u\<rparr> in
      (s, h\<lparr>h_next := h_next h + 1,
            h_chans := (h_chans h)(h_next h := \<lparr>ch_queue = [], ch_closed = False\<rparr>),
            h_users := AList.update u (List.insert s (subs_at (h_users h) u)) (h_users h),
            h_presenceCnt := AList.update u (count_at (h_presenceCnt h) u + 1) (h_presenceCnt h)\<rparr>))"

lemma Subscribe_maps:
  "Subscribe u h =
     (case subscribe_maps u h of (s, h1) \<Rightarrow>
        if count_at (h_presenceCnt h) u = 0
        then map_option (\<lambda>h2. (s, h2)) (broadcastPresence u True h1) else Some (s, h1))"
  by (simp add: Subscribe_def subscribe_maps_def Let_def split: option.splits)

lemma subscribe_maps_ok:
  assumes "hub_ok h" and "subscribe_maps u h = (s, h1)"
  shows "hub_ok h1" and "s \<notin> set (subs_at (h_users h) u)"
    and "subs_at (h_users h1) v = (if v = u then s # subs_at (h_users h) u else subs_at (h_users h) v)"
    and "h_rooms h1 = h_rooms h" and "Sub_UserID s = u"
proof -
  have ok: "maps_ok h" "subs_ok h" "presence_ok h" "queues_ok h" using assms(1) by (auto simp: hub_ok_def)
  have s: "s = \<lparr>Sub_ID = h_next h, Sub_UserID = u\<rparr>" using assms(2) by (simp add: subscribe_maps_def Let_def)
  have fresh: "t \<in> set (subs_at (h_users h) v) \<Longrightarrow> Sub_ID t < h_next h" for t v
    using ok(2) unfolding subs_ok_def by blast
  show new: "s \<notin> set (subs_at (h_users h) u)" using fresh [of s u] by (auto simp: s)
  have h1: "h_rooms h1 = h_rooms h" "h_next h1 = h_next h + 1"
    "h_chans h1 = (h_chans h)(h_next h := \<lparr>ch_queue = [], ch_closed = False\<rparr>)"
    "h_users h1 = AList.update u (s # subs_at (h_users h) u) (h_users h)"
    "h_presenceCnt h1 = AList.update u (count_at (h_presenceCnt h) u + 1) (h_presenceCnt h)"
    using assms(2) new by (auto simp: subscribe_maps_def Let_def s)
  show users: "subs_at (h_users h1) v = (if v = u then s # subs_at (h_users h) u else subs_at (h_users h) v)" for v
    by (simp add: h1)
  show "h_rooms h1 = h_rooms h" "Sub_UserID s = u" by (simp_all add: h1 s)
  have live: "live h1 t \<longleftrightarrow> t = s \<or> live h t" for t
    by (auto simp: live_def users s)
  have "maps_ok h1" using ok(1) new by (auto simp: maps_ok_def h1 distinct_update)
  moreover have "subs_ok h1"
    unfolding subs_ok_def
  proof (intro conjI allI impI)
    fix v t assume t: "t \<in> set (subs_at (h_users h1) v)"
    show "Sub_UserID t = v" "Sub_ID t < h_next h1" "\<not> ch_closed (h_chans h1 (Sub_ID t))"
      using t ok(2) fresh by (auto simp: users h1 s subs_ok_def less_SucI split: if_splits)
  next
    have "inj_on Sub_ID {t. live h t}" using ok(2) by (simp add: subs_ok_def)
    moreover have "Sub_ID s \<notin> Sub_ID ` {t. live h t}" using fresh by (fastforce simp: s live_def)
    moreover have "{t. live h1 t} = insert s {t. live h t}" by (auto simp: live)
    ultimately show "inj_on Sub_ID {t. live h1 t}" by auto
  next
    fix r t assume "t \<in> set (subs_at (h_rooms h1) r)"
    then show "live h1 t" using rooms_live [OF ok(2)] by (simp add: h1 live)
  qed
  moreover have "presence_ok h1"
    using ok(3) presence_count [OF ok(3)] by (auto simp: presence_ok_def h1 update_conv')
  moreover have "queues_ok h1" using ok(4) by (simp add: queues_ok_def h1)
  ultimately show "hub_ok h1" by (simp add: hub_ok_def)
qed


lemma length_removeAll_distinct:
  "distinct xs \<Longrightarrow> x \<in> set xs \<Longrightarrow> length (removeAll x xs) = length xs - 1"
  by (simp add: distinct_remove1_removeAll [symmetric] length_remove1)

text \<open>
  The map section and the close of \<open>Unsubscribe\<close>: the subscription is in no room and in no
  user's sessions afterwards, every other subscription stays where it was.
\<close>

lemma unsubscribe_ok:
  assumes "hub_ok h" and "live h s" and "unsubscribe_maps s h = (l, h1)"
  obtains h2 where "close_chan s h1 = Some h2" and "hub_ok h2"
    and "\<And>r. subs_at (h_rooms h2) r = removeAll s (subs_at (h_rooms h) r)"
    and "\<And>v. subs_at (h_users h2) v = removeAll s (subs_at (h_users h) v)"
    and "l \<longleftrightarrow> removeAll s (subs_at (h_users h) (Sub_UserID s)) = []"
    and "h_chans h2 = (h_chans h)(Sub_ID s := (h_chans h (Sub_ID s))\<lparr>ch_closed := True\<rparr>)"
proof -
  let ?u = "Sub_UserID s" and ?S = "subs_at (h_users h) (Sub_UserID s)"
  have ok: "maps_ok h" "subs_ok h" "presence_ok h" "queues_ok h" using assms(1) by (auto simp: hub_ok_def)
  have inS: "s \<in> set ?S" using assms(2) by (simp add: live_def)
  have len: "length (removeAll s ?S) = length ?S - 1" "0 < length ?S"
    using ok(1) inS by (auto simp: maps_ok_def length_removeAll_distinct)
  have other: "v \<noteq> ?u \<Longrightarrow> s \<notin> set (subs_at (h_users h) v)" for v using users_live [OF ok(2)] by blast
  have l: "l \<longleftrightarrow> removeAll s ?S = []"
  proof -
    have "l \<longleftrightarrow> length (removeAll s ?S) = 0"
      using assms(3) len presence_count [OF ok(3), of ?u] by (auto simp: unsubscribe_maps_def Let_def)
    then show ?thesis by simp
  qed
  have h1: "h_rooms h1 = sweep_rooms s (h_rooms h)" "h_users h1 = remove_sub s ?u (h_users h)"
    "h_chans h1 = h_chans h" "h_next h1 = h_next h"
    "h_presenceCnt h1 = (if l then AList.delete ?u (h_presenceCnt h)
       else AList.update ?u (int (length ?S) - 1) (h_presenceCnt h))"
    using assms(3) presence_count [OF ok(3), of ?u] by (auto simp: unsubscribe_maps_def Let_def)
  have open_s: "\<not> ch_closed (h_chans h (Sub_ID s))" using ok(2) assms(2) by (rule live_open)
  obtain h2 where h2: "close_chan s h1 = Some h2" "h_rooms h2 = h_rooms h1" "h_users h2 = h_users h1"
    "h_presenceCnt h2 = h_presenceCnt h1" "h_next h2 = h_next h1"
    "h_chans h2 = (h_chans h)(Sub_ID s := (h_chans h (Sub_ID s))\<lparr>ch_closed := True\<rparr>)"
    by (rule that [of "h1\<lparr>h_chans := (h_chans h)(Sub_ID s := (h_chans h (Sub_ID s))\<lparr>ch_closed := True\<rparr>)\<rparr>"])
       (simp_all add: close_chan_def Let_def h1 open_s)
  have rooms: "subs_at (h_rooms h2) r = removeAll s (subs_at (h_rooms h) r)" for r
    using ok(1) by (simp add: h2 h1 maps_ok_def)
  have users: "subs_at (h_users h2) v = removeAll s (subs_at (h_users h) v)" for v
    using other [of v] by (simp add: h2 h1)
  have live: "live h2 t \<longleftrightarrow> t \<noteq> s \<and> live h t" for t by (auto simp: live_def users)
  have "maps_ok h2"
    unfolding maps_ok_def rooms users
    using ok(1) by (auto simp: maps_ok_def h2 h1 distinct_sweep_rooms distinct_remove_sub distinct_removeAll
        distinct_update distinct_delete)
  moreover have "subs_ok h2"
    unfolding subs_ok_def
  proof (intro conjI allI impI)
    fix v t assume t: "t \<in> set (subs_at (h_users h2) v)"
    then have t': "t \<in> set (subs_at (h_users h) v)" "t \<noteq> s" by (auto simp: users)
    then show "Sub_UserID t = v" "Sub_ID t < h_next h2"
      using ok(2) by (auto simp: subs_ok_def h2 h1)
    have "Sub_ID t \<noteq> Sub_ID s" using live_inj [OF ok(2)] users_live [OF ok(2) t'(1)] t'(2) assms(2) by blast
    then show "\<not> ch_closed (h_chans h2 (Sub_ID t))"
      using live_open [OF ok(2)] users_live [OF ok(2) t'(1)] by (simp add: h2)
  next
    have "inj_on Sub_ID {t. live h t}" using ok(2) by (simp add: subs_ok_def)
    then show "inj_on Sub_ID {t. live h2 t}" by (rule inj_on_subset) (auto simp: live)
  next
    fix r t assume "t \<in> set (subs_at (h_rooms h2) r)"
    then show "live h2 t" using rooms_live [OF ok(2)] by (auto simp: rooms live)
  qed
  moreover have "presence_ok h2"
    unfolding presence_ok_def
  proof
    fix v
    show "map_of (h_presenceCnt h2) v = (if subs_at (h_users h2) v = [] then None
        else Some (int (length (subs_at (h_users h2) v))))"
    proof (cases "v = ?u")
      case True
      have "0 < length (removeAll s ?S) \<longleftrightarrow> \<not> l" using l by simp
      with True len l show ?thesis by (auto simp: users h2 h1 update_conv' delete_conv' of_nat_diff)
    next
      case False
      with ok(3) other [OF False] show ?thesis
        by (auto simp: presence_ok_def users h2 h1 update_conv' delete_conv')
    qed
  qed
  moreover have "queues_ok h2" using ok(4) by (simp add: queues_ok_def h2)
  ultimately have "hub_ok h2" by (simp add: hub_ok_def)
  with h2 rooms users l show thesis by (intro that [of h2]) auto
qed

lemma Unsubscribe_ok:
  assumes "hub_ok h" and "live h s"
  obtains h' where "Unsubscribe s h = Some h'" and "hub_ok h'"
    and "\<And>r. subs_at (h_rooms h') r = removeAll s (subs_at (h_rooms h) r)"
    and "\<And>v. subs_at (h_users h') v = removeAll s (subs_at (h_users h) v)"
proof -
  obtain l h1 where m: "unsubscribe_maps s h = (l, h1)" by force
  obtain h2 where h2: "close_chan s h1 = Some h2" "hub_ok h2"
    "\<And>r. subs_at (h_rooms h2) r = removeAll s (subs_at (h_rooms h) r)"
    "\<And>v. subs_at (h_users h2) v = removeAll s (subs_at (h_users h) v)"
    by (rule unsubscribe_ok [OF assms m]) blast
  obtain h' where h': "broadcastPresence (Sub_UserID s) False h2 = Some h'" "same_maps h2 h'" "hub_ok h'"
    by (rule broadcastPresence_ok [OF h2(2)])
  show thesis
  proof (cases l)
    case True
    with m h2 h' show ?thesis by (intro that [of h']) (auto simp: Unsubscribe_def same_maps_def)
  next
    case False
    with m h2 show ?thesis by (intro that [of h2]) (auto simp: Unsubscribe_def)
  qed
qed

lemma Subscribe_ok:
  assumes "hub_ok h"
  obtains s h' where "Subscribe u h = Some (s, h')" and "hub_ok h'"
    and "Sub_UserID s = u" and "s \<notin> set (subs_at (h_users h) u)"
    and "\<And>r. subs_at (h_rooms h') r = subs_at (h_rooms h) r"
    and "\<And>v. subs_at (h_users h') v = (if v = u then s # subs_at (h_users h) u else subs_at (h_users h) v)"
proof -
  obtain s h1 where m: "subscribe_maps u h = (s, h1)" by force
  note ok = subscribe_maps_ok [OF assms m]
  obtain h' where h': "broadcastPresence u True h1 = Some h'" "same_maps h1 h'" "hub_ok h'"
    by (rule broadcastPresence_ok [OF ok(1)])
  show thesis
  proof (cases "count_at (h_presenceCnt h) u = 0")
    case True
    with m h' ok show ?thesis by (intro that [of s h']) (auto simp: Subscribe_maps same_maps_def)
  next
    case False
    with m ok show ?thesis by (intro that [of s h1]) (auto simp: Subscribe_maps)
  qed
qed

lemma RemoveUserFromRoom_ok:
  assumes "hub_ok h"
  obtains h' where "RemoveUserFromRoom u r h = Some h'" and "hub_ok h'" and "h_users h' = h_users h"
    and "\<And>j. subs_at (h_rooms h') j =
      (if j = r then filter (\<lambda>s. Sub_UserID s \<noteq> u) (subs_at (h_rooms h) r) else subs_at (h_rooms h) j)"
    and "h_chans h' = (\<lambda>i. if i \<in> Sub_ID ` {s \<in> set (subs_at (h_rooms h) r). Sub_UserID s = u}
      then offer ((mk_event room_removed)\<lparr>Ev_RoomID := r, Ev_UserID := u\<rparr>) (h_chans h i) else h_chans h i)"
proof -
  let ?S = "subs_at (h_rooms h) r"
  let ?gone = "filter (\<lambda>s. Sub_UserID s = u) ?S" and ?keep = "filter (\<lambda>s. Sub_UserID s \<noteq> u) ?S"
  let ?m = "case map_of (h_rooms h) r of None \<Rightarrow> h_rooms h
    | Some _ \<Rightarrow> if ?keep = [] then AList.delete r (h_rooms h) else AList.update r ?keep (h_rooms h)"
  let ?h1 = "h\<lparr>h_rooms := ?m\<rparr>"
  have ok: "maps_ok h" "subs_ok h" using assms by (auto simp: hub_ok_def)
  have rooms: "subs_at ?m j = (if j = r then ?keep else subs_at (h_rooms h) j)" for j
    by (cases "map_of (h_rooms h) r") (auto simp: subs_at_def [of "h_rooms h" r])
  have "distinct (map fst ?m)"
    using ok(1) by (simp add: maps_ok_def distinct_update distinct_delete split: option.splits)
  moreover have "distinct (subs_at ?m j)" for j using ok(1) unfolding rooms by (simp add: maps_ok_def)
  moreover have "s \<in> set (subs_at ?m j) \<Longrightarrow> live h s" for s j
    using rooms_live [OF ok(2)] unfolding rooms by (auto split: if_splits)
  ultimately have h1: "hub_ok ?h1" by (intro hub_ok_rooms [OF assms])
  have "\<forall>s \<in> set ?gone. live ?h1 s" using rooms_live [OF ok(2)] by (auto simp: live_def)
  moreover have "distinct ?gone" using ok(1) by (simp add: maps_ok_def)
  ultimately obtain h' where h': "send_all ?gone ((mk_event room_removed)\<lparr>Ev_RoomID := r, Ev_UserID := u\<rparr>) ?h1 = Some h'"
    "same_maps ?h1 h'" "hub_ok h'"
    "h_chans h' = (\<lambda>i. if i \<in> Sub_ID ` set ?gone
       then offer ((mk_event room_removed)\<lparr>Ev_RoomID := r, Ev_UserID := u\<rparr>) (h_chans ?h1 i) else h_chans ?h1 i)"
    by (rule send_all_ok [OF h1])
  have "(case map_of (h_rooms h) r of None \<Rightarrow> h
     | Some _ \<Rightarrow> h\<lparr>h_rooms := (if ?keep = [] then AList.delete r (h_rooms h) else AList.update r ?keep (h_rooms h))\<rparr>) = ?h1"
    by (simp split: option.splits)
  then have "RemoveUserFromRoom u r h = Some h'" using h'(1) by (simp add: RemoveUserFromRoom_def Let_def)
  with h' rooms show thesis by (intro that [of h']) (auto simp: same_maps_def)
qed


section \<open>Reachable hubs\<close>

text \<open>A client receives the oldest event of its channel.\<close>

definition receive :: "Sub \<Rightarrow> Hub \<Rightarrow> Hub" where
  "receive s h =
     (let c = h_chans h (Sub_ID s) in
      h\<lparr>h_chans := (h_chans h)(Sub_ID s := c\<lparr>ch_queue := tl (ch_queue c)\<rparr>)\<rparr>)"

inductive hub_reach :: "Hub \<Rightarrow> bool" where
  init: "hub_reach NewHub"
| subscribe: "hub_reach h \<Longrightarrow> Subscribe u h = Some (s, h') \<Longrightarrow> hub_reach h'"
| unsubscribe: "hub_reach h \<Longrightarrow> live h s \<Longrightarrow> Unsubscribe s h = Some h' \<Longrightarrow> hub_reach h'"
| join: "hub_reach h \<Longrightarrow> live h s \<Longrightarrow> hub_reach (JoinRoom s r h)"
| leave: "hub_reach h \<Longrightarrow> hub_reach (LeaveRoom s r h)"
| remove_user: "hub_reach h \<Longrightarrow> RemoveUserFromRoom u r h = Some h' \<Longrightarrow> hub_reach h'"
| publish_room: "hub_reach h \<Longrightarrow> PublishRoom r ev h = Some h' \<Longrightarrow> hub_reach h'"
| publish_user: "hub_reach h \<Longrightarrow> PublishUser u ev h = Some h' \<Longrightarrow> hub_reach h'"
| receive: "hub_reach h \<Longrightarrow> hub_reach (receive s h)"

lemma receive_ok: "hub_ok h \<Longrightarrow> hub_ok (receive s h)"
proof -
  assume ok: "hub_ok h"
  have bound: "length (ch_queue (h_chans h i)) \<le> chan_cap" for i
    using ok unfolding hub_ok_def queues_ok_def by blast
  have "length (tl (ch_queue (h_chans h i))) \<le> chan_cap" for i using bound [of i] by simp
  with bound have "queues_ok (receive s h)" by (simp add: queues_ok_def receive_def Let_def)
  then show ?thesis
    by (rule hub_ok_frame [OF ok, rotated]) (simp_all add: same_maps_def receive_def Let_def)
qed

lemma hub_reach_ok: "hub_reach h \<Longrightarrow> hub_ok h"
proof (induction rule: hub_reach.induct)
  case (subscribe h u s h')
  then show ?case by (metis Subscribe_ok option.inject prod.inject)
next
  case (unsubscribe h s h')
  then show ?case by (metis Unsubscribe_ok option.inject)
next
  case (remove_user h u r h')
  then show ?case by (metis RemoveUserFromRoom_ok option.inject)
next
  case (publish_room h r ev h')
  then show ?case by (metis PublishRoom_ok option.inject)
next
  case (publish_user h u ev h')
  then show ?case by (metis PublishUser_ok option.inject)
qed (auto intro: NewHub_ok JoinRoom_ok LeaveRoom_ok receive_ok)

text \<open>A small reachable hub for the witnesses: user 1 has one session, in room 7.\<close>

definition hub_sub :: Sub where
  "hub_sub = \<lparr>Sub_ID = 0, Sub_UserID = 1\<rparr>"

definition hub_one :: Hub where
  "hub_one = JoinRoom hub_sub 7 (snd (the (Subscribe 1 NewHub)))"

lemma Subscribe_NewHub: "Subscribe 1 NewHub = Some (hub_sub, NewHub\<lparr>h_next := 1,
    h_chans := (h_chans NewHub)(0 := \<lparr>ch_queue = [], ch_closed = False\<rparr>),
    h_users := [(1, [hub_sub])], h_presenceCnt := [(1, 1)]\<rparr>)"
  by (simp add: Subscribe_def NewHub_def hub_sub_def subs_at_def count_at_def Let_def broadcastPresence_def)

lemma hub_one_eq: "hub_one = NewHub\<lparr>h_next := 1, h_rooms := [(7, [hub_sub])],
    h_chans := (h_chans NewHub)(0 := \<lparr>ch_queue = [], ch_closed = False\<rparr>),
    h_users := [(1, [hub_sub])], h_presenceCnt := [(1, 1)]\<rparr>"
proof -
  have "h_rooms NewHub = []" by (simp add: NewHub_def)
  then show ?thesis by (simp add: hub_one_def Subscribe_NewHub JoinRoom_def subs_at_def)
qed

lemma hub_one_live: "live hub_one hub_sub"
  by (simp add: live_def hub_one_eq subs_at_def hub_sub_def)

lemma hub_one_reach: "hub_reach hub_one"
proof -
  have "hub_reach (snd (the (Subscribe 1 NewHub)))"
    by (rule hub_reach.subscribe [OF hub_reach.init, of 1 hub_sub]) (simp add: Subscribe_NewHub)
  then show ?thesis
    unfolding hub_one_def
    by (rule hub_reach.join) (simp add: Subscribe_NewHub live_def subs_at_def hub_sub_def)
qed

section \<open>Properties of the hub\<close>

text \<open>No hub operation panics when operations run one at a time: in every state reachable by
  clients that join, leave and unsubscribe with live subscriptions, all channels that an
  operation sends on or closes are open, and the invariant of the hub holds.\<close>

theorem hub_no_panic:
  assumes "hub_reach h"
  shows "hub_ok h \<and> Subscribe u h \<noteq> None \<and> (live h s \<longrightarrow> Unsubscribe s h \<noteq> None)
    \<and> PublishRoom r ev h \<noteq> None \<and> PublishUser u ev h \<noteq> None \<and> RemoveUserFromRoom u r h \<noteq> None"
proof -
  have ok: "hub_ok h" using assms by (rule hub_reach_ok)
  show ?thesis
    using Subscribe_ok [OF ok, of u] Unsubscribe_ok [OF ok, of s] PublishRoom_ok [OF ok, of r ev]
      PublishUser_ok [OF ok, of u ev] RemoveUserFromRoom_ok [OF ok, of u r] ok
    by (metis option.distinct(1))
qed

theorem hub_no_panic_witness: "Unsubscribe hub_sub hub_one \<noteq> None"
  using hub_no_panic [OF hub_one_reach, of 1 hub_sub] hub_one_live by blast

text \<open>C28. Presence: a user is online exactly when the user has a live session, and the list of
  online users is the users of the live sessions, without repetition.\<close>

theorem presence_exact:
  assumes "hub_reach h"
  shows "(IsOnline u h \<longleftrightarrow> (\<exists>s. live h s \<and> Sub_UserID s = u))
    \<and> set (OnlineUserIDs h) = Sub_UserID ` {s. live h s} \<and> distinct (OnlineUserIDs h)"
proof -
  have ok: "maps_ok h" "subs_ok h" "presence_ok h" using hub_reach_ok [OF assms] by (auto simp: hub_ok_def)
  have sess: "subs_at (h_users h) v \<noteq> [] \<longleftrightarrow> (\<exists>s. live h s \<and> Sub_UserID s = v)" for v
  proof
    assume "subs_at (h_users h) v \<noteq> []"
    then obtain s where "s \<in> set (subs_at (h_users h) v)" by (cases "subs_at (h_users h) v") auto
    then show "\<exists>s. live h s \<and> Sub_UserID s = v" using users_live [OF ok(2)] by blast
  qed (auto simp: live_def)
  have "v \<in> set (OnlineUserIDs h) \<longleftrightarrow> (\<exists>s. live h s \<and> Sub_UserID s = v)" for v
  proof -
    have "v \<in> set (OnlineUserIDs h) \<longleftrightarrow> map_of (h_presenceCnt h) v \<noteq> None"
      by (simp add: OnlineUserIDs_def map_of_eq_None_iff)
    with ok(3) show ?thesis unfolding sess [symmetric] by (simp add: presence_ok_def)
  qed
  then have "set (OnlineUserIDs h) = Sub_UserID ` {s. live h s}" by (intro set_eqI) (simp add: image_iff eq_commute)
  moreover have "IsOnline u h \<longleftrightarrow> subs_at (h_users h) u \<noteq> []"
    by (simp add: IsOnline_def presence_count [OF ok(3)])
  ultimately show ?thesis
    using ok(1) sess [of u] by (simp add: maps_ok_def OnlineUserIDs_def)
qed

theorem presence_exact_witness: "IsOnline 1 hub_one \<and> \<not> IsOnline 2 hub_one \<and> set (OnlineUserIDs hub_one) = {1}"
  using presence_exact [OF hub_one_reach, of 1] presence_exact [OF hub_one_reach, of 2] hub_one_live
  by (auto simp: hub_sub_def OnlineUserIDs_def IsOnline_def hub_one_eq count_at_def)

text \<open>C29. A room event goes to the live subscriptions in the room and to no other: each of them
  gets it at the end of its channel, unless its buffer of 64 is full, and then the channel is as
  before; nobody joins or leaves by it.\<close>

theorem PublishRoom_delivers:
  assumes "hub_reach h" and "live h s"
  shows "\<exists>h'. PublishRoom r ev h = Some h' \<and> same_maps h h' \<and>
    ch_queue (h_chans h' (Sub_ID s)) =
      (if s \<in> set (subs_at (h_rooms h) r) \<and> length (ch_queue (h_chans h (Sub_ID s))) < 64
       then ch_queue (h_chans h (Sub_ID s)) @ [ev] else ch_queue (h_chans h (Sub_ID s)))"
proof -
  have ok: "hub_ok h" "subs_ok h" using hub_reach_ok [OF assms(1)] by (auto simp: hub_ok_def)
  have "Sub_ID s \<in> Sub_ID ` set (subs_at (h_rooms h) r) \<longleftrightarrow> s \<in> set (subs_at (h_rooms h) r)"
    using live_inj [OF ok(2)] rooms_live [OF ok(2)] assms(2) by (metis imageE imageI)
  then show ?thesis
    by (rule_tac PublishRoom_ok [OF ok(1), of r ev]) (auto simp: offer_def chan_cap_def)
qed

theorem PublishRoom_delivers_witness:
  "\<exists>h'. PublishRoom 7 (mk_event room_meta) hub_one = Some h' \<and> ch_queue (h_chans h' 0) = [mk_event room_meta]"
  using PublishRoom_delivers [OF hub_one_reach hub_one_live, of 7 "mk_event room_meta"]
  by (auto simp: hub_one_eq subs_at_def hub_sub_def)

text \<open>\<open>Unsubscribe\<close> detaches the session everywhere: it is in no room and counts for no user
  afterwards, every other subscription keeps its rooms and its user, and the user goes offline
  exactly when this was the last session.\<close>

theorem Unsubscribe_detaches:
  assumes "hub_reach h" and "live h s"
  shows "\<exists>h'. Unsubscribe s h = Some h' \<and>
    (\<forall>r. set (subs_at (h_rooms h') r) = set (subs_at (h_rooms h) r) - {s}) \<and>
    (\<forall>t. live h' t \<longleftrightarrow> t \<noteq> s \<and> live h t) \<and>
    (IsOnline (Sub_UserID s) h' \<longleftrightarrow> (\<exists>t. t \<noteq> s \<and> live h t \<and> Sub_UserID t = Sub_UserID s))"
proof -
  have ok: "hub_ok h" using assms(1) by (rule hub_reach_ok)
  obtain h' where h': "Unsubscribe s h = Some h'"
    "\<And>r. subs_at (h_rooms h') r = removeAll s (subs_at (h_rooms h) r)"
    "\<And>v. subs_at (h_users h') v = removeAll s (subs_at (h_users h) v)"
    by (rule Unsubscribe_ok [OF ok assms(2)]) blast
  have "hub_reach h'" using assms h'(1) by (rule hub_reach.unsubscribe)
  then have "IsOnline (Sub_UserID s) h' \<longleftrightarrow> (\<exists>t. live h' t \<and> Sub_UserID t = Sub_UserID s)"
    using presence_exact by blast
  moreover have "live h' t \<longleftrightarrow> t \<noteq> s \<and> live h t" for t by (auto simp: live_def h')
  ultimately show ?thesis using h' by auto
qed

theorem Unsubscribe_detaches_witness:
  "\<exists>h'. Unsubscribe hub_sub hub_one = Some h' \<and> \<not> live h' hub_sub"
  using Unsubscribe_detaches [OF hub_one_reach hub_one_live] by blast

text \<open>C30. \<open>RemoveUserFromRoom\<close>, after a kick or a ban, takes every session of the user out of the
  room's live events and tells each of them, room in its buffer permitting; the other members
  stay, and no other room changes.\<close>

theorem RemoveUserFromRoom_evicts:
  assumes "hub_reach h" and "s \<in> set (subs_at (h_rooms h) r)"
  shows "\<exists>h'. RemoveUserFromRoom u r h = Some h' \<and>
    (s \<in> set (subs_at (h_rooms h') r) \<longleftrightarrow> Sub_UserID s \<noteq> u) \<and>
    (\<forall>j. j \<noteq> r \<longrightarrow> subs_at (h_rooms h') j = subs_at (h_rooms h) j) \<and>
    ch_queue (h_chans h' (Sub_ID s)) =
      (if Sub_UserID s = u \<and> length (ch_queue (h_chans h (Sub_ID s))) < 64
       then ch_queue (h_chans h (Sub_ID s)) @ [(mk_event room_removed)\<lparr>Ev_RoomID := r, Ev_UserID := u\<rparr>]
       else ch_queue (h_chans h (Sub_ID s)))"
proof -
  have ok: "hub_ok h" "subs_ok h" using hub_reach_ok [OF assms(1)] by (auto simp: hub_ok_def)
  have "Sub_ID s \<in> Sub_ID ` {t \<in> set (subs_at (h_rooms h) r). Sub_UserID t = u} \<longleftrightarrow> Sub_UserID s = u"
  proof
    assume "Sub_ID s \<in> Sub_ID ` {t \<in> set (subs_at (h_rooms h) r). Sub_UserID t = u}"
    then obtain t where t: "t \<in> set (subs_at (h_rooms h) r)" "Sub_UserID t = u" "Sub_ID s = Sub_ID t" by blast
    then have "s = t" using live_inj [OF ok(2)] rooms_live [OF ok(2)] assms(2) by blast
    with t show "Sub_UserID s = u" by simp
  qed (use assms(2) in blast)
  then show ?thesis
    using assms(2) by (rule_tac RemoveUserFromRoom_ok [OF ok(1), of u r]) (auto simp: offer_def chan_cap_def)
qed

theorem RemoveUserFromRoom_evicts_witness:
  "\<exists>h'. RemoveUserFromRoom 1 7 hub_one = Some h' \<and> hub_sub \<notin> set (subs_at (h_rooms h') 7)"
  using RemoveUserFromRoom_evicts [OF hub_one_reach, of hub_sub 7 1]
  by (auto simp: hub_one_eq subs_at_def hub_sub_def)

end
