(* ===== verification/HubRace.thy ===== *)
theory HubRace
  imports HubInv
begin

text \<open>
  The hub under concurrency. The code holds its mutex for the map operations only: the sends of
  \<open>PublishRoom\<close>, \<open>PublishUser\<close>, \<open>RemoveUserFromRoom\<close> and \<open>broadcastPresence\<close> go to a snapshot of
  the subscribers after the unlock, and \<open>Unsubscribe\<close> closes its channel after the unlock. Each
  such tail is a \<open>job\<close> of another goroutine; a step runs one section under the mutex, or
  the next send, close or snapshot of a pending job, in any interleaving.
\<close>

section \<open>Sections and pending jobs\<close>

datatype job =
  Sends "Sub list" Event
| Closing Sub bool
| Presence int bool

record Race =
  r_hub :: Hub
  r_jobs :: "job list"

definition Subscribe_section :: "int \<Rightarrow> Hub \<Rightarrow> job list \<times> Hub" where
  "Subscribe_section u h =
     (if count_at (h_presenceCnt h) u = 0 then [Presence u True] else [], snd (subscribe_maps u h))"

definition Unsubscribe_section :: "Sub \<Rightarrow> Hub \<Rightarrow> job list \<times> Hub" where
  "Unsubscribe_section s h = (case unsubscribe_maps s h of (l, h') \<Rightarrow> ([Closing s l], h'))"

definition PublishRoom_section :: "int \<Rightarrow> Event \<Rightarrow> Hub \<Rightarrow> job list \<times> Hub" where
  "PublishRoom_section r ev h = ([Sends (subs_at (h_rooms h) r) ev], h)"

definition PublishUser_section :: "int \<Rightarrow> Event \<Rightarrow> Hub \<Rightarrow> job list \<times> Hub" where
  "PublishUser_section u ev h = ([Sends (subs_at (h_users h) u) ev], h)"

definition RemoveUser_section :: "int \<Rightarrow> int \<Rightarrow> Hub \<Rightarrow> job list \<times> Hub" where
  "RemoveUser_section u r h =
     (let S = subs_at (h_rooms h) r;
          keep = filter (\<lambda>s. Sub_UserID s \<noteq> u) S
      in ([Sends (filter (\<lambda>s. Sub_UserID s = u) S)
            ((mk_event room_removed)\<lparr>Ev_RoomID := r, Ev_UserID := u\<rparr>)],
          (case map_of (h_rooms h) r of
             None \<Rightarrow> h
           | Some _ \<Rightarrow>
               h\<lparr>h_rooms := (if keep = [] then AList.delete r (h_rooms h)
                             else AList.update r keep (h_rooms h))\<rparr>)))"

text \<open>One step of a pending job: what is left of it and the hub after, or a panic.\<close>

fun job_step :: "job \<Rightarrow> Hub \<Rightarrow> (job list \<times> Hub) option" where
  "job_step (Sends [] ev) h = Some ([], h)"
| "job_step (Sends (s # ss) ev) h = map_option (\<lambda>h'. ([Sends ss ev], h')) (send s ev h)"
| "job_step (Closing s l) h =
     map_option (\<lambda>h'. (if l then [Presence (Sub_UserID s) False] else [], h')) (close_chan s h)"
| "job_step (Presence u on) h =
     Some ([Sends (remdups (concat (map snd (h_rooms h))))
             ((mk_event presence)\<lparr>Ev_UserID := u, Ev_Online := on\<rparr>)], h)"

text \<open>The sections of the operations, as the code starts them.\<close>

inductive section_of :: "Hub \<Rightarrow> job list \<Rightarrow> Hub \<Rightarrow> bool" where
  sec_subscribe: "Subscribe_section u h = (js, h') \<Longrightarrow> section_of h js h'"
| sec_unsubscribe: "live h s \<Longrightarrow> Unsubscribe_section s h = (js, h') \<Longrightarrow> section_of h js h'"
| sec_join: "live h s \<Longrightarrow> section_of h [] (JoinRoom s r h)"
| sec_leave: "section_of h [] (LeaveRoom s r h)"
| sec_remove: "RemoveUser_section u r h = (js, h') \<Longrightarrow> section_of h js h'"
| sec_room: "PublishRoom_section r ev h = (js, h') \<Longrightarrow> section_of h js h'"
| sec_user: "PublishUser_section u ev h = (js, h') \<Longrightarrow> section_of h js h'"
| sec_receive: "section_of h [] (receive s h)"

inductive_cases section_ofE: "section_of h js h'"

inductive race_reach :: "Race \<Rightarrow> bool" where
  race_init: "race_reach \<lparr>r_hub = NewHub, r_jobs = []\<rparr>"
| race_section: "race_reach c \<Longrightarrow> section_of (r_hub c) js h' \<Longrightarrow>
    race_reach \<lparr>r_hub = h', r_jobs = r_jobs c @ js\<rparr>"
| race_job: "race_reach c \<Longrightarrow> r_jobs c = js1 @ j # js2 \<Longrightarrow> job_step j (r_hub c) = Some (js, h') \<Longrightarrow>
    race_reach \<lparr>r_hub = h', r_jobs = js1 @ js @ js2\<rparr>"

section \<open>The invariant\<close>

fun closing_ids :: "job list \<Rightarrow> nat list" where
  "closing_ids [] = []"
| "closing_ids (Closing s l # js) = Sub_ID s # closing_ids js"
| "closing_ids (_ # js) = closing_ids js"

lemma closing_ids_append [simp]: "closing_ids (xs @ ys) = closing_ids xs @ closing_ids ys"
  by (induction xs rule: closing_ids.induct) simp_all

lemma closing_ids_mem: "Closing s l \<in> set js \<Longrightarrow> Sub_ID s \<in> set (closing_ids js)"
  by (induction js rule: closing_ids.induct) auto

text \<open>
  The channels waiting to be closed are open, belong to no live subscription, and each of them is
  waiting once.
\<close>

definition pending_ok :: "Hub \<Rightarrow> nat list \<Rightarrow> bool" where
  "pending_ok h ids \<longleftrightarrow> distinct ids \<and>
     (\<forall>i \<in> set ids. i < h_next h \<and> \<not> ch_closed (h_chans h i) \<and> i \<notin> Sub_ID ` {s. live h s})"

definition race_ok :: "Hub \<Rightarrow> job list \<Rightarrow> bool" where
  "race_ok h js \<longleftrightarrow> hub_ok h \<and> pending_ok h (closing_ids js)"

lemma hub_ok_reopen:
  assumes "hub_ok h" and "same_maps h h'" and "queues_ok h'"
    and "\<And>i. ch_closed (h_chans h' i) \<Longrightarrow> i \<in> Sub_ID ` {s. live h s} \<Longrightarrow> ch_closed (h_chans h i)"
  shows "hub_ok h'"
proof -
  from assms(2) have eq: "h_rooms h' = h_rooms h" "h_users h' = h_users h" "h_next h' = h_next h"
    "h_presenceCnt h' = h_presenceCnt h" by (simp_all add: same_maps_def)
  have live: "live h' s = live h s" for s by (simp add: live_def eq)
  have "subs_ok h" using assms(1) by (simp add: hub_ok_def)
  then have "\<not> ch_closed (h_chans h' (Sub_ID s))" if "live h s" for s
    using assms(4) [of "Sub_ID s"] that live_open by blast
  moreover have "s \<in> set (subs_at (h_users h) u) \<Longrightarrow> live h s" for s u
    using users_live [OF \<open>subs_ok h\<close>] by blast
  ultimately have "subs_ok h'"
    using \<open>subs_ok h\<close> unfolding subs_ok_def eq live by blast
  with assms(1,3) show ?thesis by (simp add: hub_ok_def maps_ok_def presence_ok_def eq)
qed

lemma unsubscribe_maps_ok:
  assumes "hub_ok h" and "live h s" and "unsubscribe_maps s h = (l, h1)"
  shows "hub_ok h1" and "live h1 t \<longleftrightarrow> t \<noteq> s \<and> live h t" and "h_chans h1 = h_chans h" and "h_next h1 = h_next h"
proof -
  obtain h2 where h2: "close_chan s h1 = Some h2" "hub_ok h2"
    "\<And>v. subs_at (h_users h2) v = removeAll s (subs_at (h_users h) v)"
    by (rule unsubscribe_ok [OF assms]) blast
  show h1: "h_chans h1 = h_chans h" "h_next h1 = h_next h"
    using assms(3) by (auto simp: unsubscribe_maps_def Let_def)
  have same: "same_maps h2 h1" and closed: "\<And>i. ch_closed (h_chans h1 i) \<Longrightarrow> ch_closed (h_chans h2 i)"
    using h2(1) by (auto simp: close_chan_def same_maps_def Let_def split: if_splits)
  have "queues_ok h1" using assms(1) unfolding hub_ok_def queues_ok_def h1 by blast
  then show "hub_ok h1" using closed by (rule hub_ok_reopen [OF h2(2) same])
  show "live h1 t \<longleftrightarrow> t \<noteq> s \<and> live h t"
    using same h2(3) by (auto simp: live_def same_maps_def)
qed

lemma pending_ok_frame:
  assumes "pending_ok h ids" and "\<And>s. live h' s \<Longrightarrow> live h s"
    and "\<And>i. ch_closed (h_chans h' i) = ch_closed (h_chans h i)" and "h_next h' = h_next h"
  shows "pending_ok h' ids"
proof -
  have "Sub_ID ` {s. live h' s} \<subseteq> Sub_ID ` {s. live h s}" using assms(2) by blast
  with assms(1) show ?thesis unfolding pending_ok_def assms(3,4) by blast
qed

section \<open>Every step keeps it\<close>

lemma Subscribe_section_ok:
  assumes "hub_ok h" and "pending_ok h ids" and "Subscribe_section u h = (js, h')"
  shows "hub_ok h'" and "pending_ok h' (ids @ closing_ids js)"
proof -
  obtain s h1 where m: "subscribe_maps u h = (s, h1)" by force
  with assms(3) have h': "h' = h1" "closing_ids js = []" by (auto simp: Subscribe_section_def split: if_splits)
  note ok = subscribe_maps_ok [OF assms(1) m]
  show "hub_ok h'" using ok(1) h' by simp
  have s: "Sub_ID s = h_next h" "h_next h1 = h_next h + 1"
    "h_chans h1 = (h_chans h)(h_next h := \<lparr>ch_queue = [], ch_closed = False\<rparr>)"
    using m by (auto simp: subscribe_maps_def Let_def)
  have "live h1 t \<longleftrightarrow> t = s \<or> live h t" for t
    using ok(5) by (auto simp: live_def ok(3))
  then show "pending_ok h' (ids @ closing_ids js)"
    using assms(2) by (fastforce simp: pending_ok_def h' s)
qed

lemma Unsubscribe_section_ok:
  assumes "hub_ok h" and "pending_ok h ids" and "live h s" and "Unsubscribe_section s h = (js, h')"
  shows "hub_ok h'" and "pending_ok h' (ids @ closing_ids js)"
proof -
  obtain l h1 where m: "unsubscribe_maps s h = (l, h1)" by force
  with assms(4) have h': "h' = h1" "closing_ids js = [Sub_ID s]" by (auto simp: Unsubscribe_section_def)
  note ok = unsubscribe_maps_ok [OF assms(1,3) m]
  show "hub_ok h'" using ok(1) h' by simp
  have subs: "subs_ok h" using assms(1) by (simp add: hub_ok_def)
  have "Sub_ID s < h_next h" using subs assms(3) unfolding subs_ok_def live_def by blast
  moreover have "\<not> ch_closed (h_chans h (Sub_ID s))" using subs assms(3) by (rule live_open)
  moreover have "Sub_ID s \<notin> Sub_ID ` {t. live h1 t}"
    using live_inj [OF subs assms(3)] by (auto simp: ok(2))
  moreover have "Sub_ID s \<notin> set ids" using assms(2,3) unfolding pending_ok_def by blast
  moreover have "{t. live h1 t} \<subseteq> {t. live h t}" by (auto simp: ok(2))
  ultimately show "pending_ok h' (ids @ closing_ids js)"
    using assms(2) unfolding pending_ok_def h' ok(3,4) by auto
qed

lemma RemoveUser_section_ok:
  assumes "hub_ok h" and "pending_ok h ids" and "RemoveUser_section u r h = (js, h')"
  shows "hub_ok h'" and "pending_ok h' (ids @ closing_ids js)"
proof -
  obtain h2 where h2: "RemoveUserFromRoom u r h = Some h2" "hub_ok h2"
    by (rule RemoveUserFromRoom_ok [OF assms(1)]) blast
  let ?gone = "filter (\<lambda>s. Sub_UserID s = u) (subs_at (h_rooms h) r)"
  have js: "js = [Sends ?gone ((mk_event room_removed)\<lparr>Ev_RoomID := r, Ev_UserID := u\<rparr>)]"
    "send_all ?gone ((mk_event room_removed)\<lparr>Ev_RoomID := r, Ev_UserID := u\<rparr>) h' = Some h2"
    using assms(3) h2(1) by (auto simp: RemoveUser_section_def RemoveUserFromRoom_def Let_def)
  have h': "h_users h' = h_users h" "h_chans h' = h_chans h" "h_next h' = h_next h"
    using assms(3) by (auto simp: RemoveUser_section_def Let_def split: option.splits)
  have "send_all ss ev k = Some k2 \<Longrightarrow> same_maps k2 k \<and> (\<forall>i. ch_closed (h_chans k2 i) = ch_closed (h_chans k i))" for ss ev k k2
  proof (induction ss arbitrary: k)
    case (Cons s ss)
    then obtain k1 where "send s ev k = Some k1" "send_all ss ev k1 = Some k2" by (auto split: option.splits)
    with Cons.IH show ?case by (fastforce simp: send_eq same_maps_def split: if_splits)
  qed (simp add: same_maps_def)
  with js(2) have "same_maps h2 h'" "\<And>i. ch_closed (h_chans h' i) = ch_closed (h_chans h2 i)" by blast+
  moreover have "queues_ok h'" using assms(1) unfolding hub_ok_def queues_ok_def h' by blast
  ultimately show "hub_ok h'" using hub_ok_frame [OF h2(2)] by blast
  show "pending_ok h' (ids @ closing_ids js)"
    using assms(2) by (simp add: js pending_ok_def h' live_def)
qed

lemma section_ok:
  assumes "section_of h js h'" and "race_ok h js0"
  shows "race_ok h' (js0 @ js)"
  using assms(1)
proof (cases rule: section_of.cases)
  case (sec_subscribe u)
  with assms(2) show ?thesis using Subscribe_section_ok [of h "closing_ids js0" u js h'] by (simp add: race_ok_def)
next
  case (sec_unsubscribe s)
  with assms(2) show ?thesis using Unsubscribe_section_ok [of h "closing_ids js0" s js h'] by (simp add: race_ok_def)
next
  case (sec_join s r)
  have "pending_ok (JoinRoom s r h) ids = pending_ok h ids" for ids
    by (simp add: pending_ok_def JoinRoom_def live_def)
  with assms(2) sec_join show ?thesis by (simp add: race_ok_def JoinRoom_ok)
next
  case (sec_leave s r)
  have "pending_ok (LeaveRoom s r h) ids = pending_ok h ids" for ids
    by (simp add: pending_ok_def LeaveRoom_def live_def)
  with assms(2) sec_leave show ?thesis by (simp add: race_ok_def LeaveRoom_ok)
next
  case (sec_remove u r)
  with assms(2) show ?thesis using RemoveUser_section_ok [of h "closing_ids js0" u r js h'] by (simp add: race_ok_def)
next
  case (sec_receive s)
  have "pending_ok h ids \<Longrightarrow> pending_ok (receive s h) ids" for ids
    by (erule pending_ok_frame) (simp_all add: receive_def live_def Let_def)
  with assms(2) sec_receive show ?thesis by (simp add: race_ok_def receive_ok)
qed (use assms(2) in \<open>auto simp: race_ok_def PublishRoom_section_def PublishUser_section_def\<close>)

lemma send_race_ok:
  assumes "send s ev h = Some h'" and "hub_ok h" and "pending_ok h ids"
  shows "hub_ok h'" and "pending_ok h' ids"
proof -
  have h': "same_maps h h'" "\<And>i. ch_closed (h_chans h' i) = ch_closed (h_chans h i)"
    using assms(1) by (auto simp: send_eq same_maps_def split: if_splits)
  have bound: "length (ch_queue (h_chans h i)) \<le> chan_cap" for i
    using assms(2) unfolding hub_ok_def queues_ok_def by blast
  have "queues_ok h'"
    using assms(1) bound by (auto simp: queues_ok_def send_eq offer_bound split: if_splits)
  then show "hub_ok h'" using hub_ok_frame [OF assms(2) h'(1)] h'(2) by blast
  have "live h' t = live h t" "h_next h' = h_next h" for t
    using h'(1) by (simp_all add: live_def same_maps_def)
  with assms(3) h'(2) show "pending_ok h' ids" using pending_ok_frame by blast
qed

lemma close_race_ok:
  assumes "close_chan s h = Some h'" and "hub_ok h" and "pending_ok h (xs @ Sub_ID s # ys)"
  shows "hub_ok h'" and "pending_ok h' (xs @ ys)"
proof -
  have h': "same_maps h h'" "h_chans h' = (h_chans h)(Sub_ID s := (h_chans h (Sub_ID s))\<lparr>ch_closed := True\<rparr>)"
    using assms(1) by (auto simp: close_chan_def same_maps_def Let_def split: if_splits)
  have dead: "Sub_ID s \<notin> Sub_ID ` {t. live h t}" using assms(3) by (simp add: pending_ok_def)
  have bound: "length (ch_queue (h_chans h i)) \<le> chan_cap" for i
    using assms(2) unfolding hub_ok_def queues_ok_def by blast
  then have "queues_ok h'" by (simp add: queues_ok_def h')
  then show "hub_ok h'"
    by (rule hub_ok_reopen [OF assms(2) h'(1)]) (use dead in \<open>auto simp: h'(2) split: if_splits\<close>)
  have "live h' t = live h t" "h_next h' = h_next h" for t
    using h'(1) by (simp_all add: live_def same_maps_def)
  with assms(3) show "pending_ok h' (xs @ ys)" by (auto simp: pending_ok_def h'(2))
qed

lemma job_step_ok:
  assumes "job_step j h = Some (js, h')" and "race_ok h (js1 @ j # js2)"
  shows "race_ok h' (js1 @ js @ js2)"
proof (cases j)
  case (Sends ss ev)
  then show ?thesis
    using assms send_race_ok by (cases ss) (auto simp: race_ok_def)
next
  case (Closing s l)
  then obtain k where k: "close_chan s h = Some k" "h' = k" "closing_ids js = []"
    using assms(1) by (auto split: if_splits)
  with assms(2) Closing close_race_ok [of s h k "closing_ids js1" "closing_ids js2"] show ?thesis
    by (simp add: race_ok_def)
next
  case (Presence u on)
  then show ?thesis using assms by (auto simp: race_ok_def)
qed

lemma race_reach_ok: "race_reach c \<Longrightarrow> race_ok (r_hub c) (r_jobs c)"
proof (induction rule: race_reach.induct)
  case race_init
  then show ?case by (simp add: race_ok_def NewHub_ok pending_ok_def)
next
  case (race_section c js h')
  then show ?case by (simp add: section_ok)
next
  case (race_job c js1 j js2 js h')
  then show ?case using job_step_ok by simp
qed

section \<open>Properties under concurrency\<close>

text \<open>C31. In every interleaving a channel is closed at most once: the close of \<open>Unsubscribe\<close>, which
  runs outside the mutex, never panics, and the hub's maps keep their invariant. A send can panic
  only for a subscriber that has been unsubscribed since the sender took its snapshot.\<close>

theorem race_close_once:
  assumes "race_reach c"
  shows "hub_ok (r_hub c) \<and>
    (Closing s l \<in> set (r_jobs c) \<longrightarrow> job_step (Closing s l) (r_hub c) \<noteq> None) \<and>
    (send s ev (r_hub c) = None \<longrightarrow> \<not> live (r_hub c) s)"
proof -
  have ok: "hub_ok (r_hub c)" "pending_ok (r_hub c) (closing_ids (r_jobs c))"
    using race_reach_ok [OF assms] by (simp_all add: race_ok_def)
  have "Closing s l \<in> set (r_jobs c) \<Longrightarrow> \<not> ch_closed (h_chans (r_hub c) (Sub_ID s))"
    using ok(2) closing_ids_mem unfolding pending_ok_def by blast
  moreover have "live (r_hub c) s \<Longrightarrow> \<not> ch_closed (h_chans (r_hub c) (Sub_ID s))"
    using ok(1) live_open by (simp add: hub_ok_def)
  ultimately show ?thesis using ok(1) by (auto simp: close_chan_def send_eq Let_def)
qed

text \<open>A run: user 1 subscribes, joins room 7, a publisher snapshots the room, and the user leaves.\<close>

definition race_start :: Race where
  "race_start = \<lparr>r_hub = hub_one, r_jobs = [Presence 1 True]\<rparr>"

definition race_snap :: Race where
  "race_snap = \<lparr>r_hub = snd (unsubscribe_maps hub_sub hub_one),
     r_jobs = [Presence 1 True, Sends [hub_sub] (mk_event room_meta), Closing hub_sub True]\<rparr>"

lemma race_start_reach: "race_reach race_start"
proof -
  let ?h = "snd (subscribe_maps 1 NewHub)"
  have "Subscribe_section 1 NewHub = ([Presence 1 True], ?h)"
    by (simp add: Subscribe_section_def NewHub_def count_at_def)
  then have "race_reach \<lparr>r_hub = ?h, r_jobs = [Presence 1 True]\<rparr>"
    using race_section [OF race_init, of "[Presence 1 True]" ?h] sec_subscribe by simp
  moreover have "live ?h hub_sub"
    by (simp add: subscribe_maps_def live_def NewHub_def hub_sub_def subs_at_def Let_def)
  moreover have "JoinRoom hub_sub 7 ?h = hub_one"
    by (simp add: subscribe_maps_def hub_one_eq JoinRoom_def NewHub_def hub_sub_def subs_at_def count_at_def Let_def)
  ultimately show ?thesis
    using race_section [of "\<lparr>r_hub = ?h, r_jobs = [Presence 1 True]\<rparr>" "[]" hub_one] sec_join [of ?h hub_sub 7]
    by (simp add: race_start_def)
qed

lemma race_snap_reach: "race_reach race_snap"
proof -
  let ?ev = "mk_event room_meta" and ?h = "snd (unsubscribe_maps hub_sub hub_one)"
  have "section_of hub_one [Sends [hub_sub] ?ev] hub_one"
    by (rule sec_room [of 7 ?ev]) (simp add: PublishRoom_section_def hub_one_eq subs_at_def)
  then have "race_reach \<lparr>r_hub = hub_one, r_jobs = [Presence 1 True, Sends [hub_sub] ?ev]\<rparr>"
    using race_section [OF race_start_reach] by (simp add: race_start_def)
  moreover have "section_of hub_one [Closing hub_sub True] ?h"
    by (rule sec_unsubscribe [OF hub_one_live])
       (simp add: Unsubscribe_section_def unsubscribe_maps_def Let_def hub_one_eq count_at_def hub_sub_def)
  ultimately show ?thesis using race_section by (fastforce simp: race_snap_def)
qed

theorem race_close_once_witness: "job_step (Closing hub_sub True) (r_hub race_snap) \<noteq> None"
  using race_close_once [OF race_snap_reach, of hub_sub True "mk_event room_meta"]
  by (simp add: race_snap_def)

text \<open>C37. The sends can panic: a publisher takes its snapshot of the room, the subscriber then
  unsubscribes and its channel is closed, and the publisher sends on the closed channel, which
  panics in the goroutine of the publisher.\<close>

theorem publish_races_with_close:
  "\<exists>c s ss ev. race_reach c \<and> Sends (s # ss) ev \<in> set (r_jobs c) \<and> job_step (Sends (s # ss) ev) (r_hub c) = None"
proof -
  obtain h' where h': "close_chan hub_sub (r_hub race_snap) = Some h'"
    using race_close_once [OF race_snap_reach, of hub_sub True "mk_event room_meta"] by (auto simp: race_snap_def)
  let ?c = "\<lparr>r_hub = h', r_jobs = [Presence 1 True, Sends [hub_sub] (mk_event room_meta), Presence 1 False]\<rparr>"
  have "race_reach ?c"
    using race_job [OF race_snap_reach, of "[Presence 1 True, Sends [hub_sub] (mk_event room_meta)]"
        "Closing hub_sub True" "[]" "[Presence 1 False]" h'] h'
    by (simp add: race_snap_def hub_sub_def)
  moreover have "ch_closed (h_chans h' (Sub_ID hub_sub))"
    using h' by (auto simp: close_chan_def Let_def split: if_splits)
  ultimately show ?thesis
    by (intro exI [of _ ?c] exI [of _ hub_sub] exI [of _ "[]"] exI [of _ "mk_event room_meta"])
       (simp add: send_eq)
qed

end
