(* ===== verification/Schema.thy ===== *)
theory Schema
  imports Domain "HOL-Library.Char_ord" "HOL-Library.List_Lexorder"
begin

text \<open>
  The database of \<^verbatim>\<open>internal/store/migrations/0001_init.sql\<close>: one record type per table, the
  database as the record of its tables (rows in insertion order), and one function per SQL
  statement of the store, with the constraints of the schema: primary keys, UNIQUE (with the
  NOCASE collation where declared), CHECK, foreign keys (the connection turns them on), ON DELETE
  CASCADE and the triggers that keep the full-text index. A statement returns the error that
  SQLite reports or the database after it.

  \<open>world\<close> adds what a store method runs in: the committed database, the open transaction, the
  clock and the faults: any statement may fail in the driver (a busy database, a cancelled
  context, an I/O error), and so may every step to the next row of a query; \<open>w_faults\<close> says, one
  after the other, which ones do.
\<close>

section \<open>Rows\<close>

record user_row =
  u_id :: int
  u_handle :: string
  u_display_name :: string
  u_bio :: string
  u_pronouns :: string
  u_is_admin :: int
  u_is_suspended :: int
  u_created_at :: int
  u_last_seen_at :: "int option"

record key_row =
  k_id :: int
  k_user_id :: int
  k_fingerprint :: string
  k_public_key :: string
  k_label :: string
  k_added_at :: int

record room_row =
  r_id :: int
  r_name :: string
  r_topic :: string
  r_is_private :: int
  r_created_by :: int
  r_created_at :: int
  r_deleted_at :: "int option"

record member_row =
  m_room_id :: int
  m_user_id :: int
  m_role :: string
  m_joined_at :: int

record ban_row =
  b_room_id :: int
  b_user_id :: int
  b_banned_by :: int
  b_reason :: string
  b_banned_at :: int

record msg_row =
  g_id :: int
  g_kind :: string
  g_room_id :: "int option"
  g_peer_a :: "int option"
  g_peer_b :: "int option"
  g_author_id :: int
  g_body :: string
  g_created_at :: int
  g_deleted_at :: "int option"
  g_deleted_by :: "int option"

record block_row =
  l_user_id :: int
  l_blocked_id :: int
  l_created_at :: int

record notif_row =
  n_id :: int
  n_user_id :: int
  n_kind :: string
  n_message_id :: "int option"
  n_room_id :: "int option"
  n_created_at :: int
  n_read_at :: "int option"

record report_row =
  p_id :: int
  p_reporter_id :: int
  p_target_kind :: string
  p_target_id :: int
  p_reason :: string
  p_created_at :: int

record database =
  users :: "user_row list"
  user_keys :: "key_row list"
  rooms :: "room_row list"
  room_members :: "member_row list"
  room_bans :: "ban_row list"
  messages :: "msg_row list"
  mentions :: "(int \<times> int) list"
  blocks :: "block_row list"
  notifications :: "notif_row list"
  reports :: "report_row list"
  messages_fts :: "(int \<times> string) list"

definition empty_db :: database where
  "empty_db = \<lparr>users = [], user_keys = [], rooms = [], room_members = [], room_bans = [], messages = [],
     mentions = [], blocks = [], notifications = [], reports = [], messages_fts = []\<rparr>"

section \<open>Errors, statements and SQL expressions\<close>

datatype db_error =
  ErrNoRows
| ErrDriver
| ErrUnique
| ErrForeignKey
| ErrCheck
| ErrMsg string

type_synonym 'a stmt = "database \<Rightarrow> db_error + ('a \<times> database)"

text \<open>The NOCASE collation folds the 26 ASCII capitals.\<close>

definition ascii_lower :: "char \<Rightarrow> char" where
  "ascii_lower c = (if 65 \<le> (of_char c :: nat) \<and> (of_char c :: nat) \<le> 90 then char_of ((of_char c :: nat) + 32) else c)"

definition nocase :: "string \<Rightarrow> string" where
  "nocase = map ascii_lower"

text \<open>The rowid SQLite gives to an INTEGER PRIMARY KEY: one more than the largest in use.\<close>

definition next_id :: "int list \<Rightarrow> int" where
  "next_id ids = (if ids = [] then 1 else Max (set ids) + 1)"

text \<open>\<^verbatim>\<open>LIMIT ?\<close>: a negative limit is none.\<close>

definition limited :: "int \<Rightarrow> 'a list \<Rightarrow> 'a list" where
  "limited n xs = (if n < 0 then xs else take (nat n) xs)"

text \<open>\<^verbatim>\<open>ORDER BY key DESC\<close>.\<close>

definition order_desc :: "('a \<Rightarrow> 'k::linorder) \<Rightarrow> 'a list \<Rightarrow> 'a list" where
  "order_desc f xs = rev (sort_key f xs)"

definition sql_bool :: "bool \<Rightarrow> int" where
  "sql_bool b = (if b then 1 else 0)"

definition user_exists :: "database \<Rightarrow> int \<Rightarrow> bool" where
  "user_exists d i \<longleftrightarrow> i \<in> u_id ` set (users d)"

definition room_exists :: "database \<Rightarrow> int \<Rightarrow> bool" where
  "room_exists d i \<longleftrightarrow> i \<in> r_id ` set (rooms d)"

definition message_exists :: "database \<Rightarrow> int \<Rightarrow> bool" where
  "message_exists d i \<longleftrightarrow> i \<in> g_id ` set (messages d)"

text \<open>A nullable foreign key.\<close>

definition null_or :: "('a \<Rightarrow> bool) \<Rightarrow> 'a option \<Rightarrow> bool" where
  "null_or P x = (case x of None \<Rightarrow> True | Some i \<Rightarrow> P i)"

lemma null_or_simps [simp]: "null_or P None" "null_or P (Some i) = P i"
  by (simp_all add: null_or_def)

section \<open>Statements on users and keys\<close>

definition insert_user :: "string \<Rightarrow> int \<Rightarrow> int stmt" where
  "insert_user handle now d =
     (if nocase handle \<in> (nocase \<circ> u_handle) ` set (users d) then Inl ErrUnique
      else let i = next_id (map u_id (users d)) in
        Inr (i, d\<lparr>users := users d @ [\<lparr>u_id = i, u_handle = handle, u_display_name = [], u_bio = [],
          u_pronouns = [], u_is_admin = 0, u_is_suspended = 0, u_created_at = now,
          u_last_seen_at = None\<rparr>]\<rparr>))"

definition insert_key :: "int \<Rightarrow> string \<Rightarrow> string \<Rightarrow> string \<Rightarrow> int \<Rightarrow> int stmt" where
  "insert_key uid fp pub label now d =
     (if fp \<in> k_fingerprint ` set (user_keys d) then Inl ErrUnique
      else if \<not> user_exists d uid then Inl ErrForeignKey
      else let i = next_id (map k_id (user_keys d)) in
        Inr (i, d\<lparr>user_keys := user_keys d @ [\<lparr>k_id = i, k_user_id = uid, k_fingerprint = fp,
          k_public_key = pub, k_label = label, k_added_at = now\<rparr>]\<rparr>))"

text \<open>\<^verbatim>\<open>UPDATE users SET ... WHERE ...\<close>, for columns under no constraint; the result is the
  number of rows affected.\<close>

definition update_users :: "(user_row \<Rightarrow> bool) \<Rightarrow> (user_row \<Rightarrow> user_row) \<Rightarrow> int stmt" where
  "update_users P f d =
     Inr (int (length (filter P (users d))), d\<lparr>users := map (\<lambda>u. if P u then f u else u) (users d)\<rparr>)"

section \<open>Statements on rooms, members and bans\<close>

definition insert_room :: "string \<Rightarrow> int \<Rightarrow> int \<Rightarrow> int \<Rightarrow> int stmt" where
  "insert_room name priv owner now d =
     (if nocase name \<in> (nocase \<circ> r_name) ` set (rooms d) then Inl ErrUnique
      else if \<not> user_exists d owner then Inl ErrForeignKey
      else let i = next_id (map r_id (rooms d)) in
        Inr (i, d\<lparr>rooms := rooms d @ [\<lparr>r_id = i, r_name = name, r_topic = [], r_is_private = priv,
          r_created_by = owner, r_created_at = now, r_deleted_at = None\<rparr>]\<rparr>))"

definition update_rooms :: "(room_row \<Rightarrow> bool) \<Rightarrow> (room_row \<Rightarrow> room_row) \<Rightarrow> int stmt" where
  "update_rooms P f d =
     Inr (int (length (filter P (rooms d))), d\<lparr>rooms := map (\<lambda>r. if P r then f r else r) (rooms d)\<rparr>)"

definition role_check :: "string \<Rightarrow> bool" where
  "role_check r \<longleftrightarrow> r = ''owner'' \<or> r = ''moderator'' \<or> r = ''member''"

definition member_key :: "member_row \<Rightarrow> int \<times> int" where
  "member_key m = (m_room_id m, m_user_id m)"

definition insert_member :: "int \<Rightarrow> int \<Rightarrow> string \<Rightarrow> int \<Rightarrow> unit stmt" where
  "insert_member rid uid role now d =
     (if \<not> role_check role then Inl ErrCheck
      else if (rid, uid) \<in> member_key ` set (room_members d) then Inl ErrUnique
      else if \<not> (room_exists d rid \<and> user_exists d uid) then Inl ErrForeignKey
      else Inr ((), d\<lparr>room_members := room_members d @
        [\<lparr>m_room_id = rid, m_user_id = uid, m_role = role, m_joined_at = now\<rparr>]\<rparr>))"

text \<open>\<^verbatim>\<open>INSERT OR IGNORE\<close> skips a duplicate key; a foreign key is still enforced.\<close>

definition insert_member_or_ignore :: "int \<Rightarrow> int \<Rightarrow> string \<Rightarrow> int \<Rightarrow> unit stmt" where
  "insert_member_or_ignore rid uid role now d =
     (if (rid, uid) \<in> member_key ` set (room_members d) then Inr ((), d)
      else insert_member rid uid role now d)"

definition delete_member :: "int \<Rightarrow> int \<Rightarrow> unit stmt" where
  "delete_member rid uid d =
     Inr ((), d\<lparr>room_members := filter (\<lambda>m. member_key m \<noteq> (rid, uid)) (room_members d)\<rparr>)"

definition update_role :: "string \<Rightarrow> int \<Rightarrow> int \<Rightarrow> unit stmt" where
  "update_role role rid uid d =
     (if (rid, uid) \<in> member_key ` set (room_members d) \<and> \<not> role_check role then Inl ErrCheck
      else Inr ((), d\<lparr>room_members :=
        map (\<lambda>m. if member_key m = (rid, uid) then m\<lparr>m_role := role\<rparr> else m) (room_members d)\<rparr>))"

definition ban_key :: "ban_row \<Rightarrow> int \<times> int" where
  "ban_key b = (b_room_id b, b_user_id b)"

definition replace_ban :: "int \<Rightarrow> int \<Rightarrow> int \<Rightarrow> string \<Rightarrow> int \<Rightarrow> unit stmt" where
  "replace_ban rid uid by_user reason now d =
     (if \<not> (room_exists d rid \<and> user_exists d uid \<and> user_exists d by_user) then Inl ErrForeignKey
      else Inr ((), d\<lparr>room_bans := filter (\<lambda>b. ban_key b \<noteq> (rid, uid)) (room_bans d) @
        [\<lparr>b_room_id = rid, b_user_id = uid, b_banned_by = by_user, b_reason = reason, b_banned_at = now\<rparr>]\<rparr>))"

section \<open>Statements on messages, with the triggers of the full-text index\<close>

definition insert_message :: "string \<Rightarrow> int option \<Rightarrow> int option \<Rightarrow> int option \<Rightarrow> int \<Rightarrow> string \<Rightarrow> int \<Rightarrow> int stmt" where
  "insert_message kind rid a b author body now d =
     (if \<not> (kind = ''room'' \<or> kind = ''dm'') then Inl ErrCheck
      else if \<not> (null_or (room_exists d) rid \<and> null_or (user_exists d) a \<and> null_or (user_exists d) b
                 \<and> user_exists d author) then Inl ErrForeignKey
      else let i = next_id (map g_id (messages d)) in
        Inr (i, d\<lparr>messages := messages d @ [\<lparr>g_id = i, g_kind = kind, g_room_id = rid, g_peer_a = a,
            g_peer_b = b, g_author_id = author, g_body = body, g_created_at = now,
            g_deleted_at = None, g_deleted_by = None\<rparr>],
          messages_fts := messages_fts d @ [(i, body)]\<rparr>))"

text \<open>The soft delete of a message not deleted yet; the update trigger takes the row out of the
  index and puts it back with its (unchanged) body.\<close>

definition soft_delete_message :: "int \<Rightarrow> int \<Rightarrow> int \<Rightarrow> int stmt" where
  "soft_delete_message now by_user mid d =
     (let hit = (\<lambda>g. g_id g = mid \<and> g_deleted_at g = None);
          hits = filter hit (messages d)
      in if hits \<noteq> [] \<and> \<not> user_exists d by_user then Inl ErrForeignKey
         else Inr (int (length hits),
           d\<lparr>messages := map (\<lambda>g. if hit g then g\<lparr>g_deleted_at := Some now, g_deleted_by := Some by_user\<rparr> else g)
                          (messages d),
             messages_fts := filter (\<lambda>e. e \<notin> (\<lambda>g. (g_id g, g_body g)) ` set hits) (messages_fts d)
                             @ map (\<lambda>g. (g_id g, g_body g)) hits\<rparr>))"

text \<open>The purge deletes rows; mentions and notifications of them go by cascade, reports have no
  foreign key on their target.\<close>

definition purge_messages :: "int \<Rightarrow> int stmt" where
  "purge_messages cutoff d =
     (let hit = (\<lambda>g. case g_deleted_at g of None \<Rightarrow> False | Some t \<Rightarrow> t < cutoff);
          hits = filter hit (messages d);
          ids = g_id ` set hits
      in Inr (int (length hits),
           d\<lparr>messages := filter (\<lambda>g. \<not> hit g) (messages d),
             mentions := filter (\<lambda>(m, u). m \<notin> ids) (mentions d),
             notifications := filter (\<lambda>n. \<not> (case n_message_id n of None \<Rightarrow> False | Some m \<Rightarrow> m \<in> ids)) (notifications d),
             messages_fts := filter (\<lambda>e. e \<notin> (\<lambda>g. (g_id g, g_body g)) ` set hits) (messages_fts d)\<rparr>))"

definition insert_mention_or_ignore :: "int \<Rightarrow> int \<Rightarrow> unit stmt" where
  "insert_mention_or_ignore mid uid d =
     (if (mid, uid) \<in> set (mentions d) then Inr ((), d)
      else if \<not> (message_exists d mid \<and> user_exists d uid) then Inl ErrForeignKey
      else Inr ((), d\<lparr>mentions := mentions d @ [(mid, uid)]\<rparr>))"

section \<open>Statements on notifications, blocks and reports\<close>

definition insert_notification :: "int \<Rightarrow> string \<Rightarrow> int option \<Rightarrow> int option \<Rightarrow> int \<Rightarrow> int stmt" where
  "insert_notification uid kind mid rid now d =
     (if \<not> (kind = ''mention'' \<or> kind = ''dm'' \<or> kind = ''invite'') then Inl ErrCheck
      else if \<not> (user_exists d uid \<and> null_or (message_exists d) mid \<and> null_or (room_exists d) rid)
      then Inl ErrForeignKey
      else let i = next_id (map n_id (notifications d)) in
        Inr (i, d\<lparr>notifications := notifications d @ [\<lparr>n_id = i, n_user_id = uid, n_kind = kind,
          n_message_id = mid, n_room_id = rid, n_created_at = now, n_read_at = None\<rparr>]\<rparr>))"

definition update_notifications :: "(notif_row \<Rightarrow> bool) \<Rightarrow> int \<Rightarrow> unit stmt" where
  "update_notifications P now d =
     Inr ((), d\<lparr>notifications := map (\<lambda>n. if P n then n\<lparr>n_read_at := Some now\<rparr> else n) (notifications d)\<rparr>)"

definition block_key :: "block_row \<Rightarrow> int \<times> int" where
  "block_key l = (l_user_id l, l_blocked_id l)"

definition insert_block_or_ignore :: "int \<Rightarrow> int \<Rightarrow> int \<Rightarrow> unit stmt" where
  "insert_block_or_ignore by_user target now d =
     (if (by_user, target) \<in> block_key ` set (blocks d) then Inr ((), d)
      else if \<not> (user_exists d by_user \<and> user_exists d target) then Inl ErrForeignKey
      else Inr ((), d\<lparr>blocks := blocks d @ [\<lparr>l_user_id = by_user, l_blocked_id = target, l_created_at = now\<rparr>]\<rparr>))"

definition delete_block :: "int \<Rightarrow> int \<Rightarrow> unit stmt" where
  "delete_block by_user target d =
     Inr ((), d\<lparr>blocks := filter (\<lambda>l. block_key l \<noteq> (by_user, target)) (blocks d)\<rparr>)"

definition insert_report :: "int \<Rightarrow> string \<Rightarrow> int \<Rightarrow> string \<Rightarrow> int \<Rightarrow> int stmt" where
  "insert_report reporter kind target reason now d =
     (if \<not> (kind = ''message'' \<or> kind = ''user'') then Inl ErrCheck
      else if \<not> user_exists d reporter then Inl ErrForeignKey
      else let i = next_id (map p_id (reports d)) in
        Inr (i, d\<lparr>reports := reports d @ [\<lparr>p_id = i, p_reporter_id = reporter, p_target_kind = kind,
          p_target_id = target, p_reason = reason, p_created_at = now\<rparr>]\<rparr>))"

section \<open>Running statements\<close>

record world =
  w_db :: database
  w_tx :: "database option"
  w_clock :: int
  w_faults :: "bool list"

type_synonym 'a io = "(world, db_error, 'a) act"

text \<open>Each statement and each step to the next row uses up one entry of the fault schedule; when it is
  used up, none fails.\<close>

definition driver :: "unit io" where
  "driver = (\<lambda>w. case w_faults w of [] \<Rightarrow> (Inr (), w)
     | f # fs \<Rightarrow> (if f then Inl ErrDriver else Inr (), w\<lparr>w_faults := fs\<rparr>))"

definition now_unix :: "int io" where
  "now_unix = (\<lambda>w. (Inr (w_clock w), w))"

text \<open>Reads and writes through \<open>s.db\<close>, outside any transaction.\<close>

definition query :: "(database \<Rightarrow> 'a) \<Rightarrow> 'a io" where
  "query f = seq_act driver (\<lambda>_. \<lambda>w. (Inr (f (w_db w)), w))"

definition query_row :: "(database \<Rightarrow> 'a option) \<Rightarrow> 'a io" where
  "query_row f = seq_act (query f) (\<lambda>r. case r of None \<Rightarrow> fail ErrNoRows | Some a \<Rightarrow> ok a)"

text \<open>
  The loop over the rows of a query: \<^verbatim>\<open>for rows.Next()\<close> can fail at every row, and the method then
  returns the rows it has so far together with \<^verbatim>\<open>rows.Err()\<close>; a row that does not scan returns no
  rows and the error.
\<close>

type_synonym 'a paged = "'a \<times> db_error option"

fun scan_rows :: "('r \<Rightarrow> 'a option) \<Rightarrow> 'a list \<Rightarrow> 'r list \<Rightarrow> 'a list paged io" where
  "scan_rows scan out [] =
     seq_act (attempt driver) (\<lambda>more. case more of Inl e \<Rightarrow> ok (out, Some e) | Inr _ \<Rightarrow> ok (out, None))"
| "scan_rows scan out (row # rows) =
     seq_act (attempt driver) (\<lambda>more.
     case more of
       Inl e \<Rightarrow> ok (out, Some e)
     | Inr _ \<Rightarrow> (case scan row of
         None \<Rightarrow> ok ([], Some ErrDriver)
       | Some a \<Rightarrow> scan_rows scan (out @ [a]) rows))"

text \<open>What the callers make of it: \<open>checked\<close> where they look at the error, \<open>kept\<close> where they discard it.\<close>

fun checked :: "db_error + 'a paged \<Rightarrow> db_error + 'a" where
  "checked (Inl e) = Inl e"
| "checked (Inr (a, None)) = Inr a"
| "checked (Inr (a, Some e)) = Inl e"

fun kept :: "'a \<Rightarrow> db_error + 'a paged \<Rightarrow> 'a" where
  "kept none (Inl e) = none"
| "kept none (Inr (a, e)) = a"

definition exec_stmt :: "'a stmt \<Rightarrow> 'a io" where
  "exec_stmt st = seq_act driver (\<lambda>_. \<lambda>w.
     case st (w_db w) of Inl e \<Rightarrow> (Inl e, w) | Inr (a, d) \<Rightarrow> (Inr a, w\<lparr>w_db := d\<rparr>))"

text \<open>A transaction works on its own copy; \<open>Commit\<close> installs it and the deferred \<open>Rollback\<close>
  drops it on every way out of the method.\<close>

definition begin_tx :: "unit io" where
  "begin_tx = seq_act driver (\<lambda>_. \<lambda>w. (Inr (), w\<lparr>w_tx := Some (w_db w)\<rparr>))"

definition tx_exec :: "'a stmt \<Rightarrow> 'a io" where
  "tx_exec st = seq_act driver (\<lambda>_. \<lambda>w.
     case w_tx w of
       None \<Rightarrow> (Inl ErrDriver, w)
     | Some t \<Rightarrow> (case st t of Inl e \<Rightarrow> (Inl e, w) | Inr (a, d) \<Rightarrow> (Inr a, w\<lparr>w_tx := Some d\<rparr>)))"

definition commit_tx :: "unit io" where
  "commit_tx = seq_act driver (\<lambda>_. \<lambda>w.
     case w_tx w of None \<Rightarrow> (Inl ErrDriver, w) | Some t \<Rightarrow> (Inr (), w\<lparr>w_db := t, w_tx := None\<rparr>))"

definition with_rollback :: "'a io \<Rightarrow> 'a io" where
  "with_rollback m = (\<lambda>w. case m w of (r, w') \<Rightarrow> (r, w'\<lparr>w_tx := None\<rparr>))"

definition in_tx :: "'a io \<Rightarrow> 'a io" where
  "in_tx m = seq_act begin_tx (\<lambda>_. with_rollback m)"

text \<open>A slice loop that stops at the first error.\<close>

fun for_each :: "('x \<Rightarrow> 'a io) \<Rightarrow> 'x list \<Rightarrow> 'a list io" where
  "for_each f [] = ok []"
| "for_each f (x # xs) = seq_act (f x) (\<lambda>a. seq_act (for_each f xs) (\<lambda>as. ok (a # as)))"

end
