(* ===== verification/SchemaInv.thy ===== *)
theory SchemaInv
  imports Schema
begin

text \<open>
  What the schema guarantees: \<open>db_ok\<close> is the conjunction of its constraints (increasing rowids,
  uniqueness, foreign keys, CHECKs, and the full-text index in step with the messages). Every
  statement of the store keeps it, and so does every action built from statements, transactions
  and error branches, under any fault schedule.
\<close>

section \<open>Row identifiers\<close>

definition serial :: "int list \<Rightarrow> bool" where
  "serial ids \<longleftrightarrow> sorted_wrt (<) ids \<and> (\<forall>i \<in> set ids. 0 < i)"

lemma serial_Nil [simp]: "serial []"
  by (simp add: serial_def)

lemma next_id_greater: "i \<in> set ids \<Longrightarrow> i < next_id ids"
proof -
  assume i: "i \<in> set ids"
  then have "i \<le> Max (set ids)" by simp
  with i show ?thesis by (auto simp: next_id_def)
qed

lemma next_id_fresh [simp]: "next_id ids \<notin> set ids"
  using next_id_greater by blast

lemma next_id_fresh_image [simp]: "next_id (map f xs) \<notin> f ` set xs"
  using next_id_fresh [of "map f xs"] by simp

lemma next_id_pos:
  assumes "serial ids"
  shows "0 < next_id ids"
proof (cases ids)
  case Nil
  then show ?thesis by (simp add: next_id_def)
next
  case (Cons i js)
  with assms have "0 < i" by (simp add: serial_def)
  also have "i < next_id ids" using Cons by (intro next_id_greater) simp
  finally show ?thesis .
qed

lemma serial_snoc: "serial ids \<Longrightarrow> serial (ids @ [next_id ids])"
  using next_id_pos next_id_greater by (auto simp: serial_def sorted_wrt_append)

lemma serial_filter: "serial (map f xs) \<Longrightarrow> serial (map f (filter P xs))"
  by (induction xs) (auto simp: serial_def)

lemma serial_distinct: "serial ids \<Longrightarrow> distinct ids"
  by (simp add: serial_def strict_sorted_iff)

lemma serial_sort: "serial (map f xs) \<Longrightarrow> sort_key f xs = xs"
  by (simp add: serial_def strict_sorted_iff sort_key_id_if_sorted)

section \<open>The constraints\<close>

definition ids_ok :: "database \<Rightarrow> bool" where
  "ids_ok d \<longleftrightarrow> serial (map u_id (users d)) \<and> serial (map k_id (user_keys d)) \<and> serial (map r_id (rooms d))
     \<and> serial (map g_id (messages d)) \<and> serial (map n_id (notifications d)) \<and> serial (map p_id (reports d))"

definition unique_ok :: "database \<Rightarrow> bool" where
  "unique_ok d \<longleftrightarrow> distinct (map (nocase \<circ> u_handle) (users d)) \<and> distinct (map k_fingerprint (user_keys d))
     \<and> distinct (map (nocase \<circ> r_name) (rooms d)) \<and> distinct (map member_key (room_members d))
     \<and> distinct (map ban_key (room_bans d)) \<and> distinct (mentions d) \<and> distinct (map block_key (blocks d))"

text \<open>What the foreign keys and CHECKs ask of a row.\<close>

definition key_fk :: "database \<Rightarrow> key_row \<Rightarrow> bool" where
  "key_fk d k \<longleftrightarrow> user_exists d (k_user_id k)"

definition room_fk :: "database \<Rightarrow> room_row \<Rightarrow> bool" where
  "room_fk d r \<longleftrightarrow> user_exists d (r_created_by r)"

definition member_fk :: "database \<Rightarrow> member_row \<Rightarrow> bool" where
  "member_fk d m \<longleftrightarrow> room_exists d (m_room_id m) \<and> user_exists d (m_user_id m) \<and> role_check (m_role m)"

definition ban_fk :: "database \<Rightarrow> ban_row \<Rightarrow> bool" where
  "ban_fk d b \<longleftrightarrow> room_exists d (b_room_id b) \<and> user_exists d (b_user_id b) \<and> user_exists d (b_banned_by b)"

definition msg_fk :: "database \<Rightarrow> msg_row \<Rightarrow> bool" where
  "msg_fk d g \<longleftrightarrow> user_exists d (g_author_id g) \<and> null_or (room_exists d) (g_room_id g) \<and>
     null_or (user_exists d) (g_peer_a g) \<and> null_or (user_exists d) (g_peer_b g) \<and>
     null_or (user_exists d) (g_deleted_by g) \<and> (g_kind g = ''room'' \<or> g_kind g = ''dm'')"

definition mention_fk :: "database \<Rightarrow> int \<times> int \<Rightarrow> bool" where
  "mention_fk d mu \<longleftrightarrow> message_exists d (fst mu) \<and> user_exists d (snd mu)"

definition block_fk :: "database \<Rightarrow> block_row \<Rightarrow> bool" where
  "block_fk d l \<longleftrightarrow> user_exists d (l_user_id l) \<and> user_exists d (l_blocked_id l)"

definition notif_fk :: "database \<Rightarrow> notif_row \<Rightarrow> bool" where
  "notif_fk d n \<longleftrightarrow> user_exists d (n_user_id n) \<and> null_or (message_exists d) (n_message_id n) \<and>
     null_or (room_exists d) (n_room_id n)"

definition report_fk :: "database \<Rightarrow> report_row \<Rightarrow> bool" where
  "report_fk d p \<longleftrightarrow> user_exists d (p_reporter_id p)"

lemmas fk_defs = key_fk_def room_fk_def member_fk_def ban_fk_def msg_fk_def mention_fk_def block_fk_def
  notif_fk_def report_fk_def

definition fk_ok :: "database \<Rightarrow> bool" where
  "fk_ok d \<longleftrightarrow>
     (\<forall>k \<in> set (user_keys d). key_fk d k) \<and> (\<forall>r \<in> set (rooms d). room_fk d r) \<and>
     (\<forall>m \<in> set (room_members d). member_fk d m) \<and> (\<forall>b \<in> set (room_bans d). ban_fk d b) \<and>
     (\<forall>g \<in> set (messages d). msg_fk d g) \<and> (\<forall>mu \<in> set (mentions d). mention_fk d mu) \<and>
     (\<forall>l \<in> set (blocks d). block_fk d l) \<and> (\<forall>n \<in> set (notifications d). notif_fk d n) \<and>
     (\<forall>p \<in> set (reports d). report_fk d p)"

definition fts_ok :: "database \<Rightarrow> bool" where
  "fts_ok d \<longleftrightarrow> distinct (messages_fts d) \<and> set (messages_fts d) = (\<lambda>g. (g_id g, g_body g)) ` set (messages d)"

definition db_ok :: "database \<Rightarrow> bool" where
  "db_ok d \<longleftrightarrow> ids_ok d \<and> unique_ok d \<and> fk_ok d \<and> fts_ok d"

lemmas db_ok_defs = db_ok_def ids_ok_def unique_ok_def fk_ok_def fts_ok_def
lemmas exists_defs = user_exists_def room_exists_def message_exists_def

definition stmt_keeps :: "(database \<Rightarrow> bool) \<Rightarrow> 'a stmt \<Rightarrow> bool" where
  "stmt_keeps I st \<longleftrightarrow> (\<forall>d a d'. I d \<longrightarrow> st d = Inr (a, d') \<longrightarrow> I d')"

lemma stmt_keepsI: "(\<And>d a d'. I d \<Longrightarrow> st d = Inr (a, d') \<Longrightarrow> I d') \<Longrightarrow> stmt_keeps I st"
  by (simp add: stmt_keeps_def)

lemma stmt_keepsD: "stmt_keeps I st \<Longrightarrow> I d \<Longrightarrow> st d = Inr (a, d') \<Longrightarrow> I d'"
  by (simp add: stmt_keeps_def)

named_theorems stmt_intros \<open>statements keep the schema\<close>

section \<open>Foreign keys survive when no parent goes away\<close>

definition parents_stay :: "database \<Rightarrow> database \<Rightarrow> bool" where
  "parents_stay d d' \<longleftrightarrow> (\<forall>i. user_exists d i \<longrightarrow> user_exists d' i) \<and> (\<forall>i. room_exists d i \<longrightarrow> room_exists d' i) \<and>
     (\<forall>i. message_exists d i \<longrightarrow> message_exists d' i)"

lemma null_or_mono: "null_or P x \<Longrightarrow> (\<And>i. P i \<Longrightarrow> Q i) \<Longrightarrow> null_or Q x"
  by (cases x) simp_all

text \<open>Writing another table leaves the parents of a foreign key alone.\<close>

lemma exists_frame [simp]:
  "user_exists (d\<lparr>user_keys := v1\<rparr>) = user_exists d"
  "user_exists (d\<lparr>rooms := v2\<rparr>) = user_exists d"
  "user_exists (d\<lparr>room_members := v3\<rparr>) = user_exists d"
  "user_exists (d\<lparr>room_bans := v4\<rparr>) = user_exists d"
  "user_exists (d\<lparr>messages := v5\<rparr>) = user_exists d"
  "user_exists (d\<lparr>mentions := v6\<rparr>) = user_exists d"
  "user_exists (d\<lparr>blocks := v7\<rparr>) = user_exists d"
  "user_exists (d\<lparr>notifications := v8\<rparr>) = user_exists d"
  "user_exists (d\<lparr>reports := v9\<rparr>) = user_exists d"
  "user_exists (d\<lparr>messages_fts := v10\<rparr>) = user_exists d"
  "room_exists (d\<lparr>users := v0\<rparr>) = room_exists d"
  "room_exists (d\<lparr>user_keys := v1\<rparr>) = room_exists d"
  "room_exists (d\<lparr>room_members := v3\<rparr>) = room_exists d"
  "room_exists (d\<lparr>room_bans := v4\<rparr>) = room_exists d"
  "room_exists (d\<lparr>messages := v5\<rparr>) = room_exists d"
  "room_exists (d\<lparr>mentions := v6\<rparr>) = room_exists d"
  "room_exists (d\<lparr>blocks := v7\<rparr>) = room_exists d"
  "room_exists (d\<lparr>notifications := v8\<rparr>) = room_exists d"
  "room_exists (d\<lparr>reports := v9\<rparr>) = room_exists d"
  "room_exists (d\<lparr>messages_fts := v10\<rparr>) = room_exists d"
  "message_exists (d\<lparr>users := v0\<rparr>) = message_exists d"
  "message_exists (d\<lparr>user_keys := v1\<rparr>) = message_exists d"
  "message_exists (d\<lparr>rooms := v2\<rparr>) = message_exists d"
  "message_exists (d\<lparr>room_members := v3\<rparr>) = message_exists d"
  "message_exists (d\<lparr>room_bans := v4\<rparr>) = message_exists d"
  "message_exists (d\<lparr>mentions := v6\<rparr>) = message_exists d"
  "message_exists (d\<lparr>blocks := v7\<rparr>) = message_exists d"
  "message_exists (d\<lparr>notifications := v8\<rparr>) = message_exists d"
  "message_exists (d\<lparr>reports := v9\<rparr>) = message_exists d"
  "message_exists (d\<lparr>messages_fts := v10\<rparr>) = message_exists d"
  by (simp_all add: exists_defs fun_eq_iff)

lemma fk_mono:
  assumes "parents_stay d d'"
  shows "key_fk d k \<Longrightarrow> key_fk d' k" and "room_fk d r \<Longrightarrow> room_fk d' r" and "member_fk d m \<Longrightarrow> member_fk d' m"
    and "ban_fk d b \<Longrightarrow> ban_fk d' b" and "msg_fk d g \<Longrightarrow> msg_fk d' g" and "mention_fk d mu \<Longrightarrow> mention_fk d' mu"
    and "block_fk d l \<Longrightarrow> block_fk d' l" and "notif_fk d n \<Longrightarrow> notif_fk d' n" and "report_fk d p \<Longrightarrow> report_fk d' p"
  using assms null_or_mono [of "user_exists d" _ "user_exists d'"] null_or_mono [of "room_exists d" _ "room_exists d'"]
    null_or_mono [of "message_exists d" _ "message_exists d'"]
  unfolding fk_defs parents_stay_def by blast+

lemma fk_okI:
  assumes "fk_ok d" and "parents_stay d d'"
    and "\<And>k. k \<in> set (user_keys d') \<Longrightarrow> k \<in> set (user_keys d) \<or> key_fk d' k"
    and "\<And>r. r \<in> set (rooms d') \<Longrightarrow> r \<in> set (rooms d) \<or> room_fk d' r"
    and "\<And>m. m \<in> set (room_members d') \<Longrightarrow> m \<in> set (room_members d) \<or> member_fk d' m"
    and "\<And>b. b \<in> set (room_bans d') \<Longrightarrow> b \<in> set (room_bans d) \<or> ban_fk d' b"
    and "\<And>g. g \<in> set (messages d') \<Longrightarrow> g \<in> set (messages d) \<or> msg_fk d' g"
    and "\<And>mu. mu \<in> set (mentions d') \<Longrightarrow> mu \<in> set (mentions d) \<or> mention_fk d' mu"
    and "\<And>l. l \<in> set (blocks d') \<Longrightarrow> l \<in> set (blocks d) \<or> block_fk d' l"
    and "\<And>n. n \<in> set (notifications d') \<Longrightarrow> n \<in> set (notifications d) \<or> notif_fk d' n"
    and "\<And>p. p \<in> set (reports d') \<Longrightarrow> p \<in> set (reports d) \<or> report_fk d' p"
  shows "fk_ok d'"
  using assms fk_mono [OF assms(2)] unfolding fk_ok_def by meson

section \<open>Every statement keeps the constraints\<close>

lemma row_keys [simp]:
  "member_key \<lparr>m_room_id = r, m_user_id = u, m_role = ro, m_joined_at = t\<rparr> = (r, u)"
  "ban_key \<lparr>b_room_id = r, b_user_id = u, b_banned_by = by_user, b_reason = why, b_banned_at = t\<rparr> = (r, u)"
  "block_key \<lparr>l_user_id = u, l_blocked_id = v, l_created_at = t\<rparr> = (u, v)"
  by (simp_all add: member_key_def ban_key_def block_key_def)

lemma insert_user_keeps [stmt_intros]: "stmt_keeps db_ok (insert_user h now)"
proof (rule stmt_keepsI)
  fix d a d' assume d: "db_ok d" "insert_user h now d = Inr (a, d')"
  have "fk_ok d'"
    by (rule fk_okI [of d]) (use d in \<open>auto simp: insert_user_def Let_def db_ok_def parents_stay_def exists_defs split: if_splits\<close>)
  with d show "db_ok d'"
    by (auto simp: insert_user_def Let_def db_ok_def ids_ok_def unique_ok_def fts_ok_def serial_snoc split: if_splits)
qed

lemma insert_key_keeps [stmt_intros]: "stmt_keeps db_ok (insert_key uid fp pub label now)"
proof (rule stmt_keepsI)
  fix d a d' assume d: "db_ok d" "insert_key uid fp pub label now d = Inr (a, d')"
  have "fk_ok d'"
    by (rule fk_okI [of d])
       (use d in \<open>auto simp: insert_key_def Let_def db_ok_def parents_stay_def key_fk_def split: if_splits\<close>)
  with d show "db_ok d'"
    by (auto simp: insert_key_def Let_def db_ok_def ids_ok_def unique_ok_def fts_ok_def serial_snoc split: if_splits)
qed

text \<open>An UPDATE of columns under no constraint.\<close>

lemma update_users_keeps [stmt_intros]:
  assumes "\<And>u. u_id (f u) = u_id u" and "\<And>u. u_handle (f u) = u_handle u"
  shows "stmt_keeps db_ok (update_users P f)"
proof (rule stmt_keepsI)
  fix d a d' assume d: "db_ok d" "update_users P f d = Inr (a, d')"
  then have d': "d' = d\<lparr>users := map (\<lambda>u. if P u then f u else u) (users d)\<rparr>" by (simp add: update_users_def)
  have cols: "map u_id (users d') = map u_id (users d)"
    "map (nocase \<circ> u_handle) (users d') = map (nocase \<circ> u_handle) (users d)"
    unfolding d' by (simp_all add: assms)
  have fns: "u_id \<circ> (\<lambda>u. if P u then f u else u) = u_id"
    "nocase \<circ> u_handle \<circ> (\<lambda>u. if P u then f u else u) = nocase \<circ> u_handle"
    by (simp_all add: fun_eq_iff assms)
  have ex: "user_exists d' = user_exists d"
    unfolding user_exists_def set_map [symmetric] cols ..
  have "fk_ok d'"
    by (rule fk_okI [of d]) (use d(1) ex in \<open>auto simp: d' db_ok_def parents_stay_def room_exists_def message_exists_def\<close>)
  with d(1) show "db_ok d'" by (simp add: d' fns db_ok_def ids_ok_def unique_ok_def fts_ok_def)
qed

lemma insert_room_keeps [stmt_intros]: "stmt_keeps db_ok (insert_room name priv owner now)"
proof (rule stmt_keepsI)
  fix d a d' assume d: "db_ok d" "insert_room name priv owner now d = Inr (a, d')"
  have "fk_ok d'"
    by (rule fk_okI [of d])
       (use d in \<open>auto simp: insert_room_def Let_def db_ok_def parents_stay_def exists_defs room_fk_def split: if_splits\<close>)
  with d show "db_ok d'"
    by (auto simp: insert_room_def Let_def db_ok_def ids_ok_def unique_ok_def fts_ok_def serial_snoc distinct_map_filter
        split: if_splits)
qed

lemma update_rooms_keeps [stmt_intros]:
  assumes "\<And>r. r_id (f r) = r_id r" and "\<And>r. r_name (f r) = r_name r" and "\<And>r. r_created_by (f r) = r_created_by r"
  shows "stmt_keeps db_ok (update_rooms P f)"
proof (rule stmt_keepsI)
  fix d a d' assume d: "db_ok d" "update_rooms P f d = Inr (a, d')"
  then have d': "d' = d\<lparr>rooms := map (\<lambda>r. if P r then f r else r) (rooms d)\<rparr>" by (simp add: update_rooms_def)
  have cols: "map r_id (rooms d') = map r_id (rooms d)"
    "map (nocase \<circ> r_name) (rooms d') = map (nocase \<circ> r_name) (rooms d)"
    unfolding d' by (simp_all add: assms)
  have fns: "r_id \<circ> (\<lambda>r. if P r then f r else r) = r_id"
    "nocase \<circ> r_name \<circ> (\<lambda>r. if P r then f r else r) = nocase \<circ> r_name"
    by (simp_all add: fun_eq_iff assms)
  have ex: "room_exists d' = room_exists d"
    unfolding room_exists_def set_map [symmetric] cols ..
  have fk: "room_fk d' r" if "r \<in> set (rooms d')" for r
    using that d(1) by (auto simp: d' db_ok_def fk_ok_def room_fk_def user_exists_def assms(3) split: if_splits)
  have "fk_ok d'"
    by (rule fk_okI [of d]) (use d(1) ex fk in \<open>auto simp: d' db_ok_def parents_stay_def user_exists_def message_exists_def\<close>)
  with d(1) show "db_ok d'" by (simp add: d' fns db_ok_def ids_ok_def unique_ok_def fts_ok_def)
qed

lemma insert_member_keeps [stmt_intros]: "stmt_keeps db_ok (insert_member rid uid role now)"
proof (rule stmt_keepsI)
  fix d a d' assume d: "db_ok d" "insert_member rid uid role now d = Inr (a, d')"
  have "fk_ok d'"
    by (rule fk_okI [of d])
       (use d in \<open>auto simp: insert_member_def Let_def db_ok_def parents_stay_def member_fk_def split: if_splits\<close>)
  with d show "db_ok d'"
    by (auto simp: insert_member_def Let_def db_ok_def ids_ok_def unique_ok_def fts_ok_def serial_snoc distinct_map_filter
        split: if_splits)
qed

lemma insert_member_or_ignore_keeps [stmt_intros]: "stmt_keeps db_ok (insert_member_or_ignore rid uid role now)"
  using insert_member_keeps [of rid uid role now]
  by (auto simp: stmt_keeps_def insert_member_or_ignore_def split: if_splits)

lemma delete_member_keeps [stmt_intros]: "stmt_keeps db_ok (delete_member rid uid)"
proof (rule stmt_keepsI)
  fix d a d' assume d: "db_ok d" "delete_member rid uid d = Inr (a, d')"
  have "fk_ok d'"
    by (rule fk_okI [of d])
       (use d in \<open>auto simp: delete_member_def Let_def db_ok_def parents_stay_def  split: if_splits\<close>)
  with d show "db_ok d'"
    by (auto simp: delete_member_def Let_def db_ok_def ids_ok_def unique_ok_def fts_ok_def serial_snoc distinct_map_filter
        split: if_splits)
qed

lemma update_role_keeps [stmt_intros]: "stmt_keeps db_ok (update_role role rid uid)"
proof (rule stmt_keepsI)
  fix d a d' assume d: "db_ok d" "update_role role rid uid d = Inr (a, d')"
  let ?f = "\<lambda>m. if member_key m = (rid, uid) then m\<lparr>m_role := role\<rparr> else m"
  have d': "d' = d\<lparr>room_members := map ?f (room_members d)\<rparr>"
    and role: "m \<in> set (room_members d) \<Longrightarrow> member_key m = (rid, uid) \<Longrightarrow> role_check role" for m
    using d(2) by (force simp: update_role_def split: if_splits)+
  have keys: "member_key \<circ> ?f = member_key"
    by (simp add: fun_eq_iff member_key_def)
  have "fk_ok d'"
    by (rule fk_okI [of d])
       (use d(1) role in \<open>auto simp: d' db_ok_def fk_ok_def member_fk_def parents_stay_def exists_defs split: if_splits\<close>)
  with d(1) show "db_ok d'" by (simp add: d' keys db_ok_def ids_ok_def unique_ok_def fts_ok_def)
qed

lemma replace_ban_keeps [stmt_intros]: "stmt_keeps db_ok (replace_ban rid uid by_user reason now)"
proof (rule stmt_keepsI)
  fix d a d' assume d: "db_ok d" "replace_ban rid uid by_user reason now d = Inr (a, d')"
  have "fk_ok d'"
    by (rule fk_okI [of d])
       (use d in \<open>auto simp: replace_ban_def Let_def db_ok_def parents_stay_def ban_fk_def split: if_splits\<close>)
  with d show "db_ok d'"
    by (auto simp: replace_ban_def Let_def db_ok_def ids_ok_def unique_ok_def fts_ok_def serial_snoc distinct_map_filter
        split: if_splits)
qed

lemma insert_message_keeps [stmt_intros]: "stmt_keeps db_ok (insert_message kind rid x y author body now)"
proof (rule stmt_keepsI)
  fix d a d' assume d: "db_ok d" "insert_message kind rid x y author body now d = Inr (a, d')"
  let ?i = "next_id (map g_id (messages d))"
  let ?g = "\<lparr>g_id = ?i, g_kind = kind, g_room_id = rid, g_peer_a = x, g_peer_b = y, g_author_id = author,
    g_body = body, g_created_at = now, g_deleted_at = None, g_deleted_by = None\<rparr>"
  have d': "d' = d\<lparr>messages := messages d @ [?g], messages_fts := messages_fts d @ [(?i, body)]\<rparr>"
    using d(2) by (auto simp: insert_message_def Let_def split: if_splits)
  have "user_exists d' = user_exists d" "room_exists d' = room_exists d"
    by (simp_all add: d' exists_defs fun_eq_iff)
  then have fk: "msg_fk d' ?g"
    using d(2) by (auto simp: insert_message_def msg_fk_def split: if_splits)
  have "fk_ok d'"
    by (rule fk_okI [of d]) (use d(1) fk in \<open>auto simp: d' db_ok_def parents_stay_def exists_defs\<close>)
  moreover have "(?i, body) \<notin> set (messages_fts d)"
  proof -
    have "g \<in> set (messages d) \<Longrightarrow> g_id g \<noteq> ?i" for g
      using next_id_fresh_image [of g_id "messages d"] by (metis imageI)
    with d(1) show ?thesis unfolding db_ok_def fts_ok_def by fastforce
  qed
  ultimately show "db_ok d'"
    using d(1) serial_snoc [of "map g_id (messages d)"]
    by (simp add: d' db_ok_def ids_ok_def unique_ok_def fts_ok_def)
qed

lemma insert_mention_or_ignore_keeps [stmt_intros]: "stmt_keeps db_ok (insert_mention_or_ignore mid uid)"
proof (rule stmt_keepsI)
  fix d a d' assume d: "db_ok d" "insert_mention_or_ignore mid uid d = Inr (a, d')"
  have "fk_ok d'"
    by (rule fk_okI [of d])
       (use d in \<open>auto simp: insert_mention_or_ignore_def Let_def db_ok_def parents_stay_def mention_fk_def split: if_splits\<close>)
  with d show "db_ok d'"
    by (auto simp: insert_mention_or_ignore_def Let_def db_ok_def ids_ok_def unique_ok_def fts_ok_def serial_snoc distinct_map_filter
        split: if_splits)
qed

lemma insert_notification_keeps [stmt_intros]: "stmt_keeps db_ok (insert_notification uid kind mid rid now)"
proof (rule stmt_keepsI)
  fix d a d' assume d: "db_ok d" "insert_notification uid kind mid rid now d = Inr (a, d')"
  have "fk_ok d'"
    by (rule fk_okI [of d])
       (use d in \<open>auto simp: insert_notification_def Let_def db_ok_def parents_stay_def notif_fk_def split: if_splits\<close>)
  with d show "db_ok d'"
    by (auto simp: insert_notification_def Let_def db_ok_def ids_ok_def unique_ok_def fts_ok_def serial_snoc distinct_map_filter
        split: if_splits)
qed

lemma insert_block_or_ignore_keeps [stmt_intros]: "stmt_keeps db_ok (insert_block_or_ignore by_user target now)"
proof (rule stmt_keepsI)
  fix d a d' assume d: "db_ok d" "insert_block_or_ignore by_user target now d = Inr (a, d')"
  have "fk_ok d'"
    by (rule fk_okI [of d])
       (use d in \<open>auto simp: insert_block_or_ignore_def Let_def db_ok_def parents_stay_def block_fk_def split: if_splits\<close>)
  with d show "db_ok d'"
    by (auto simp: insert_block_or_ignore_def Let_def db_ok_def ids_ok_def unique_ok_def fts_ok_def serial_snoc distinct_map_filter
        split: if_splits)
qed

lemma delete_block_keeps [stmt_intros]: "stmt_keeps db_ok (delete_block by_user target)"
proof (rule stmt_keepsI)
  fix d a d' assume d: "db_ok d" "delete_block by_user target d = Inr (a, d')"
  have "fk_ok d'"
    by (rule fk_okI [of d])
       (use d in \<open>auto simp: delete_block_def Let_def db_ok_def parents_stay_def  split: if_splits\<close>)
  with d show "db_ok d'"
    by (auto simp: delete_block_def Let_def db_ok_def ids_ok_def unique_ok_def fts_ok_def serial_snoc distinct_map_filter
        split: if_splits)
qed

lemma insert_report_keeps [stmt_intros]: "stmt_keeps db_ok (insert_report reporter kind target reason now)"
proof (rule stmt_keepsI)
  fix d a d' assume d: "db_ok d" "insert_report reporter kind target reason now d = Inr (a, d')"
  have "fk_ok d'"
    by (rule fk_okI [of d])
       (use d in \<open>auto simp: insert_report_def Let_def db_ok_def parents_stay_def report_fk_def split: if_splits\<close>)
  with d show "db_ok d'"
    by (auto simp: insert_report_def Let_def db_ok_def ids_ok_def unique_ok_def fts_ok_def serial_snoc distinct_map_filter
        split: if_splits)
qed

lemma update_notifications_keeps [stmt_intros]: "stmt_keeps db_ok (update_notifications P now)"
proof (rule stmt_keepsI)
  fix d a d' assume d: "db_ok d" "update_notifications P now d = Inr (a, d')"
  let ?f = "\<lambda>n. if P n then n\<lparr>n_read_at := Some now\<rparr> else n"
  have d': "d' = d\<lparr>notifications := map ?f (notifications d)\<rparr>" using d(2) by (simp add: update_notifications_def)
  have fns: "n_id \<circ> ?f = n_id" by (simp add: fun_eq_iff)
  have ex: "user_exists d' = user_exists d" "room_exists d' = room_exists d" "message_exists d' = message_exists d"
    by (simp_all add: d')
  have old: "fk_ok d" and stay: "parents_stay d d'" using d(1) by (simp_all add: db_ok_def parents_stay_def ex)
  have fk: "notif_fk d' n" if "n \<in> set (notifications d')" for n
    using that old by (auto simp: d' fk_ok_def notif_fk_def)
  have tables: "user_keys d' = user_keys d" "rooms d' = rooms d" "room_members d' = room_members d"
    "room_bans d' = room_bans d" "messages d' = messages d" "mentions d' = mentions d" "blocks d' = blocks d"
    "reports d' = reports d" by (simp_all add: d')
  have "fk_ok d'" by (rule fk_okI [OF old stay]) (simp_all add: tables fk)
  with d(1) show "db_ok d'" by (simp add: d' fns db_ok_def ids_ok_def unique_ok_def fts_ok_def)
qed

lemma soft_delete_message_keeps [stmt_intros]: "stmt_keeps db_ok (soft_delete_message now by_user mid)"
proof (rule stmt_keepsI)
  fix d a d' assume d: "db_ok d" "soft_delete_message now by_user mid d = Inr (a, d')"
  let ?hit = "\<lambda>g. g_id g = mid \<and> g_deleted_at g = None"
  let ?f = "\<lambda>g. if ?hit g then g\<lparr>g_deleted_at := Some now, g_deleted_by := Some by_user\<rparr> else g"
  let ?e = "\<lambda>g. (g_id g, g_body g)" and ?hits = "filter ?hit (messages d)"
  have by_ok: "?hits = [] \<or> user_exists d by_user"
    and d': "d' = d\<lparr>messages := map ?f (messages d),
      messages_fts := filter (\<lambda>e. e \<notin> ?e ` set ?hits) (messages_fts d) @ map ?e ?hits\<rparr>"
    using d(2) by (auto simp: soft_delete_message_def Let_def split: if_splits)
  have fns: "g_id \<circ> ?f = g_id" "?e \<circ> ?f = ?e" by (simp_all add: fun_eq_iff)
  have "map g_id (messages d') = map g_id (messages d)" unfolding d' by (simp add: fns)
  then have ex: "message_exists d' = message_exists d"
    unfolding message_exists_def set_map [symmetric] by simp
  have ex': "user_exists d' = user_exists d" "room_exists d' = room_exists d"
    by (simp_all add: d' user_exists_def room_exists_def fun_eq_iff)
  have fk: "msg_fk d' g" if g: "g \<in> set (messages d')" for g
  proof -
    obtain g0 where g0: "g0 \<in> set (messages d)" "g = ?f g0" using g unfolding d' by auto
    then have "msg_fk d g0" using d(1) by (simp add: db_ok_def fk_ok_def)
    moreover have "?hit g0 \<Longrightarrow> user_exists d by_user" using by_ok g0(1) by (auto simp: filter_empty_conv)
    ultimately show ?thesis using g0(2) by (auto simp: msg_fk_def ex')
  qed
  have tables: "user_keys d' = user_keys d" "rooms d' = rooms d" "room_members d' = room_members d"
    "room_bans d' = room_bans d" "mentions d' = mentions d" "blocks d' = blocks d"
    "notifications d' = notifications d" "reports d' = reports d" by (simp_all add: d')
  have stay: "parents_stay d d'" by (simp add: parents_stay_def ex ex')
  have old: "fk_ok d" using d(1) by (simp add: db_ok_def)
  have "fk_ok d'" by (rule fk_okI [OF old stay]) (simp_all add: tables fk)
  moreover have "fts_ok d'"
  proof -
    have dist: "distinct (map g_id (messages d))"
      using d(1) serial_distinct unfolding db_ok_def ids_ok_def by blast
    then have "distinct (map ?e (messages d))" by (simp add: distinct_map inj_on_def)
    then have "distinct (map ?e ?hits)" by (rule distinct_map_filter)
    moreover have "?e ` set (map ?f (messages d)) = ?e ` set (messages d)"
      unfolding set_map image_comp fns ..
    moreover have "?e ` set ?hits \<subseteq> ?e ` set (messages d)" by auto
    ultimately show ?thesis
      using d(1) unfolding db_ok_def fts_ok_def d' by auto
  qed
  ultimately show "db_ok d'" using d(1) by (simp add: d' fns db_ok_def ids_ok_def unique_ok_def)
qed

lemma purge_messages_keeps [stmt_intros]: "stmt_keeps db_ok (purge_messages cutoff)"
proof (rule stmt_keepsI)
  fix d a d' assume d: "db_ok d" "purge_messages cutoff d = Inr (a, d')"
  let ?hit = "\<lambda>g. case g_deleted_at g of None \<Rightarrow> False | Some t \<Rightarrow> t < cutoff"
  let ?e = "\<lambda>g. (g_id g, g_body g)" and ?hits = "filter ?hit (messages d)"
  let ?ids = "g_id ` set ?hits"
  have d': "d' = d\<lparr>messages := filter (\<lambda>g. \<not> ?hit g) (messages d),
      mentions := filter (\<lambda>(m, u). m \<notin> ?ids) (mentions d),
      notifications := filter (\<lambda>n. \<not> (case n_message_id n of None \<Rightarrow> False | Some m \<Rightarrow> m \<in> ?ids)) (notifications d),
      messages_fts := filter (\<lambda>e. e \<notin> ?e ` set ?hits) (messages_fts d)\<rparr>"
    using d(2) by (simp add: purge_messages_def Let_def)
  have ex: "user_exists d' = user_exists d" "room_exists d' = room_exists d"
    by (simp_all add: d' user_exists_def room_exists_def fun_eq_iff)
  have gone: "message_exists d m \<Longrightarrow> m \<notin> ?ids \<Longrightarrow> message_exists d' m" for m
    by (auto simp: message_exists_def d')
  have "msg_fk d' g = msg_fk d g" "key_fk d' k = key_fk d k" "room_fk d' r = room_fk d r" "member_fk d' m = member_fk d m"
    "ban_fk d' b = ban_fk d b" "block_fk d' l = block_fk d l" "report_fk d' p = report_fk d p" for g k r m b l p
    by (simp_all add: fk_defs ex)
  moreover have "mention_fk d' mu" if "mu \<in> set (mentions d')" for mu
    using that d(1) gone by (auto simp: db_ok_def fk_ok_def mention_fk_def ex d')
  moreover have "notif_fk d' n" if n: "n \<in> set (notifications d')" for n
  proof -
    have "n \<in> set (notifications d)" "\<not> (case n_message_id n of None \<Rightarrow> False | Some m \<Rightarrow> m \<in> ?ids)"
      using n by (simp_all add: d')
    with d(1) gone show ?thesis
      by (cases "n_message_id n") (auto simp: db_ok_def fk_ok_def notif_fk_def ex)
  qed
  ultimately have "fk_ok d'"
    using d(1) unfolding db_ok_def fk_ok_def by (simp add: d')
  moreover have "fts_ok d'"
  proof -
    have "distinct (map g_id (messages d))" using d(1) by (simp add: db_ok_def ids_ok_def serial_distinct)
    then have inj: "inj_on g_id (set (messages d))" by (simp add: distinct_map)
    have "inj_on ?e (set (messages d))" using inj by (auto simp: inj_on_def)
    moreover have "set (filter (\<lambda>g. \<not> ?hit g) (messages d)) = set (messages d) - set ?hits" by auto
    ultimately have "?e ` set (filter (\<lambda>g. \<not> ?hit g) (messages d)) = ?e ` set (messages d) - ?e ` set ?hits"
      by (simp only: inj_on_image_set_diff Diff_subset filter_is_subset)
    moreover have "messages_fts d' = filter (\<lambda>e. e \<notin> ?e ` set ?hits) (messages_fts d)"
      "messages d' = filter (\<lambda>g. \<not> ?hit g) (messages d)" unfolding d' by simp_all
    moreover have "fts_ok d" using d(1) by (simp add: db_ok_def)
    moreover have "set (filter (\<lambda>e. e \<notin> A) xs) = set xs - A" for A :: "(int \<times> string) set" and xs by auto
    ultimately show ?thesis unfolding fts_ok_def by (simp only: distinct_filter simp_thms)
  qed
  ultimately show "db_ok d'"
    using d(1) by (simp add: d' db_ok_def ids_ok_def unique_ok_def serial_filter)
qed

end
