(* ===== verification/StoreUsers.thy ===== *)
theory StoreUsers
  imports Schema
begin

text \<open>
  Package \<^verbatim>\<open>internal/store\<close>, the sections on users and keys and on rooms: one definition per
  method of \<open>Store\<close>, under the method's name (with the prefix \<open>Store_\<close> where the hub has a method
  of that name). A method is an action on the \<open>world\<close>; its steps are its statements, in the
  code's order, and its early returns are the error branches.
\<close>

definition first_row :: "'a list \<Rightarrow> 'a option" where
  "first_row xs = (case xs of [] \<Rightarrow> None | x # _ \<Rightarrow> Some x)"

section \<open>Users and keys\<close>

definition scanUser :: "user_row \<Rightarrow> User" where
  "scanUser u = \<lparr>User_ID = u_id u, User_Handle = u_handle u, User_DisplayName = u_display_name u,
     User_Bio = u_bio u, User_Pronouns = u_pronouns u, User_IsAdmin = (u_is_admin u \<noteq> 0),
     User_IsSuspended = (u_is_suspended u \<noteq> 0), User_CreatedAt = u_created_at u,
     User_LastSeenAt = u_last_seen_at u\<rparr>"

definition UserByFingerprint :: "string \<Rightarrow> User io" where
  "UserByFingerprint fp = query_row (\<lambda>d. map_option scanUser (first_row
     [u. u \<leftarrow> users d, k \<leftarrow> user_keys d, k_user_id k = u_id u \<and> k_fingerprint k = fp]))"

definition UserByHandle :: "string \<Rightarrow> User io" where
  "UserByHandle h = query_row (\<lambda>d. map_option scanUser (find (\<lambda>u. nocase (u_handle u) = nocase h) (users d)))"

definition UserByID :: "int \<Rightarrow> User io" where
  "UserByID i = query_row (\<lambda>d. map_option scanUser (find (\<lambda>u. u_id u = i) (users d)))"

definition CreateUser :: "string \<Rightarrow> string \<Rightarrow> string \<Rightarrow> User io" where
  "CreateUser handle fingerprint pubKey =
     in_tx (seq_act now_unix (\<lambda>now.
       seq_act (tx_exec (insert_user handle now)) (\<lambda>uid.
       seq_act (tx_exec (insert_key uid fingerprint pubKey [] now)) (\<lambda>_.
       seq_act commit_tx (\<lambda>_.
       UserByID uid)))))"

definition AddKey :: "int \<Rightarrow> string \<Rightarrow> string \<Rightarrow> string \<Rightarrow> unit io" where
  "AddKey userID fingerprint pubKey label =
     seq_act now_unix (\<lambda>now.
     seq_act (exec_stmt (insert_key userID fingerprint pubKey label now)) (\<lambda>_. ok ()))"

definition scan_key :: "key_row \<Rightarrow> UserKey" where
  "scan_key k = \<lparr>UserKey_ID = k_id k, UserKey_UserID = k_user_id k, UserKey_Fingerprint = k_fingerprint k,
     UserKey_PublicKey = k_public_key k, UserKey_Label = k_label k, UserKey_AddedAt = k_added_at k\<rparr>"

text \<open>Keys added in the same second come in the order of their rows.\<close>

definition UserKeys :: "int \<Rightarrow> UserKey list paged io" where
  "UserKeys userID =
     seq_act (query (\<lambda>d. sort_key k_added_at (filter (\<lambda>k. k_user_id k = userID) (user_keys d))))
       (scan_rows (Some \<circ> scan_key) [])"

definition UpdateProfile :: "int \<Rightarrow> string \<Rightarrow> string \<Rightarrow> string \<Rightarrow> unit io" where
  "UpdateProfile userID displayName bio pronouns =
     seq_act (exec_stmt (update_users (\<lambda>u. u_id u = userID)
       (\<lambda>u. u\<lparr>u_display_name := SanitizeUserText displayName, u_bio := SanitizeUserText bio,
              u_pronouns := SanitizeUserText pronouns\<rparr>))) (\<lambda>_. ok ())"

definition TouchLastSeen :: "int \<Rightarrow> unit io" where
  "TouchLastSeen userID =
     seq_act now_unix (\<lambda>now.
     seq_act (attempt (exec_stmt (update_users (\<lambda>u. u_id u = userID) (\<lambda>u. u\<lparr>u_last_seen_at := Some now\<rparr>)))) (\<lambda>_.
     ok ()))"

definition SetAdmin :: "string \<Rightarrow> bool \<Rightarrow> unit io" where
  "SetAdmin handle on =
     seq_act (exec_stmt (update_users (\<lambda>u. nocase (u_handle u) = nocase handle) (\<lambda>u. u\<lparr>u_is_admin := sql_bool on\<rparr>))) (\<lambda>n.
     if n = 0 then fail (ErrMsg ''user not found'') else ok ())"

definition SetSuspended :: "string \<Rightarrow> bool \<Rightarrow> unit io" where
  "SetSuspended handle on =
     seq_act (exec_stmt (update_users (\<lambda>u. nocase (u_handle u) = nocase handle) (\<lambda>u. u\<lparr>u_is_suspended := sql_bool on\<rparr>))) (\<lambda>n.
     if n = 0 then fail (ErrMsg ''user not found'') else ok ())"

section \<open>Rooms\<close>

definition scanRoom :: "room_row \<Rightarrow> Room" where
  "scanRoom r = \<lparr>Room_ID = r_id r, Room_Name = r_name r, Room_Topic = r_topic r,
     Room_IsPrivate = (r_is_private r \<noteq> 0), Room_CreatedBy = r_created_by r, Room_CreatedAt = r_created_at r\<rparr>"

definition RoomByName :: "string \<Rightarrow> Room io" where
  "RoomByName name = query_row (\<lambda>d. map_option scanRoom
     (find (\<lambda>r. nocase (r_name r) = nocase name \<and> r_deleted_at r = None) (rooms d)))"

definition RoomByID :: "int \<Rightarrow> Room io" where
  "RoomByID i = query_row (\<lambda>d. map_option scanRoom (find (\<lambda>r. r_id r = i \<and> r_deleted_at r = None) (rooms d)))"

definition CreateRoom :: "string \<Rightarrow> bool \<Rightarrow> int \<Rightarrow> Room io" where
  "CreateRoom name private owner =
     seq_act now_unix (\<lambda>now.
     in_tx (
       seq_act (tx_exec (insert_room name (sql_bool private) owner now)) (\<lambda>rid.
       seq_act (tx_exec (insert_member rid owner ''owner'' now)) (\<lambda>_.
       seq_act commit_tx (\<lambda>_.
       RoomByID rid)))))"

definition scanRooms :: "room_row list \<Rightarrow> Room list paged io" where
  "scanRooms = scan_rows (Some \<circ> scanRoom) []"

definition ListPublicRooms :: "Room list paged io" where
  "ListPublicRooms =
     seq_act (query (\<lambda>d. sort_key (nocase \<circ> r_name)
       (filter (\<lambda>r. r_is_private r = 0 \<and> r_deleted_at r = None) (rooms d)))) scanRooms"

text \<open>The rooms of a user: \<^verbatim>\<open>FROM rooms r JOIN room_members m ON m.room_id = r.id\<close>.\<close>

definition rooms_of :: "int \<Rightarrow> database \<Rightarrow> room_row list" where
  "rooms_of userID d = sort_key (nocase \<circ> r_name)
     [r. r \<leftarrow> rooms d, m \<leftarrow> room_members d, m_room_id m = r_id r \<and> m_user_id m = userID \<and> r_deleted_at r = None]"

definition ListUserRooms :: "int \<Rightarrow> Room list paged io" where
  "ListUserRooms userID = seq_act (query (rooms_of userID)) scanRooms"

definition count_bans :: "int \<Rightarrow> int \<Rightarrow> database \<Rightarrow> nat" where
  "count_bans roomID userID d = length (filter (\<lambda>b. ban_key b = (roomID, userID)) (room_bans d))"

text \<open>A failing ban query is taken for no ban: the code goes on when \<^verbatim>\<open>err != nil\<close>.\<close>

definition Store_JoinRoom :: "int \<Rightarrow> int \<Rightarrow> unit io" where
  "Store_JoinRoom roomID userID =
     seq_act (attempt (query (count_bans roomID userID))) (\<lambda>banned.
     if (case banned of Inl _ \<Rightarrow> False | Inr n \<Rightarrow> n > 0) then fail (ErrMsg ''you are banned from this room'')
     else seq_act now_unix (\<lambda>now. exec_stmt (insert_member_or_ignore roomID userID ''member'' now)))"

definition Store_LeaveRoom :: "int \<Rightarrow> int \<Rightarrow> unit io" where
  "Store_LeaveRoom roomID userID = exec_stmt (delete_member roomID userID)"

definition member_role :: "int \<Rightarrow> int \<Rightarrow> database \<Rightarrow> string option" where
  "member_role roomID userID d = map_option m_role (find (\<lambda>m. member_key m = (roomID, userID)) (room_members d))"

definition IsMember :: "int \<Rightarrow> int \<Rightarrow> (bool \<times> string) io" where
  "IsMember roomID userID =
     seq_act (attempt (query_row (member_role roomID userID))) (\<lambda>r.
     case r of
       Inl e \<Rightarrow> if e = ErrNoRows then ok (False, []) else fail e
     | Inr role \<Rightarrow> ok (True, role))"

definition RoomMembers :: "int \<Rightarrow> Member list paged io" where
  "RoomMembers roomID =
     seq_act (query (\<lambda>d. sort_key (\<lambda>(m, u). nocase (u_handle u))
       [(m, u). m \<leftarrow> room_members d, u \<leftarrow> users d, u_id u = m_user_id m \<and> m_room_id m = roomID]))
       (scan_rows (\<lambda>(m, u). Some \<lparr>Member_UserID = m_user_id m, Member_Handle = u_handle u, Member_Role = m_role m,
          Member_JoinedAt = m_joined_at m, Member_Online = False\<rparr>) [])"

text \<open>The guard the \<^verbatim>\<open>...ForUser\<close> methods share: an error of the check, not a member, or go on.\<close>

definition require_member :: "int \<Rightarrow> int \<Rightarrow> 'a io \<Rightarrow> 'a io" where
  "require_member roomID userID m =
     seq_act (IsMember roomID userID) (\<lambda>(is_member, _).
     if \<not> is_member then fail (ErrMsg ''not a member of this room'') else m)"

definition RoomMembersForUser :: "int \<Rightarrow> int \<Rightarrow> Member list paged io" where
  "RoomMembersForUser userID roomID = require_member roomID userID (RoomMembers roomID)"

definition SetTopic :: "int \<Rightarrow> string \<Rightarrow> unit io" where
  "SetTopic roomID topic =
     seq_act (exec_stmt (update_rooms (\<lambda>r. r_id r = roomID) (\<lambda>r. r\<lparr>r_topic := SanitizeUserText topic\<rparr>))) (\<lambda>_. ok ())"

definition DeleteRoom :: "int \<Rightarrow> unit io" where
  "DeleteRoom roomID =
     seq_act now_unix (\<lambda>now.
     seq_act (exec_stmt (update_rooms (\<lambda>r. r_id r = roomID) (\<lambda>r. r\<lparr>r_deleted_at := Some now\<rparr>))) (\<lambda>_. ok ()))"

definition Promote :: "int \<Rightarrow> int \<Rightarrow> string \<Rightarrow> unit io" where
  "Promote roomID userID role =
     (if role \<noteq> RoleMember \<and> role \<noteq> RoleModerator \<and> role \<noteq> RoleOwner then fail (ErrMsg ''invalid role'')
      else exec_stmt (update_role role roomID userID))"

definition BanFromRoom :: "int \<Rightarrow> int \<Rightarrow> int \<Rightarrow> string \<Rightarrow> unit io" where
  "BanFromRoom roomID userID by_user reason =
     in_tx (
       seq_act now_unix (\<lambda>now.
       seq_act (tx_exec (replace_ban roomID userID by_user (SanitizeUserText reason) now)) (\<lambda>_.
       seq_act (tx_exec (delete_member roomID userID)) (\<lambda>_.
       commit_tx))))"

definition KickFromRoom :: "int \<Rightarrow> int \<Rightarrow> unit io" where
  "KickFromRoom roomID userID = exec_stmt (delete_member roomID userID)"

end
