(* ===== verification/Mentions.thy ===== *)
theory Mentions
  imports Domain
begin

text \<open>
  Mentions: \<open>store.ParseMentions\<close>, which finds the handles a message mentions, and
  \<open>tui.highlightMentions\<close>, which styles them when a message is rendered. The lower-case
  table \<open>ulow\<close> of package unicode and the styles of lipgloss are parameters. Slicing a
  Go string out of range panics; the model returns \<open>None\<close> there.
\<close>

section \<open>ParseMentions\<close>

text \<open>The handle that \<^verbatim>\<open>@([a-z0-9_-]{3,20})\<close> takes from the text after an at sign.\<close>

definition mention_at :: "string \<Rightarrow> string" where
  "mention_at cs = take 20 (takeWhile name_char cs)"

text \<open>\<open>FindAllStringSubmatch\<close>: leftmost, greedy, non-overlapping matches.\<close>

function (sequential) find_mentions :: "string \<Rightarrow> string list" where
  "find_mentions [] = []"
| "find_mentions (c # cs) =
     (if c = CHR ''@'' \<and> 3 \<le> length (mention_at cs)
      then mention_at cs # find_mentions (drop (length (mention_at cs)) cs)
      else find_mentions cs)"
  by pat_completeness auto
termination
  by (relation "measure length") auto

text \<open>The loop over the matches, with the map \<open>seen\<close> and the slice \<open>out\<close>.\<close>

fun uniq_loop :: "string list \<Rightarrow> string list \<Rightarrow> string list \<Rightarrow> string list" where
  "uniq_loop [] seen out = out"
| "uniq_loop (m # ms) seen out =
     (if m \<in> set seen then uniq_loop ms seen out else uniq_loop ms (m # seen) (out @ [m]))"

definition ParseMentions :: "(rune \<Rightarrow> rune) \<Rightarrow> string \<Rightarrow> string list" where
  "ParseMentions ulow body = uniq_loop (find_mentions (to_lower ulow body)) [] []"

lemma uniq_loop_set: "set seen = set out \<Longrightarrow> set (uniq_loop ms seen out) = set out \<union> set ms"
  by (induction ms arbitrary: seen out) auto

lemma uniq_loop_distinct: "set seen = set out \<Longrightarrow> distinct out \<Longrightarrow> distinct (uniq_loop ms seen out)"
  by (induction ms arbitrary: seen out) auto

lemma mention_at_valid: "3 \<le> length (mention_at cs) \<Longrightarrow> ValidHandle (mention_at cs)"
  by (auto simp: ValidHandle_def mention_at_def list_all_iff dest!: in_set_takeD dest: set_takeWhileD)

lemma at_not_name: "\<not> name_char CHR ''@''"
  by (simp add: name_char_def name_byte_def)

text \<open>No at sign lies inside a match, so every at sign of the text is tried.\<close>

lemma drop_mention_at:
  assumes "cs = p @ CHR ''@'' # r"
  obtains p' where "drop (length (mention_at cs)) cs = p' @ CHR ''@'' # r"
proof -
  have "length (mention_at cs) \<le> length p"
  proof (rule ccontr)
    assume "\<not> length (mention_at cs) \<le> length p"
    then have l: "length p < length (takeWhile name_char cs)" by (simp add: mention_at_def)
    then have "name_char (takeWhile name_char cs ! length p)"
      by (meson nth_mem set_takeWhileD)
    then have "name_char (cs ! length p)" using l by (simp add: takeWhile_nth)
    with assms show False by (simp add: at_not_name)
  qed
  with assms have "drop (length (mention_at cs)) cs = drop (length (mention_at cs)) p @ CHR ''@'' # r"
    by simp
  then show thesis by (rule that)
qed

lemma find_mentions_sound:
  "h \<in> set (find_mentions s) \<Longrightarrow> \<exists>p r. s = p @ CHR ''@'' # r \<and> h = mention_at r \<and> 3 \<le> length h"
proof (induction s rule: find_mentions.induct)
  case (2 c cs)
  show ?case
  proof (cases "c = CHR ''@'' \<and> 3 \<le> length (mention_at cs)")
    case True
    show ?thesis
    proof (cases "h = mention_at cs")
      case True': True
      with True show ?thesis by (intro exI [of _ "[]"] exI [of _ cs]) auto
    next
      case False
      with True "2.prems" have "h \<in> set (find_mentions (drop (length (mention_at cs)) cs))" by simp
      with "2.IH"(1) [OF True] obtain p r where
        "drop (length (mention_at cs)) cs = p @ CHR ''@'' # r" "h = mention_at r" "3 \<le> length h"
        by blast
      moreover then have "c # cs = (c # take (length (mention_at cs)) cs @ p) @ CHR ''@'' # r"
        by (metis append_Cons append_assoc append_take_drop_id)
      ultimately show ?thesis by blast
    qed
  next
    case False
    with "2.prems" have "h \<in> set (find_mentions cs)" by auto
    with "2.IH"(2) [OF False] obtain p r where "cs = p @ CHR ''@'' # r" "h = mention_at r" "3 \<le> length h"
      by blast
    then show ?thesis by (intro exI [of _ "c # p"] exI [of _ r]) auto
  qed
qed simp

lemma find_mentions_complete:
  "s = p @ CHR ''@'' # r \<Longrightarrow> 3 \<le> length (mention_at r) \<Longrightarrow> mention_at r \<in> set (find_mentions s)"
proof (induction s arbitrary: p rule: find_mentions.induct)
  case (2 c cs)
  show ?case
  proof (cases p)
    case Nil
    with "2.prems" show ?thesis by auto
  next
    case (Cons d p')
    with "2.prems" have cs: "cs = p' @ CHR ''@'' # r" by simp
    show ?thesis
    proof (cases "c = CHR ''@'' \<and> 3 \<le> length (mention_at cs)")
      case True
      obtain q where "drop (length (mention_at cs)) cs = q @ CHR ''@'' # r"
        by (rule drop_mention_at [OF cs])
      then have "mention_at r \<in> set (find_mentions (drop (length (mention_at cs)) cs))"
        using "2.IH"(1) [OF True] "2.prems"(2) by blast
      with True show ?thesis by simp
    next
      case False
      then have "find_mentions (c # cs) = find_mentions cs" by auto
      with "2.IH"(2) [OF False cs] "2.prems"(2) show ?thesis by simp
    qed
  qed
qed simp

text \<open>C32. \<open>ParseMentions\<close> returns, without repetition, exactly the handles of 3 to 20 name
  characters that follow an at sign in the lower-cased body; in particular an at sign
  inside a longer text is never skipped.\<close>

theorem ParseMentions_exact:
  "distinct (ParseMentions ulow body) \<and>
   set (ParseMentions ulow body) =
     {h. \<exists>p r. to_lower ulow body = p @ CHR ''@'' # r \<and> h = take 20 (takeWhile name_char r) \<and> 3 \<le> length h}"
proof -
  have "set (find_mentions s) = {h. \<exists>p r. s = p @ CHR ''@'' # r \<and> h = mention_at r \<and> 3 \<le> length h}" for s
    by (auto dest: find_mentions_sound intro: find_mentions_complete)
  then show ?thesis
    by (simp add: ParseMentions_def uniq_loop_distinct uniq_loop_set mention_at_def)
qed

lemma ParseMentions_valid: "h \<in> set (ParseMentions ulow body) \<Longrightarrow> ValidHandle h"
  by (auto simp: ParseMentions_def uniq_loop_set dest!: find_mentions_sound intro: mention_at_valid)


section \<open>highlightMentions\<close>

text \<open>
  \<open>hl_loop\<close> is the inner \<^verbatim>\<open>for\<close> over one handle: it searches \<open>lower\<close> from
  \<open>idx\<close> and cuts \<open>out\<close> at the offsets found there. \<open>style h\<close> renders the
  matched bytes in the style chosen for the handle \<open>h\<close>.
\<close>

function hl_loop :: "(string \<Rightarrow> string) \<Rightarrow> string \<Rightarrow> string \<Rightarrow> string \<Rightarrow> nat \<Rightarrow> string \<Rightarrow> string option" where
  "hl_loop render h out lower idx sb =
     (let needle = CHR ''@'' # h in
      if length lower < idx then None
      else case index_of (drop idx lower) needle of
        None \<Rightarrow> if idx \<le> length out then Some (sb @ drop idx out) else None
      | Some i \<Rightarrow>
          let abs = idx + i in
          if abs + length needle \<le> length out
          then hl_loop render h out lower (abs + length needle)
                 (sb @ take (abs - idx) (drop idx out) @ render (take (length needle) (drop abs out)))
          else None)"
  by pat_completeness auto
termination
  by (relation "measure (\<lambda>(render, h, out, lower, idx, sb). length lower - idx)")
     (auto dest!: index_of_Some)

declare hl_loop.simps [simp del]

fun hl_all :: "(rune \<Rightarrow> rune) \<Rightarrow> (string \<Rightarrow> string \<Rightarrow> string) \<Rightarrow> string list \<Rightarrow> string \<Rightarrow> string option" where
  "hl_all ulow style [] out = Some out"
| "hl_all ulow style (h # hs) out =
     (case hl_loop (style h) h out (to_lower ulow out) 0 [] of
        None \<Rightarrow> None
      | Some out' \<Rightarrow> hl_all ulow style hs out')"

text \<open>
  \<open>eqfold\<close> is \<open>strings.EqualFold\<close>; \<open>mention\<close> and \<open>accent\<close> are the two styles'
  \<open>Render\<close>.
\<close>

definition highlightMentions ::
  "(rune \<Rightarrow> rune) \<Rightarrow> (string \<Rightarrow> string \<Rightarrow> bool) \<Rightarrow> (string \<Rightarrow> string) \<Rightarrow> (string \<Rightarrow> string) \<Rightarrow>
   string \<Rightarrow> string \<Rightarrow> string option" where
  "highlightMentions ulow eqfold mention accent body selfHandle =
     (let matches = ParseMentions ulow body in
      if matches = [] then Some body
      else hl_all ulow (\<lambda>h. if eqfold h selfHandle then mention else accent) matches body)"

subsection \<open>Bodies whose lower case has the same length\<close>

definition ascii :: "string \<Rightarrow> bool" where
  "ascii s \<longleftrightarrow> (\<forall>c \<in> set s. (of_char c :: nat) < 128)"

lemma decode_all_ascii: "\<forall>b \<in> set bs. b < 128 \<Longrightarrow> decode bs = bs"
  by (induction bs) simp_all

lemma encode_all_ascii: "\<forall>r \<in> set rs. r < 128 \<Longrightarrow> encode rs = rs"
  by (induction rs) (simp_all add: encode_rune_def)

lemma to_lower_ascii:
  assumes "ascii s"
  shows "length (to_lower ulow s) = length s"
proof -
  have b: "\<forall>b \<in> set (bytes_of s). b < 128" using assms by (auto simp: ascii_def bytes_of_def)
  then have "runes s = bytes_of s" by (simp add: runes_def decode_all_ascii)
  moreover have "\<forall>r \<in> set (map (rune_lower ulow) (bytes_of s)). r < 128"
    using b by (auto simp: rune_lower_def)
  ultimately show ?thesis
    by (simp add: to_lower_def of_runes_def str_of_def encode_all_ascii) (simp add: bytes_of_def)
qed

lemma ascii_simps [simp]:
  "ascii []" "ascii (s @ t) \<longleftrightarrow> ascii s \<and> ascii t" "ascii (c # s) \<longleftrightarrow> (of_char c :: nat) < 128 \<and> ascii s"
  by (auto simp: ascii_def)

lemma ascii_take: "ascii s \<Longrightarrow> ascii (take n s)"
  by (auto simp: ascii_def dest: in_set_takeD)

lemma ascii_drop: "ascii s \<Longrightarrow> ascii (drop n s)"
  by (auto simp: ascii_def dest: in_set_dropD)

lemma hl_loop_ascii:
  assumes "length lower = length out" and "ascii out" and "\<And>t. ascii t \<Longrightarrow> ascii (render t)"
  shows "idx \<le> length out \<Longrightarrow> ascii sb \<Longrightarrow>
    \<exists>out'. hl_loop render h out lower idx sb = Some out' \<and> ascii out'"
  using assms
proof (induction render h out lower idx sb rule: hl_loop.induct)
  case (1 render h out lower idx sb)
  show ?case
  proof (cases "index_of (drop idx lower) (CHR ''@'' # h)")
    case None
    with 1 show ?thesis
      by (subst hl_loop.simps) (simp add: Let_def ascii_drop)
  next
    case (Some i)
    let ?n = "CHR ''@'' # h"
    let ?sb = "sb @ take i (drop idx out) @ render (take (length ?n) (drop (idx + i) out))"
    from index_of_Some [OF Some] "1.prems" have le: "idx + i + length ?n \<le> length out" by auto
    have "ascii ?sb" using "1.prems" by (simp add: ascii_take ascii_drop)
    then have "\<exists>out'. hl_loop render h out lower (idx + i + length ?n) ?sb = Some out' \<and> ascii out'"
      using "1.IH" [OF refl _ Some refl] le "1.prems" by simp
    then show ?thesis
      using Some le "1.prems" by (subst hl_loop.simps) (simp add: Let_def)
  qed
qed

lemma hl_all_ascii:
  "ascii out \<Longrightarrow> (\<And>h t. ascii t \<Longrightarrow> ascii (style h t)) \<Longrightarrow> \<exists>out'. hl_all ulow style hs out = Some out'"
proof (induction hs arbitrary: out)
  case (Cons h hs)
  obtain out' where "hl_loop (style h) h out (to_lower ulow out) 0 [] = Some out'" "ascii out'"
    using hl_loop_ascii [of "to_lower ulow out" out "style h" 0 "[]" h] Cons.prems
    by (auto simp: to_lower_ascii)
  with Cons show ?case by simp
qed simp

text \<open>Rendering an ASCII message never panics: with styles that add only ASCII (terminal
  escape codes), every slice \<open>highlightMentions\<close> takes is in range.\<close>

theorem highlightMentions_ascii_safe:
  assumes "ascii body" and "\<And>t. ascii t \<Longrightarrow> ascii (mention t)" and "\<And>t. ascii t \<Longrightarrow> ascii (accent t)"
  shows "\<exists>out. highlightMentions ulow eqfold mention accent body selfHandle = Some out"
  using hl_all_ascii [of body "\<lambda>h. if eqfold h selfHandle then mention else accent" ulow] assms
  by (simp add: highlightMentions_def Let_def)

theorem highlightMentions_ascii_safe_witness:
  "ascii ''hi @bob'' \<and>
   (\<exists>out. highlightMentions id (=) (\<lambda>t. ''<'' @ t @ ''>'') id ''hi @bob'' ''bob'' = Some out)"
  using highlightMentions_ascii_safe [of "''hi @bob''" "\<lambda>t. ''<'' @ t @ ''>''" id id "(=)" "''bob''"]
  by simp

text \<open>C38. The offsets are those of the lower-cased text, so a letter whose lower case is longer in
  UTF-8 (U+023A, two bytes, lower case U+2C65, three bytes) before a mention makes the slice run
  past the end of the message: rendering it panics, for every style and every reader.\<close>

theorem highlightMentions_panics:
  assumes "ulow 0x23A = 0x2C65"
  shows "highlightMentions ulow eqfold mention accent (of_runes [0x23A] @ ''@bob'') selfHandle = None"
proof -
  let ?body = "of_runes [0x23A] @ ''@bob''" and ?low = "[CHR 0xE2, CHR 0xB1, CHR 0xA5] @ ''@bob''"
  have body: "bytes_of ?body = [0xC8, 0xBA, 64, 98, 111, 98]"
    by (simp add: of_runes_def str_of_def encode_rune_def bytes_of_def)
  then have "runes ?body = [0x23A, 64, 98, 111, 98]"
    by (simp add: runes_def decode_Cons decode_rune.simps(2) cont_def)
  then have low: "to_lower ulow ?body = ?low"
    by (simp add: to_lower_def rune_lower_def assms of_runes_def str_of_def encode_rune_def
        char_of_byte valid_rune_def)
  have "find_mentions ?low = [''bob'']"
    by (simp add: mention_at_def name_char_def name_byte_def)
  then have "ParseMentions ulow ?body = [''bob'']" by (simp add: ParseMentions_def low)
  moreover have "hl_loop render ''bob'' ?body ?low 0 [] = None" for render
    by (subst hl_loop.simps) (simp add: has_prefix_def of_runes_def str_of_def encode_rune_def)
  ultimately show ?thesis by (simp add: highlightMentions_def low)
qed

theorem highlightMentions_panics_witness:
  "highlightMentions (id(0x23A := 0x2C65)) (=) id id (of_runes [0x23A] @ ''@bob'') ''bob'' = None"
  by (rule highlightMentions_panics) simp

end
