(* ===== verification/StoreMessages.thy ===== *)
theory StoreMessages
  imports StoreUsers Mentions
begin

text \<open>
  Package \<^verbatim>\<open>internal/store\<close>: messages, search, blocks, notifications, reports, maintenance
  and the handle and peer lists. The match of a full-text query is a parameter \<open>fts\<close>: \<open>fts q\<close> is
  \<open>None\<close> when FTS5 rejects the query, and else says which bodies match. Durations are in seconds
  (every caller passes a whole number of hours).
\<close>

section \<open>Writing messages\<close>

definition scanMessage :: "msg_row \<Rightarrow> user_row \<Rightarrow> Message" where
  "scanMessage g u = \<lparr>Message_ID = g_id g, Message_Kind = g_kind g, Message_RoomID = g_room_id g,
     Message_DMPeerA = g_peer_a g, Message_DMPeerB = g_peer_b g, Message_AuthorID = g_author_id g,
     Message_Author = u_handle u, Message_Body = g_body g, Message_CreatedAt = g_created_at g,
     Message_Deleted = (g_deleted_at g \<noteq> None)\<rparr>"

text \<open>\<^verbatim>\<open>FROM messages m JOIN users u ON u.id = m.author_id WHERE ...\<close>\<close>

definition message_rows :: "(msg_row \<Rightarrow> bool) \<Rightarrow> database \<Rightarrow> (msg_row \<times> user_row) list" where
  "message_rows P d = [(g, u). g \<leftarrow> messages d, u \<leftarrow> users d, u_id u = g_author_id g \<and> P g]"

definition select_messages :: "(msg_row \<Rightarrow> bool) \<Rightarrow> database \<Rightarrow> Message list" where
  "select_messages P d = map (\<lambda>(g, u). scanMessage g u) (message_rows P d)"

lemma select_messages_eq:
  "select_messages P d = [scanMessage g u. g \<leftarrow> messages d, u \<leftarrow> users d, u_id u = g_author_id g \<and> P g]"
  unfolding select_messages_def message_rows_def by (simp add: map_concat comp_def if_distrib cong: if_cong)

definition MessageByID :: "int \<Rightarrow> Message io" where
  "MessageByID i = query_row (\<lambda>d. first_row (select_messages (\<lambda>g. g_id g = i) d))"

text \<open>The loop over the mentioned users in \<open>InsertRoomMessage\<close>; \<open>IsMember\<close> reads the committed
  database while the transaction is open.\<close>

fun notify_loop :: "int \<Rightarrow> int \<Rightarrow> int \<Rightarrow> int \<Rightarrow> int list \<Rightarrow> int list io" where
  "notify_loop roomID authorID mid now [] = ok []"
| "notify_loop roomID authorID mid now (uid # us) =
     (if uid = authorID then notify_loop roomID authorID mid now us
      else seq_act (attempt (IsMember roomID uid)) (\<lambda>r.
        if (case r of Inl _ \<Rightarrow> True | Inr (is_member, _) \<Rightarrow> \<not> is_member) then notify_loop roomID authorID mid now us
        else seq_act (tx_exec (insert_mention_or_ignore mid uid)) (\<lambda>_.
             seq_act (tx_exec (insert_notification uid ''mention'' (Some mid) (Some roomID) now)) (\<lambda>_.
             seq_act (notify_loop roomID authorID mid now us) (\<lambda>notified.
             ok (uid # notified))))))"

definition truncated :: "string \<Rightarrow> string" where
  "truncated body = (if length body > MaxBody then take MaxBody body else body)"

definition InsertRoomMessage :: "int \<Rightarrow> int \<Rightarrow> string \<Rightarrow> int list \<Rightarrow> (Message \<times> int list) io" where
  "InsertRoomMessage roomID authorID body mentioned =
     require_member roomID authorID (
     seq_act (query (count_bans roomID authorID)) (\<lambda>banned.
     if banned > 0 then fail (ErrMsg ''you are banned from this room'')
     else let body = SanitizeUserText body in
     if body = [] then fail (ErrMsg ''empty message'')
     else let body = truncated body in
     seq_act now_unix (\<lambda>now.
     in_tx (
       seq_act (tx_exec (insert_message ''room'' (Some roomID) None None authorID body now)) (\<lambda>mid.
       seq_act (notify_loop roomID authorID mid now mentioned) (\<lambda>notified.
       seq_act commit_tx (\<lambda>_.
       seq_act (MessageByID mid) (\<lambda>msg.
       ok (msg, notified)))))))))"

definition count_blocks :: "int \<Rightarrow> int \<Rightarrow> database \<Rightarrow> nat" where
  "count_blocks by_user target d = length (filter (\<lambda>l. block_key l = (by_user, target)) (blocks d))"

definition IsBlocked :: "int \<Rightarrow> int \<Rightarrow> bool io" where
  "IsBlocked by_user target = seq_act (query (count_blocks by_user target)) (\<lambda>n. ok (n > 0))"

definition InsertDM :: "int \<Rightarrow> int \<Rightarrow> string \<Rightarrow> Message io" where
  "InsertDM authorID peerID body =
     (if authorID = peerID then fail (ErrMsg ''cannot DM yourself'')
      else seq_act (attempt (UserByID peerID)) (\<lambda>peer.
      if \<not> is_ok peer then fail (ErrMsg ''recipient not found'')
      else seq_act (IsBlocked peerID authorID) (\<lambda>blocked.
      if blocked then fail (ErrMsg ''cannot DM this user'')
      else let body = SanitizeUserText body in
      if body = [] then fail (ErrMsg ''empty message'')
      else let body = truncated body; (a, b) = DMKey authorID peerID in
      seq_act now_unix (\<lambda>now.
      in_tx (
        seq_act (tx_exec (insert_message ''dm'' None (Some a) (Some b) authorID body now)) (\<lambda>mid.
        seq_act (tx_exec (insert_notification peerID ''dm'' (Some mid) None now)) (\<lambda>_.
        seq_act commit_tx (\<lambda>_.
        MessageByID mid))))))))"

section \<open>Reading messages\<close>

text \<open>The loop that reverses the page in place.\<close>

function reverse_loop :: "nat \<Rightarrow> nat \<Rightarrow> 'a list \<Rightarrow> 'a list" where
  "reverse_loop i j out =
     (if i < j then reverse_loop (i + 1) (j - 1) (out[i := out ! j, j := out ! i]) else out)"
  by pat_completeness auto
termination
  by (relation "measure (\<lambda>(i, j, _). j - i)") auto

declare reverse_loop.simps [simp del]

definition scanMessages :: "(msg_row \<times> user_row) list \<Rightarrow> Message list paged io" where
  "scanMessages = scan_rows (\<lambda>(g, u). Some (scanMessage g u)) []"

text \<open>\<^verbatim>\<open>ORDER BY m.id DESC LIMIT ?\<close>, and the whole of it or the error.\<close>

definition newest :: "int \<Rightarrow> (msg_row \<times> user_row) list \<Rightarrow> (msg_row \<times> user_row) list" where
  "newest limit rows = limited limit (order_desc (g_id \<circ> fst) rows)"

definition whole :: "'a paged \<Rightarrow> 'a io" where
  "whole p = (case p of (out, None) \<Rightarrow> ok out | (_, Some e) \<Rightarrow> fail e)"

definition RoomHistory :: "int \<Rightarrow> int \<Rightarrow> Message list io" where
  "RoomHistory roomID limit =
     seq_act (query (\<lambda>d. newest limit (message_rows (\<lambda>g. g_kind g = ''room'' \<and> g_room_id g = Some roomID) d))) (\<lambda>rows.
     seq_act (scanMessages rows) (\<lambda>page.
     seq_act (whole page) (\<lambda>out.
     ok (reverse_loop 0 (length out - 1) out))))"

definition RoomHistoryForUser :: "int \<Rightarrow> int \<Rightarrow> int \<Rightarrow> Message list io" where
  "RoomHistoryForUser userID roomID limit = require_member roomID userID (RoomHistory roomID limit)"

definition DMHistory :: "int \<Rightarrow> int \<Rightarrow> int \<Rightarrow> Message list io" where
  "DMHistory u1 u2 limit =
     (let (a, b) = DMKey u1 u2 in
      seq_act (query (\<lambda>d. newest limit
        (message_rows (\<lambda>g. g_kind g = ''dm'' \<and> g_peer_a g = Some a \<and> g_peer_b g = Some b) d))) (\<lambda>rows.
      seq_act (scanMessages rows) (\<lambda>page.
      seq_act (whole page) (\<lambda>out.
      ok (reverse_loop 0 (length out - 1) out)))))"

definition DMHistoryForUser :: "int \<Rightarrow> int \<Rightarrow> int \<Rightarrow> Message list io" where
  "DMHistoryForUser userID peerID limit =
     (if userID = peerID then fail (ErrMsg ''cannot DM yourself'') else DMHistory userID peerID limit)"

definition canReadMessage :: "int \<Rightarrow> Message \<Rightarrow> unit io" where
  "canReadMessage userID msg =
     (if Message_Kind msg = ''room'' then
        (case Message_RoomID msg of
           None \<Rightarrow> fail (ErrMsg ''invalid room message'')
         | Some rid \<Rightarrow> require_member rid userID (ok ()))
      else if Message_Kind msg = ''dm'' then
        (case (Message_DMPeerA msg, Message_DMPeerB msg) of
           (Some a, Some b) \<Rightarrow> if a \<noteq> userID \<and> b \<noteq> userID then fail (ErrMsg ''not allowed'') else ok ()
         | _ \<Rightarrow> fail (ErrMsg ''invalid dm''))
      else fail (ErrMsg ''invalid message kind''))"

definition MessageByIDForUser :: "int \<Rightarrow> int \<Rightarrow> Message io" where
  "MessageByIDForUser userID i =
     seq_act (MessageByID i) (\<lambda>msg. seq_act (canReadMessage userID msg) (\<lambda>_. ok msg))"

definition DeleteMessage :: "int \<Rightarrow> int \<Rightarrow> unit io" where
  "DeleteMessage msgID byUser =
     seq_act now_unix (\<lambda>now. seq_act (exec_stmt (soft_delete_message now byUser msgID)) (\<lambda>_. ok ()))"

definition DeleteMessageForUser :: "int \<Rightarrow> int \<Rightarrow> bool \<Rightarrow> unit io" where
  "DeleteMessageForUser msgID byUser isAdmin =
     seq_act (MessageByID msgID) (\<lambda>msg.
     seq_act
       (if Message_AuthorID msg \<noteq> byUser \<and> \<not> isAdmin then
          (case Message_RoomID msg of
             None \<Rightarrow> fail (ErrMsg ''not allowed'')
           | Some rid \<Rightarrow> seq_act (IsMember rid byUser) (\<lambda>(_, role).
               if role \<noteq> RoleOwner \<and> role \<noteq> RoleModerator then fail (ErrMsg ''not allowed'') else ok ()))
        else ok ()) (\<lambda>_.
     DeleteMessage msgID byUser))"

text \<open>SQL's LIKE on code points: \<^verbatim>\<open>%\<close> any text, \<^verbatim>\<open>_\<close> one character, ASCII letters without
  case.\<close>

definition rune_fold :: "rune \<Rightarrow> rune" where
  "rune_fold r = (if 65 \<le> r \<and> r \<le> 90 then r + 32 else r)"

function (sequential) like :: "rune list \<Rightarrow> rune list \<Rightarrow> bool" where
  "like [] s = (s = [])"
| "like (p # ps) s =
     (if p = 37 then like ps s \<or> (case s of [] \<Rightarrow> False | _ # s' \<Rightarrow> like (p # ps) s')
      else (case s of [] \<Rightarrow> False | c # s' \<Rightarrow> (p = 95 \<or> rune_fold p = rune_fold c) \<and> like ps s'))"
  by pat_completeness auto
termination
  by (relation "measure (\<lambda>(p, s). length p + length s)") auto

definition SearchRoom :: "(string \<Rightarrow> (string \<Rightarrow> bool) option) \<Rightarrow> int \<Rightarrow> string \<Rightarrow> int \<Rightarrow> Message list paged io" where
  "SearchRoom fts roomID q limit =
     seq_act (attempt (case fts q of
         None \<Rightarrow> seq_act driver (\<lambda>_. fail ErrDriver)
       | Some hit \<Rightarrow> query (\<lambda>d. newest limit
           [(g, u). e \<leftarrow> messages_fts d, g \<leftarrow> messages d, u \<leftarrow> users d,
              g_id g = fst e \<and> u_id u = g_author_id g \<and> hit (snd e) \<and> g_kind g = ''room'' \<and> g_room_id g = Some roomID])))
     (\<lambda>rows. seq_act (case rows of
         Inr found \<Rightarrow> ok found
       | Inl _ \<Rightarrow> query (\<lambda>d. newest limit
           (message_rows (\<lambda>g. g_kind g = ''room'' \<and> g_room_id g = Some roomID
              \<and> like (runes (''%'' @ q @ ''%'')) (runes (g_body g))) d)))
       scanMessages)"

definition SearchRoomForUser :: "(string \<Rightarrow> (string \<Rightarrow> bool) option) \<Rightarrow> int \<Rightarrow> int \<Rightarrow> string \<Rightarrow> int \<Rightarrow> Message list paged io" where
  "SearchRoomForUser fts userID roomID q limit = require_member roomID userID (SearchRoom fts roomID q limit)"

section \<open>Blocks\<close>

definition Block :: "int \<Rightarrow> int \<Rightarrow> unit io" where
  "Block by_user target = seq_act now_unix (\<lambda>now. exec_stmt (insert_block_or_ignore by_user target now))"

definition Unblock :: "int \<Rightarrow> int \<Rightarrow> unit io" where
  "Unblock by_user target = exec_stmt (delete_block by_user target)"

definition BlockedIDs :: "int \<Rightarrow> int list paged io" where
  "BlockedIDs userID =
     seq_act (query (\<lambda>d. filter (\<lambda>l. l_user_id l = userID) (blocks d))) (scan_rows (Some \<circ> l_blocked_id) [])"

section \<open>Notifications\<close>

definition scan_notification :: "notif_row \<Rightarrow> Notification" where
  "scan_notification n = \<lparr>Notification_ID = n_id n, Notification_UserID = n_user_id n,
     Notification_Kind = n_kind n, Notification_MessageID = n_message_id n, Notification_RoomID = n_room_id n,
     Notification_CreatedAt = n_created_at n, Notification_Read = (n_read_at n \<noteq> None)\<rparr>"

definition ListNotifications :: "int \<Rightarrow> int \<Rightarrow> Notification list paged io" where
  "ListNotifications userID limit =
     seq_act (query (\<lambda>d. limited limit (order_desc n_id (filter (\<lambda>n. n_user_id n = userID) (notifications d)))))
       (scan_rows (Some \<circ> scan_notification) [])"

text \<open>The counters are maps that read as zero where nothing was counted.\<close>

type_synonym counts = "(int \<Rightarrow> int) \<times> (int \<Rightarrow> int)"

definition dm_row :: "int \<Rightarrow> database \<Rightarrow> (int \<times> int) option" where
  "dm_row mid d = (case find (\<lambda>g. g_id g = mid) (messages d) of
     None \<Rightarrow> None
   | Some g \<Rightarrow> (case (g_peer_a g, g_peer_b g) of (Some a, Some b) \<Rightarrow> Some (a, b) | _ \<Rightarrow> None))"

fun unread_loop :: "int \<Rightarrow> notif_row list \<Rightarrow> counts \<Rightarrow> counts paged io" where
  "unread_loop userID [] c =
     seq_act (attempt driver) (\<lambda>more. case more of Inl e \<Rightarrow> ok (c, Some e) | Inr _ \<Rightarrow> ok (c, None))"
| "unread_loop userID (n # ns) (rms, dms) =
     seq_act (attempt driver) (\<lambda>more.
     case more of
       Inl e \<Rightarrow> ok ((rms, dms), Some e)
     | Inr _ \<Rightarrow>
         (if n_kind n = ''mention'' then
            (case n_room_id n of
               None \<Rightarrow> unread_loop userID ns (rms, dms)
             | Some r \<Rightarrow> unread_loop userID ns (rms(r := rms r + 1), dms))
          else if n_kind n = ''dm'' then
            (case n_message_id n of
               None \<Rightarrow> unread_loop userID ns (rms, dms)
             | Some mid \<Rightarrow> seq_act (attempt (query_row (dm_row mid))) (\<lambda>r.
                 case r of
                   Inl _ \<Rightarrow> unread_loop userID ns (rms, dms)
                 | Inr (a, b) \<Rightarrow> let peer = (if a = userID then b else a) in
                     unread_loop userID ns (rms, dms(peer := dms peer + 1))))
          else unread_loop userID ns (rms, dms)))"

definition UnreadCounts :: "int \<Rightarrow> counts paged io" where
  "UnreadCounts userID =
     seq_act (query (\<lambda>d. filter (\<lambda>n. n_user_id n = userID \<and> n_read_at n = None) (notifications d))) (\<lambda>rows.
     unread_loop userID rows (\<lambda>_. 0, \<lambda>_. 0))"

definition MarkRoomRead :: "int \<Rightarrow> int \<Rightarrow> unit io" where
  "MarkRoomRead userID roomID =
     seq_act now_unix (\<lambda>now.
     exec_stmt (update_notifications
       (\<lambda>n. n_user_id n = userID \<and> n_room_id n = Some roomID \<and> n_read_at n = None) now))"

definition dm_ids :: "int \<Rightarrow> int \<Rightarrow> database \<Rightarrow> int set" where
  "dm_ids a b d = g_id ` set (filter (\<lambda>g. g_kind g = ''dm'' \<and> g_peer_a g = Some a \<and> g_peer_b g = Some b) (messages d))"

definition MarkDMRead :: "int \<Rightarrow> int \<Rightarrow> unit io" where
  "MarkDMRead userID peerID =
     (let (a, b) = DMKey userID peerID in
      seq_act now_unix (\<lambda>now.
      exec_stmt (\<lambda>d. update_notifications
        (\<lambda>n. n_user_id n = userID \<and> n_read_at n = None \<and> n_kind n = ''dm'' \<and>
             (case n_message_id n of None \<Rightarrow> False | Some m \<Rightarrow> m \<in> dm_ids a b d)) now d)))"

section \<open>Reports\<close>

definition Report :: "int \<Rightarrow> string \<Rightarrow> int \<Rightarrow> string \<Rightarrow> unit io" where
  "Report reporter kind targetID reason =
     (if kind \<noteq> ''message'' \<and> kind \<noteq> ''user'' then fail (ErrMsg ''invalid target kind'')
      else seq_act now_unix (\<lambda>now.
        seq_act (exec_stmt (insert_report reporter kind targetID (SanitizeUserText reason) now)) (\<lambda>_. ok ())))"

definition ReportMessageForUser :: "int \<Rightarrow> int \<Rightarrow> string \<Rightarrow> unit io" where
  "ReportMessageForUser reporter messageID reason =
     seq_act (MessageByID messageID) (\<lambda>msg.
     seq_act (canReadMessage reporter msg) (\<lambda>_.
     Report reporter ''message'' messageID reason))"

section \<open>Maintenance, handles and peers\<close>

definition PurgeDeletedOlderThan :: "int \<Rightarrow> int io" where
  "PurgeDeletedOlderThan secs = seq_act now_unix (\<lambda>now. exec_stmt (purge_messages (now - secs)))"

definition CountRoomCreates :: "int \<Rightarrow> int \<Rightarrow> nat io" where
  "CountRoomCreates userID since =
     seq_act now_unix (\<lambda>now.
     query (\<lambda>d. length (filter (\<lambda>r. r_created_by r = userID \<and> r_created_at r > now - since) (rooms d))))"

text \<open>The rows come in an order that SQL leaves open; they are taken in the order of the table.\<close>

definition ResolveHandles :: "string list \<Rightarrow> int list paged io" where
  "ResolveHandles handles =
     (if handles = [] then ok ([], None)
      else seq_act (query (\<lambda>d. filter (\<lambda>u. nocase (u_handle u) \<in> nocase ` set handles) (users d)))
        (scan_rows (Some \<circ> u_id) []))"

definition peer_of :: "int \<Rightarrow> msg_row \<Rightarrow> int option" where
  "peer_of userID g = (if g_peer_a g = Some userID then g_peer_b g else g_peer_a g)"

definition dm_groups :: "int \<Rightarrow> database \<Rightarrow> (int option \<times> int) list" where
  "dm_groups userID d =
     (let rows = filter (\<lambda>g. g_kind g = ''dm'' \<and> (g_peer_a g = Some userID \<or> g_peer_b g = Some userID)) (messages d)
      in map (\<lambda>p. (p, Max (g_id ` set (filter (\<lambda>g. peer_of userID g = p) rows)))) (remdups (map (peer_of userID) rows)))"

text \<open>Scanning a NULL peer into an integer is an error.\<close>

definition DMPeers :: "int \<Rightarrow> int list paged io" where
  "DMPeers userID = seq_act (query (\<lambda>d. order_desc snd (dm_groups userID d))) (scan_rows fst [])"

record Stats =
  Stats_Users :: nat
  Stats_Rooms :: nat
  Stats_Messages :: nat

definition Store_Stats :: "Stats io" where
  "Store_Stats =
     seq_act (query (\<lambda>d. length (users d))) (\<lambda>us.
     seq_act (query (\<lambda>d. length (filter (\<lambda>r. r_deleted_at r = None) (rooms d)))) (\<lambda>rs.
     seq_act (query (\<lambda>d. length (messages d))) (\<lambda>ms.
     ok \<lparr>Stats_Users = us, Stats_Rooms = rs, Stats_Messages = ms\<rparr>)))"

end
