(* ===== verification/StoreInv.thy ===== *)
theory StoreInv
  imports SchemaInv StoreMessages "HOL-Library.Sublist"
begin

text \<open>
  What every method of the store keeps, whatever statements fail. A property of databases that
  the statements keep (\<open>db_invariant\<close>) is kept by every method, in the committed database and
  in the transaction; the interface is instantiated with the schema's constraints and with the
  history of the append-only columns. \<open>store_step\<close> is one call of a method, or a change of
  the clock and of the coming faults, and \<open>store_reach\<close> the worlds the store can get into from
  an empty database.
\<close>

section \<open>From statements to methods\<close>

definition world_inv :: "(database \<Rightarrow> bool) \<Rightarrow> world \<Rightarrow> bool" where
  "world_inv I w \<longleftrightarrow> I (w_db w) \<and> null_or I (w_tx w)"

lemma keeps_driver [inv_intros]: "keeps (world_inv I) driver"
  by (auto simp: keeps_def driver_def world_inv_def split: list.splits)

lemma keeps_now [inv_intros]: "keeps (world_inv I) now_unix"
  by (simp add: keeps_def now_unix_def)

lemma keeps_query [inv_intros]: "keeps (world_inv I) (query f)"
  unfolding query_def by (intro inv_intros) (simp add: keeps_def)

lemma keeps_query_row [inv_intros]: "keeps (world_inv I) (query_row f)"
  unfolding query_row_def by (intro inv_intros)

lemma keeps_exec [inv_intros]: "stmt_keeps I st \<Longrightarrow> keeps (world_inv I) (exec_stmt st)"
  unfolding exec_stmt_def
  by (intro inv_intros) (auto simp: keeps_def world_inv_def stmt_keeps_def split: sum.splits)

lemma keeps_tx_exec [inv_intros]: "stmt_keeps I st \<Longrightarrow> keeps (world_inv I) (tx_exec st)"
  unfolding tx_exec_def
  by (intro inv_intros) (auto simp: keeps_def world_inv_def stmt_keeps_def split: sum.splits option.splits)

lemma keeps_commit [inv_intros]: "keeps (world_inv I) commit_tx"
  unfolding commit_tx_def by (intro inv_intros) (auto simp: keeps_def world_inv_def split: option.splits)

lemma keeps_in_tx [inv_intros]: "keeps (world_inv I) m \<Longrightarrow> keeps (world_inv I) (in_tx m)"
  unfolding in_tx_def begin_tx_def
  by (intro inv_intros) (auto simp: keeps_def world_inv_def with_rollback_def split: prod.splits)

text \<open>The texts users write, as the store keeps them.\<close>

definition clean_user :: "user_row \<Rightarrow> bool" where
  "clean_user u \<longleftrightarrow> clean_text (u_display_name u) \<and> clean_text (u_bio u) \<and> clean_text (u_pronouns u)"

definition postable :: "string \<Rightarrow> bool" where
  "postable body \<longleftrightarrow> clean_text body \<and> body \<noteq> [] \<and> length body \<le> MaxBody"

lemma postable_truncated [simp]: "clean_text body \<Longrightarrow> body \<noteq> [] \<Longrightarrow> postable (truncated body)"
  by (auto simp: postable_def truncated_def clean_take MaxBody_def)

text \<open>
  What the statements keep, the methods made of them keep. The laws ask of each statement only what
  the methods use it with: names and creators stay, deleted rooms stay deleted, texts are sanitized.
  \<open>db_posts\<close> has the statements of posting and deleting messages, \<open>db_base\<close> all that add no users,
  members or bans, \<open>db_frame\<close> those that add no members or bans, \<open>db_members\<close> those that add no users,
  and \<open>db_invariant\<close> all.
\<close>

locale db_posts =
  fixes I :: "database \<Rightarrow> bool"
  assumes ins_message: "postable body \<Longrightarrow> stmt_keeps I (insert_message kind rid' x y author body now)"
    and del_message: "stmt_keeps I (soft_delete_message now by_user mid)"
    and ins_mention: "stmt_keeps I (insert_mention_or_ignore mid uid)"
    and ins_notif: "stmt_keeps I (insert_notification uid kind mid' rid' now)"
begin

lemmas post_stmts = ins_message del_message ins_mention ins_notif

lemma member_check_keeps: "keeps (world_inv I) (IsMember rid uid)"
  unfolding IsMember_def by (intro inv_intros)

lemma require_member_keeps: "keeps (world_inv I) m \<Longrightarrow> keeps (world_inv I) (require_member rid uid m)"
  unfolding require_member_def by (intro inv_intros member_check_keeps)

lemma can_read_keeps: "keeps (world_inv I) (canReadMessage uid msg)"
  unfolding canReadMessage_def by (intro inv_intros require_member_keeps)

lemma notify_loop_keeps: "keeps (world_inv I) (notify_loop rid author mid now us)"
  by (induction us) (auto simp: Let_def intro!: inv_intros post_stmts member_check_keeps)

lemma messages_keep:
  "keeps (world_inv I) (InsertRoomMessage rid author body ms)" "keeps (world_inv I) (InsertDM author peer body)"
  "keeps (world_inv I) (DeleteMessage mid uid)" "keeps (world_inv I) (DeleteMessageForUser mid uid adm)"
  unfolding InsertRoomMessage_def InsertDM_def DeleteMessage_def DeleteMessageForUser_def MessageByID_def UserByID_def
    IsBlocked_def
  by (intro inv_intros post_stmts require_member_keeps notify_loop_keeps member_check_keeps; simp)+

end

locale db_base = db_posts +
  assumes ins_key: "stmt_keeps I (insert_key uid fp pub label now)"
    and upd_users: "(\<And>u. u_id (f u) = u_id u) \<Longrightarrow> (\<And>u. u_handle (f u) = u_handle u) \<Longrightarrow>
      (\<And>u. clean_user u \<Longrightarrow> clean_user (f u)) \<Longrightarrow> stmt_keeps I (update_users P f)"
    and ins_room: "stmt_keeps I (insert_room name priv owner now)"
    and upd_rooms: "(\<And>r. r_id (g r) = r_id r) \<Longrightarrow> (\<And>r. r_name (g r) = r_name r) \<Longrightarrow>
      (\<And>r. r_created_by (g r) = r_created_by r) \<Longrightarrow>
      (\<And>r. r_deleted_at r \<noteq> None \<Longrightarrow> r_deleted_at (g r) \<noteq> None) \<Longrightarrow>
      (\<And>r. clean_text (r_topic r) \<Longrightarrow> clean_text (r_topic (g r))) \<Longrightarrow> stmt_keeps I (update_rooms R g)"
    and del_member: "stmt_keeps I (delete_member rid uid)"
    and upd_role: "stmt_keeps I (update_role role rid uid)"
    and purge: "stmt_keeps I (purge_messages cutoff)"
    and upd_notifs: "stmt_keeps I (update_notifications Q now)"
    and ins_block: "stmt_keeps I (insert_block_or_ignore by_user target now)"
    and del_block: "stmt_keeps I (delete_block by_user target)"
    and ins_report: "clean_text reason \<Longrightarrow> stmt_keeps I (insert_report reporter kind target reason now)"
begin

lemmas stmts = post_stmts ins_key ins_room del_member upd_role purge upd_notifs ins_block del_block ins_report

lemma users_keep:
  "keeps (world_inv I) (AddKey uid fp pub label)" "keeps (world_inv I) (UpdateProfile uid dn bio pr)"
  "keeps (world_inv I) (TouchLastSeen uid)"
  "keeps (world_inv I) (SetAdmin handle on)" "keeps (world_inv I) (SetSuspended handle on)"
  unfolding AddKey_def UpdateProfile_def TouchLastSeen_def SetAdmin_def SetSuspended_def
  by (intro inv_intros stmts upd_users; simp add: clean_user_def)+

lemma creation_keeps:
  "(\<And>now. stmt_keeps I (insert_user handle now)) \<Longrightarrow> keeps (world_inv I) (CreateUser handle fp pub)"
  unfolding CreateUser_def UserByID_def by (intro inv_intros stmts)

lemma rooms_keep:
  "keeps (world_inv I) (Store_LeaveRoom rid uid)" "keeps (world_inv I) (SetTopic rid topic)"
  "keeps (world_inv I) (DeleteRoom rid)" "keeps (world_inv I) (Promote rid uid role)"
  "keeps (world_inv I) (KickFromRoom rid uid)"
  unfolding Store_LeaveRoom_def SetTopic_def DeleteRoom_def Promote_def KickFromRoom_def
  by (intro inv_intros stmts upd_rooms; simp)+

lemma others_keep:
  "keeps (world_inv I) (Block uid target)" "keeps (world_inv I) (Unblock uid target)"
  "keeps (world_inv I) (MarkRoomRead uid rid)" "keeps (world_inv I) (MarkDMRead uid peer)"
  "keeps (world_inv I) (Report uid kind target reason)" "keeps (world_inv I) (ReportMessageForUser uid mid reason)"
  "keeps (world_inv I) (PurgeDeletedOlderThan secs)"
  unfolding Block_def Unblock_def MarkRoomRead_def MarkDMRead_def ReportMessageForUser_def Report_def
    PurgeDeletedOlderThan_def MessageByID_def
  by (intro inv_intros stmts can_read_keeps; use upd_notifs in \<open>simp add: stmt_keeps_def\<close>)+

lemmas base_keep = users_keep rooms_keep messages_keep others_keep

end

text \<open>With the statement that adds users.\<close>

locale db_frame = db_base +
  assumes ins_user: "stmt_keeps I (insert_user h now)"
begin

lemmas frame_keep = base_keep creation_keeps [OF ins_user]

end

text \<open>With the statements that add members and bans.\<close>

locale db_members = db_base +
  assumes ins_member: "stmt_keeps I (insert_member rid uid role now)"
    and ins_member_ignore: "stmt_keeps I (insert_member_or_ignore rid uid role now)"
    and repl_ban: "clean_text reason \<Longrightarrow> stmt_keeps I (replace_ban rid uid by_user reason now)"
begin

lemma membership_keep:
  "keeps (world_inv I) (CreateRoom name private owner)" "keeps (world_inv I) (Store_JoinRoom rid uid)"
  "keeps (world_inv I) (BanFromRoom rid uid by_user reason)"
  unfolding CreateRoom_def Store_JoinRoom_def BanFromRoom_def RoomByID_def
  by (intro inv_intros stmts ins_member ins_member_ignore repl_ban; simp)+

lemmas members_keep = base_keep membership_keep

end

locale db_invariant = db_frame + db_members

section \<open>The schema and the history as invariants\<close>

interpretation schema: db_invariant db_ok
  by unfold_locales (intro stmt_intros; assumption)+

text \<open>
  The append-only columns: users and rooms are never removed, their handles and names never change,
  a deleted room stays deleted, and keys and reports are only added.
\<close>

definition user_cols :: "database \<Rightarrow> (int \<times> string) list" where
  "user_cols d = map (\<lambda>u. (u_id u, u_handle u)) (users d)"

definition room_cols :: "database \<Rightarrow> (int \<times> string \<times> int) list" where
  "room_cols d = map (\<lambda>r. (r_id r, r_name r, r_created_by r)) (rooms d)"

definition dead_rooms :: "database \<Rightarrow> int set" where
  "dead_rooms d = r_id ` {r \<in> set (rooms d). r_deleted_at r \<noteq> None}"

definition grew :: "database \<Rightarrow> database \<Rightarrow> bool" where
  "grew d0 d \<longleftrightarrow> prefix (user_cols d0) (user_cols d) \<and> prefix (user_keys d0) (user_keys d) \<and>
     prefix (room_cols d0) (room_cols d) \<and> dead_rooms d0 \<subseteq> dead_rooms d \<and> prefix (reports d0) (reports d)"

lemma grew_refl [simp]: "grew d d"
  by (simp add: grew_def)

lemma grewI_same:
  assumes "grew d0 d" and "users d' = users d" and "user_keys d' = user_keys d" and "rooms d' = rooms d"
    and "reports d' = reports d"
  shows "grew d0 d'"
  using assms by (simp add: grew_def user_cols_def room_cols_def dead_rooms_def)

lemma grew_update_users:
  assumes "\<And>u. u_id (f u) = u_id u" and "\<And>u. u_handle (f u) = u_handle u"
  shows "stmt_keeps (grew d0) (update_users P f)"
proof (rule stmt_keepsI)
  fix d a d' assume d: "grew d0 d" "update_users P f d = Inr (a, d')"
  then have d': "d' = d\<lparr>users := map (\<lambda>u. if P u then f u else u) (users d)\<rparr>" by (simp add: update_users_def)
  have "user_cols d' = user_cols d" by (simp add: user_cols_def d' assms)
  with d(1) show "grew d0 d'" by (simp add: grew_def d' room_cols_def dead_rooms_def)
qed

lemma grew_update_rooms:
  assumes "\<And>r. r_id (g r) = r_id r" and "\<And>r. r_name (g r) = r_name r" and "\<And>r. r_created_by (g r) = r_created_by r"
    and "\<And>r. r_deleted_at r \<noteq> None \<Longrightarrow> r_deleted_at (g r) \<noteq> None"
  shows "stmt_keeps (grew d0) (update_rooms R g)"
proof (rule stmt_keepsI)
  fix d a d' assume d: "grew d0 d" "update_rooms R g d = Inr (a, d')"
  let ?f = "\<lambda>r. if R r then g r else r"
  have d': "d' = d\<lparr>rooms := map ?f (rooms d)\<rparr>" using d(2) by (simp add: update_rooms_def)
  have "room_cols d' = room_cols d" by (simp add: room_cols_def d' assms)
  moreover have "dead_rooms d \<subseteq> dead_rooms d'"
  proof
    fix i assume "i \<in> dead_rooms d"
    then obtain r where r: "r \<in> set (rooms d)" "r_deleted_at r \<noteq> None" "i = r_id r"
      by (auto simp: dead_rooms_def)
    then have "?f r \<in> set (rooms d')" "r_deleted_at (?f r) \<noteq> None" "r_id (?f r) = i"
      using assms by (auto simp: d')
    then show "i \<in> dead_rooms d'" unfolding dead_rooms_def by blast
  qed
  ultimately show "grew d0 d'" using d(1) by (auto simp: grew_def d' user_cols_def)
qed

lemma dead_rooms_snoc: "dead_rooms d \<subseteq> dead_rooms (d\<lparr>rooms := rooms d @ [r]\<rparr>)"
  unfolding dead_rooms_def by (intro image_mono) auto

lemma grew_insert_room: "stmt_keeps (grew d0) (insert_room name priv owner now)"
proof (rule stmt_keepsI)
  fix d a d' assume d: "grew d0 d" "insert_room name priv owner now d = Inr (a, d')"
  then obtain r where d': "d' = d\<lparr>rooms := rooms d @ [r]\<rparr>" by (auto simp: insert_room_def Let_def split: if_splits)
  have "dead_rooms d0 \<subseteq> dead_rooms d'" using d(1) dead_rooms_snoc unfolding d' grew_def by blast
  with d(1) show "grew d0 d'" by (simp add: grew_def d' user_cols_def room_cols_def prefix_append)
qed

lemma grew_inserts:
  "stmt_keeps (grew d0) (insert_user h now)"
  "stmt_keeps (grew d0) (insert_key uid fp pub label now)"
  "stmt_keeps (grew d0) (insert_report reporter kind target reason now)"
  by (auto simp: stmt_keeps_def insert_user_def insert_key_def insert_report_def grew_def Let_def
      user_cols_def room_cols_def dead_rooms_def prefix_append split: if_splits)

lemma grew_frames:
  "stmt_keeps (grew d0) (insert_member rid uid role now)"
  "stmt_keeps (grew d0) (insert_member_or_ignore rid uid role now)"
  "stmt_keeps (grew d0) (delete_member rid uid)"
  "stmt_keeps (grew d0) (update_role role rid uid)"
  "stmt_keeps (grew d0) (replace_ban rid uid by_user reason now)"
  "stmt_keeps (grew d0) (insert_message kind rid' x y author body now)"
  "stmt_keeps (grew d0) (soft_delete_message now by_user mid)"
  "stmt_keeps (grew d0) (purge_messages cutoff)"
  "stmt_keeps (grew d0) (insert_mention_or_ignore mid uid)"
  "stmt_keeps (grew d0) (insert_notification uid kind mid' rid' now)"
  "stmt_keeps (grew d0) (update_notifications Q now)"
  "stmt_keeps (grew d0) (insert_block_or_ignore by_user target now)"
  "stmt_keeps (grew d0) (delete_block by_user target)"
  by (rule stmt_keepsI, erule grewI_same; auto simp: insert_member_def insert_member_or_ignore_def delete_member_def
      update_role_def replace_ban_def insert_message_def soft_delete_message_def purge_messages_def
      insert_mention_or_ignore_def insert_notification_def update_notifications_def insert_block_or_ignore_def
      delete_block_def Let_def split: if_splits)+

interpretation history: db_invariant "grew d0" for d0
  by unfold_locales (intro grew_inserts grew_insert_room grew_frames grew_update_users grew_update_rooms; assumption)+

section \<open>Runs of the store\<close>

text \<open>One call, by any session, with any arguments; \<open>step_env\<close> lets time pass and sets up the faults to come.\<close>

inductive store_step :: "world \<Rightarrow> world \<Rightarrow> bool" where
  step_env: "store_step w (w\<lparr>w_clock := t, w_faults := fs\<rparr>)"
| step_CreateUser: "CreateUser h fp pub w = (r, w') \<Longrightarrow> store_step w w'"
| step_AddKey: "AddKey uid fp pub label w = (r0, w') \<Longrightarrow> store_step w w'"
| step_UpdateProfile: "UpdateProfile uid dn bio pr w = (r0, w') \<Longrightarrow> store_step w w'"
| step_TouchLastSeen: "TouchLastSeen uid w = (r0, w') \<Longrightarrow> store_step w w'"
| step_SetAdmin: "SetAdmin h on w = (r0, w') \<Longrightarrow> store_step w w'"
| step_SetSuspended: "SetSuspended h on w = (r0, w') \<Longrightarrow> store_step w w'"
| step_CreateRoom: "CreateRoom name private owner w = (r1, w') \<Longrightarrow> store_step w w'"
| step_JoinRoom: "Store_JoinRoom rid uid w = (r0, w') \<Longrightarrow> store_step w w'"
| step_LeaveRoom: "Store_LeaveRoom rid uid w = (r0, w') \<Longrightarrow> store_step w w'"
| step_SetTopic: "SetTopic rid topic w = (r0, w') \<Longrightarrow> store_step w w'"
| step_DeleteRoom: "DeleteRoom rid w = (r0, w') \<Longrightarrow> store_step w w'"
| step_Promote: "Promote rid uid role w = (r0, w') \<Longrightarrow> store_step w w'"
| step_BanFromRoom: "BanFromRoom rid uid by_user reason w = (r0, w') \<Longrightarrow> store_step w w'"
| step_KickFromRoom: "KickFromRoom rid uid w = (r0, w') \<Longrightarrow> store_step w w'"
| step_InsertRoomMessage: "InsertRoomMessage rid uid body ms w = (r2, w') \<Longrightarrow> store_step w w'"
| step_InsertDM: "InsertDM uid peer body w = (r3, w') \<Longrightarrow> store_step w w'"
| step_DeleteMessage: "DeleteMessage mid uid w = (r0, w') \<Longrightarrow> store_step w w'"
| step_DeleteMessageForUser: "DeleteMessageForUser mid uid adm w = (r0, w') \<Longrightarrow> store_step w w'"
| step_Block: "Block uid target w = (r0, w') \<Longrightarrow> store_step w w'"
| step_Unblock: "Unblock uid target w = (r0, w') \<Longrightarrow> store_step w w'"
| step_MarkRoomRead: "MarkRoomRead uid rid w = (r0, w') \<Longrightarrow> store_step w w'"
| step_MarkDMRead: "MarkDMRead uid peer w = (r0, w') \<Longrightarrow> store_step w w'"
| step_Report: "Report uid kind target reason w = (r0, w') \<Longrightarrow> store_step w w'"
| step_ReportMessage: "ReportMessageForUser uid mid reason w = (r0, w') \<Longrightarrow> store_step w w'"
| step_Purge: "PurgeDeletedOlderThan secs w = (r4, w') \<Longrightarrow> store_step w w'"

definition empty_world :: world where
  "empty_world = \<lparr>w_db = empty_db, w_tx = None, w_clock = 0, w_faults = []\<rparr>"

inductive store_reach :: "world \<Rightarrow> bool" where
  reach_init: "store_reach empty_world"
| reach_step: "store_reach w \<Longrightarrow> store_step w w' \<Longrightarrow> store_reach w'"

context db_invariant begin

lemmas methods_keep = frame_keep membership_keep

lemma step_keeps:
  assumes "store_step w w'" and "world_inv I w"
  shows "world_inv I w'"
  using assms
  by (cases rule: store_step.cases) (simp add: world_inv_def, (erule keeps_pairD [rotated 2], rule methods_keep, assumption)+)

lemma steps_keep:
  assumes "store_step\<^sup>*\<^sup>* w w'" and "world_inv I w"
  shows "world_inv I w'"
  using assms by (induction rule: rtranclp_induct) (auto intro: step_keeps)

end

end
