(* ===== verification/StoreExec.thy ===== *)
theory StoreExec
  imports StoreInv
begin

text \<open>
  Symbolic execution of the store: what a query, a statement, a commit and a transaction can do,
  under faults (the \<open>_D\<close> facts) and without (the \<open>quiet\<close> facts), and the frames of the methods:
  reads leave the database alone, no method leaves a transaction open.
\<close>

section \<open>Under any faults\<close>

text \<open>Everything but the fault schedule.\<close>

definition core :: "world \<Rightarrow> database \<times> database option \<times> int" where
  "core w = (w_db w, w_tx w, w_clock w)"

lemma core_eq: "core w' = core w \<longleftrightarrow> w_db w' = w_db w \<and> w_tx w' = w_tx w \<and> w_clock w' = w_clock w"
  by (simp add: core_def)

lemma driver_D: "driver w = (r, w') \<Longrightarrow> core w' = core w \<and> (r = Inl ErrDriver \<or> r = Inr ())"
  by (auto simp: driver_def core_def split: list.splits if_splits)

lemma now_D: "now_unix w = (r, w') \<Longrightarrow> w' = w \<and> r = Inr (w_clock w)"
  by (auto simp: now_unix_def)

lemma query_D: "query f w = (r, w') \<Longrightarrow> core w' = core w \<and> (r = Inl ErrDriver \<or> r = Inr (f (w_db w)))"
  unfolding query_def by (erule seq_actE; drule driver_D) (auto simp: core_eq)

lemma query_row_D:
  "query_row f w = (r, w') \<Longrightarrow> core w' = core w \<and>
     (r = Inl ErrDriver \<or> r = (case f (w_db w) of None \<Rightarrow> Inl ErrNoRows | Some a \<Rightarrow> Inr a))"
  unfolding query_row_def by (erule seq_actE; drule query_D) (auto simp: ok_def fail_def split: option.splits)

lemma exec_stmt_D:
  assumes "exec_stmt st w = (r, w')"
  shows "w_tx w' = w_tx w \<and> w_clock w' = w_clock w \<and>
    (w_db w' = w_db w \<and> (r = Inl ErrDriver \<or> (\<exists>e. r = Inl e \<and> st (w_db w) = Inl e)) \<or>
     (\<exists>a. r = Inr a \<and> st (w_db w) = Inr (a, w_db w')))"
  using assms unfolding exec_stmt_def
  by (elim seq_actE; drule_tac driver_D) (auto simp: core_eq split: sum.splits)

lemma exec_stmt_Inr: "exec_stmt st w = (Inr a, w') \<Longrightarrow> st (w_db w) = Inr (a, w_db w')"
  by (drule exec_stmt_D) auto

lemma exec_stmt_db: "exec_stmt st w = (r, w') \<Longrightarrow> w_db w' = w_db w \<or> (\<exists>a. st (w_db w) = Inr (a, w_db w'))"
  by (drule exec_stmt_D) auto

lemma tx_exec_D:
  assumes "tx_exec st w = (r, w')" and "w_tx w = Some t"
  shows "w_db w' = w_db w \<and> w_clock w' = w_clock w \<and>
    (w_tx w' = Some t \<and> (r = Inl ErrDriver \<or> (\<exists>e. r = Inl e \<and> st t = Inl e)) \<or>
     (\<exists>a d. r = Inr a \<and> st t = Inr (a, d) \<and> w_tx w' = Some d))"
  using assms unfolding tx_exec_def
  by (elim seq_actE; drule_tac driver_D) (auto simp: core_eq split: sum.splits)

lemma commit_D:
  assumes "commit_tx w = (r, w')" and "w_tx w = Some t"
  shows "w_clock w' = w_clock w \<and> (r = Inl ErrDriver \<and> w_db w' = w_db w \<or> r = Inr () \<and> w_db w' = t)"
  using assms unfolding commit_tx_def by (elim seq_actE; drule_tac driver_D) (auto simp: core_eq)

lemma in_tx_D:
  assumes "in_tx m w = (r, w')"
  shows "(r = Inl ErrDriver \<and> core w' = core w) \<or>
    (\<exists>w1 w2. w_db w1 = w_db w \<and> w_tx w1 = Some (w_db w) \<and> w_clock w1 = w_clock w \<and>
       m w1 = (r, w2) \<and> w_db w' = w_db w2 \<and> w_clock w' = w_clock w2 \<and> w_tx w' = None)"
proof -
  obtain r1 w0 where d: "driver w = (r1, w0)" by force
  note core = driver_D [OF d]
  show ?thesis
  proof (cases r1)
    case (Inl e)
    then have "in_tx m w = (Inl e, w0)" using d by (simp add: in_tx_def begin_tx_def seq_act_def)
    with assms core Inl show ?thesis by simp
  next
    case (Inr x)
    obtain r2 w2 where m: "m (w0\<lparr>w_tx := Some (w_db w0)\<rparr>) = (r2, w2)" by force
    have "in_tx m w = (r2, w2\<lparr>w_tx := None\<rparr>)"
      using d Inr m by (simp add: in_tx_def begin_tx_def seq_act_def with_rollback_def)
    with assms core m show ?thesis
      by (intro disjI2 exI [of _ "w0\<lparr>w_tx := Some (w_db w0)\<rparr>"] exI [of _ w2]) (auto simp: core_eq)
  qed
qed

lemma in_tx_now: "in_tx (seq_act now_unix f) w = in_tx (f (w_clock w)) w"
proof -
  obtain r0 w0 where d: "driver w = (r0, w0)" by force
  with driver_D [OF d] show ?thesis
    by (cases r0) (simp_all add: in_tx_def begin_tx_def seq_act_def with_rollback_def now_unix_def core_eq)
qed

lemma now_seq: "seq_act now_unix f w = f (w_clock w) w"
  by (simp add: seq_act_def now_unix_def)

text \<open>
  The transactions of the store run two statements and commit. Either nothing is committed and an
  error comes back, or both statements took effect, one after the other, and the rest runs on
  the database they made.
\<close>

lemma two_stmt_tx:
  assumes "in_tx (seq_act (tx_exec st1) (\<lambda>a. seq_act (tx_exec (st2 a)) (\<lambda>b. seq_act commit_tx (\<lambda>_. fin a b)))) w = (r, w')"
  shows "(w_db w' = w_db w \<and> \<not> is_ok r) \<or>
    (\<exists>a d1 b d2 w3 w4. st1 (w_db w) = Inr (a, d1) \<and> st2 a d1 = Inr (b, d2) \<and> w_db w3 = d2 \<and>
       w_clock w3 = w_clock w \<and> fin a b w3 = (r, w4) \<and> w_db w' = w_db w4)"
  using in_tx_D [OF assms]
proof
  assume "r = Inl ErrDriver \<and> core w' = core w"
  then show ?thesis by (simp add: core_eq)
next
  assume "\<exists>w1 w2. w_db w1 = w_db w \<and> w_tx w1 = Some (w_db w) \<and> w_clock w1 = w_clock w \<and>
    seq_act (tx_exec st1) (\<lambda>a. seq_act (tx_exec (st2 a)) (\<lambda>b. seq_act commit_tx (\<lambda>_. fin a b))) w1 = (r, w2) \<and>
    w_db w' = w_db w2 \<and> w_clock w' = w_clock w2 \<and> w_tx w' = None"
  then obtain w1 w2 where w1: "w_db w1 = w_db w" "w_tx w1 = Some (w_db w)" "w_clock w1 = w_clock w"
    and run: "seq_act (tx_exec st1) (\<lambda>a. seq_act (tx_exec (st2 a)) (\<lambda>b. seq_act commit_tx (\<lambda>_. fin a b))) w1 = (r, w2)"
    and w': "w_db w' = w_db w2" by blast
  from run show ?thesis
  proof (cases rule: seq_actE)
    case (err e)
    with tx_exec_D [OF err(1) w1(2)] w' w1 show ?thesis by auto
  next
    case (step a s1)
    obtain d1 where s1: "st1 (w_db w) = Inr (a, d1)" "w_tx s1 = Some d1" "w_db s1 = w_db w" "w_clock s1 = w_clock w"
      using tx_exec_D [OF step(1) w1(2)] w1 by auto
    from step(2) show ?thesis
    proof (cases rule: seq_actE)
      case (err e)
      with tx_exec_D [OF err(1) s1(2)] w' s1 show ?thesis by auto
    next
      case (step b s2)
      obtain d2 where s2: "st2 a d1 = Inr (b, d2)" "w_tx s2 = Some d2" "w_db s2 = w_db w" "w_clock s2 = w_clock w"
        using tx_exec_D [OF step(1) s1(2)] s1 by auto
      from step(2) show ?thesis
      proof (cases rule: seq_actE)
        case (err e)
        with commit_D [OF err(1) s2(2)] w' s2 show ?thesis by auto
      next
        case (step x s3)
        with commit_D [OF step(1) s2(2)] s1 s2 w' show ?thesis by auto
      qed
    qed
  qed
qed

section \<open>What an insert did\<close>

lemma insert_user_Inr:
  assumes "insert_user h now d = Inr (a, d')"
  obtains u where "d' = d\<lparr>users := users d @ [u]\<rparr>" and "u_id u = a" and "u_handle u = h"
    and "a = next_id (map u_id (users d))" and "nocase h \<notin> (nocase \<circ> u_handle) ` set (users d)"
    and "u_is_admin u = 0" and "u_is_suspended u = 0"
proof -
  let ?u = "\<lparr>u_id = next_id (map u_id (users d)), u_handle = h, u_display_name = [], u_bio = [], u_pronouns = [],
    u_is_admin = 0, u_is_suspended = 0, u_created_at = now, u_last_seen_at = None\<rparr>"
  have "d' = d\<lparr>users := users d @ [?u]\<rparr> \<and> a = next_id (map u_id (users d)) \<and> nocase h \<notin> (nocase \<circ> u_handle) ` set (users d)"
    using assms by (auto simp: insert_user_def Let_def split: if_splits)
  then show thesis by (intro that [of ?u]) simp_all
qed

lemma insert_key_Inr:
  assumes "insert_key uid fp pub label now d = Inr (a, d')"
  obtains k where "d' = d\<lparr>user_keys := user_keys d @ [k]\<rparr>" and "k_user_id k = uid" and "k_fingerprint k = fp"
    and "k_public_key k = pub" and "fp \<notin> k_fingerprint ` set (user_keys d)" and "user_exists d uid"
proof -
  let ?k = "\<lparr>k_id = next_id (map k_id (user_keys d)), k_user_id = uid, k_fingerprint = fp, k_public_key = pub,
    k_label = label, k_added_at = now\<rparr>"
  have "d' = d\<lparr>user_keys := user_keys d @ [?k]\<rparr> \<and> fp \<notin> k_fingerprint ` set (user_keys d) \<and> user_exists d uid"
    using assms by (auto simp: insert_key_def Let_def split: if_splits)
  then show thesis by (intro that [of ?k]) simp_all
qed

lemma insert_room_Inr:
  assumes "insert_room name priv owner now d = Inr (a, d')"
  obtains r where "d' = d\<lparr>rooms := rooms d @ [r]\<rparr>" and "r_id r = a" and "r_name r = name" and "r_is_private r = priv"
    and "r_created_by r = owner" and "r_deleted_at r = None" and "a = next_id (map r_id (rooms d))"
    and "nocase name \<notin> (nocase \<circ> r_name) ` set (rooms d)" and "user_exists d owner"
proof -
  let ?r = "\<lparr>r_id = next_id (map r_id (rooms d)), r_name = name, r_topic = [], r_is_private = priv,
    r_created_by = owner, r_created_at = now, r_deleted_at = None\<rparr>"
  have "d' = d\<lparr>rooms := rooms d @ [?r]\<rparr> \<and> a = next_id (map r_id (rooms d)) \<and> nocase name \<notin> (nocase \<circ> r_name) ` set (rooms d) \<and> user_exists d owner"
    using assms by (auto simp: insert_room_def Let_def split: if_splits)
  then show thesis by (intro that [of ?r]) simp_all
qed

lemma insert_member_Inr:
  assumes "insert_member rid uid role now d = Inr (a, d')"
  obtains m where "d' = d\<lparr>room_members := room_members d @ [m]\<rparr>" and "member_key m = (rid, uid)" and "m_role m = role"
    and "role_check role" and "(rid, uid) \<notin> member_key ` set (room_members d)" and "room_exists d rid" and "user_exists d uid"
proof -
  let ?m = "\<lparr>m_room_id = rid, m_user_id = uid, m_role = role, m_joined_at = now\<rparr>"
  have "d' = d\<lparr>room_members := room_members d @ [?m]\<rparr> \<and> role_check role \<and> (rid, uid) \<notin> member_key ` set (room_members d) \<and> room_exists d rid \<and> user_exists d uid"
    using assms by (auto simp: insert_member_def split: if_splits)
  then show thesis by (intro that [of ?m]) simp_all
qed

lemma insert_message_Inr:
  assumes "insert_message kind rid x y author body now d = Inr (a, d')"
  obtains g where "d' = d\<lparr>messages := messages d @ [g], messages_fts := messages_fts d @ [(a, body)]\<rparr>"
    and "a = next_id (map g_id (messages d))" and "g_id g = a" and "g_kind g = kind" and "g_room_id g = rid"
    and "g_peer_a g = x" and "g_peer_b g = y" and "g_author_id g = author" and "g_body g = body"
    and "g_created_at g = now" and "g_deleted_at g = None" and "g_deleted_by g = None" and "user_exists d author"
proof -
  let ?g = "\<lparr>g_id = next_id (map g_id (messages d)), g_kind = kind, g_room_id = rid, g_peer_a = x, g_peer_b = y,
    g_author_id = author, g_body = body, g_created_at = now, g_deleted_at = None, g_deleted_by = None\<rparr>"
  have "d' = d\<lparr>messages := messages d @ [?g], messages_fts := messages_fts d @ [(a, body)]\<rparr> \<and> a = next_id (map g_id (messages d)) \<and> user_exists d author"
    using assms by (auto simp: insert_message_def Let_def split: if_splits)
  then show thesis by (intro that [of ?g]) simp_all
qed

lemma insert_notification_Inr:
  assumes "insert_notification uid kind mid rid now d = Inr (a, d')"
  obtains n where "d' = d\<lparr>notifications := notifications d @ [n]\<rparr>" and "n_id n = a" and "n_user_id n = uid"
    and "n_kind n = kind" and "n_message_id n = mid" and "n_room_id n = rid" and "n_read_at n = None"
    and "a = next_id (map n_id (notifications d))"
proof -
  let ?n = "\<lparr>n_id = next_id (map n_id (notifications d)), n_user_id = uid, n_kind = kind, n_message_id = mid,
    n_room_id = rid, n_created_at = now, n_read_at = None\<rparr>"
  have "d' = d\<lparr>notifications := notifications d @ [?n]\<rparr> \<and> a = next_id (map n_id (notifications d))"
    using assms by (auto simp: insert_notification_def Let_def split: if_splits)
  then show thesis by (intro that [of ?n]) simp_all
qed

text \<open>The loop over the rows, when every row scans: a prefix of the rows, all of them when no error came.\<close>

lemma scan_rows_D:
  assumes "\<And>row. scan row = Some (f row)" and "scan_rows scan out rows w = (r, w')"
  shows "core w' = core w \<and> (\<exists>n e. r = Inr (out @ map f (take n rows), e) \<and> (e = None \<longrightarrow> length rows \<le> n))"
  using assms(2)
proof (induction rows arbitrary: out w)
  case Nil
  obtain q w1 where d: "driver w = (q, w1)" by force
  with Nil driver_D [OF d] show ?case by (auto simp: seq_act_def attempt_def ok_def split: sum.splits)
next
  case (Cons row rows)
  obtain q w1 where d: "driver w = (q, w1)" by force
  show ?case
  proof (cases q)
    case (Inl e)
    with Cons.prems d driver_D [OF d] show ?thesis
      by (auto simp: seq_act_def attempt_def ok_def intro!: exI [of _ 0])
  next
    case (Inr x)
    with Cons.prems d have "scan_rows scan (out @ [f row]) rows w1 = (r, w')"
      by (simp add: seq_act_def attempt_def assms(1) [of row])
    from Cons.IH [OF this] obtain n e where core: "core w' = core w1"
      and n: "r = Inr ((out @ [f row]) @ map f (take n rows), e)" "e = None \<longrightarrow> length rows \<le> n" by blast
    then have "r = Inr (out @ map f (take (Suc n) (row # rows)), e) \<and> (e = None \<longrightarrow> length (row # rows) \<le> Suc n)"
      by simp
    with core driver_D [OF d] show ?thesis by metis
  qed
qed

text \<open>A query whose rows are scanned.\<close>

lemma scanned_D:
  assumes "\<And>row. scan row = Some (f row)" and "seq_act (query g) (scan_rows scan []) w = (r, w')"
  shows "core w' = core w \<and> (r = Inl ErrDriver \<or>
    (\<exists>n e. r = Inr (map f (take n (g (w_db w))), e) \<and> (e = None \<longrightarrow> length (g (w_db w)) \<le> n)))"
  using assms(2)
proof (rule seq_actE)
  fix rows w1 assume q: "query g w = (Inr rows, w1)" and run: "scan_rows scan [] rows w1 = (r, w')"
  from scan_rows_D [OF assms(1) run] query_D [OF q] show ?thesis by auto
next
  fix e assume "query g w = (Inl e, w')" "r = Inl e"
  with query_D [of g w "Inl e" w'] show ?thesis by simp
qed

section \<open>Without faults\<close>

definition quiet :: "world \<Rightarrow> bool" where
  "quiet w \<longleftrightarrow> w_faults w = []"

lemma quiet_driver: "quiet w \<Longrightarrow> driver w = (Inr (), w)"
  by (simp add: quiet_def driver_def)

lemma quiet_query: "quiet w \<Longrightarrow> query f w = (Inr (f (w_db w)), w)"
  by (simp add: query_def seq_act_def quiet_driver)

lemma quiet_query_row:
  "quiet w \<Longrightarrow> query_row f w = (case f (w_db w) of None \<Rightarrow> Inl ErrNoRows | Some a \<Rightarrow> Inr a, w)"
  by (simp add: query_row_def seq_act_def quiet_query ok_def fail_def split: option.splits)

lemma quiet_scan:
  assumes "quiet w" and "\<And>row. scan row = Some (f row)"
  shows "scan_rows scan out rows w = (Inr (out @ map f rows, None), w)"
  by (induction rows arbitrary: out) (simp_all add: assms seq_act_def attempt_def quiet_driver ok_def)

lemma quiet_ListUserRooms: "quiet w \<Longrightarrow> ListUserRooms me w = (Inr (map scanRoom (rooms_of me (w_db w)), None), w)"
  using quiet_scan [of w "Some \<circ> scanRoom" scanRoom] by (simp add: ListUserRooms_def scanRooms_def seq_act_app quiet_query)

lemma quiet_exec:
  "quiet w \<Longrightarrow> exec_stmt st w = (case st (w_db w) of Inl e \<Rightarrow> (Inl e, w) | Inr (a, d) \<Rightarrow> (Inr a, w\<lparr>w_db := d\<rparr>))"
  by (simp add: exec_stmt_def seq_act_def quiet_driver)

lemma quiet_tx_exec:
  "quiet w \<Longrightarrow> w_tx w = Some t \<Longrightarrow>
   tx_exec st w = (case st t of Inl e \<Rightarrow> (Inl e, w) | Inr (a, d) \<Rightarrow> (Inr a, w\<lparr>w_tx := Some d\<rparr>))"
  by (simp add: tx_exec_def seq_act_def quiet_driver)

lemma quiet_commit: "quiet w \<Longrightarrow> w_tx w = Some t \<Longrightarrow> commit_tx w = (Inr (), w\<lparr>w_db := t, w_tx := None\<rparr>)"
  by (simp add: commit_tx_def seq_act_def quiet_driver)

lemma quiet_in_tx: "quiet w \<Longrightarrow> in_tx m w = with_rollback m (w\<lparr>w_tx := Some (w_db w)\<rparr>)"
  by (simp add: in_tx_def begin_tx_def seq_act_def quiet_driver)

lemma quiet_updates [simp]:
  "quiet (w\<lparr>w_db := d\<rparr>) = quiet w" "quiet (w\<lparr>w_tx := t\<rparr>) = quiet w" "quiet (w\<lparr>w_clock := c\<rparr>) = quiet w"
  by (simp_all add: quiet_def)

lemma quiet_now: "now_unix w = (Inr (w_clock w), w)"
  by (simp add: now_unix_def)

lemmas quiet_run = quiet_driver quiet_query quiet_query_row quiet_exec quiet_tx_exec quiet_commit quiet_in_tx
  quiet_now seq_act_app attempt_app ok_app fail_app with_rollback_def

section \<open>Frames\<close>

lemma frames_driver [inv_intros]: "frames core driver"
  by (simp add: frames_def driver_def core_def split: list.splits)

lemma frames_now [inv_intros]: "frames core now_unix"
  by (simp add: frames_def now_unix_def)

lemma frames_query [inv_intros]: "frames core (query f)"
  unfolding query_def by (intro inv_intros) (simp add: frames_def)

lemma frames_query_row [inv_intros]: "frames core (query_row f)"
  unfolding query_row_def by (intro inv_intros)

lemma frames_scan_rows [inv_intros]: "frames core (scan_rows scan out rows)"
  by (induction rows arbitrary: out) (auto intro!: inv_intros split: sum.splits option.splits)

lemma frames_scanRooms [inv_intros]: "frames core (scanRooms rows)"
  unfolding scanRooms_def by (rule frames_scan_rows)

lemma frames_scanMessages [inv_intros]: "frames core (scanMessages rows)"
  unfolding scanMessages_def by (rule frames_scan_rows)

lemma frames_whole [inv_intros]: "frames core (whole p)"
  unfolding whole_def by (intro inv_intros)

lemma frames_for_each [inv_intros]: "(\<And>x. frames v (f x)) \<Longrightarrow> frames v (for_each f xs)"
  by (induction xs) (auto intro!: inv_intros)

lemma frames_IsMember [inv_intros]: "frames core (IsMember rid uid)"
  unfolding IsMember_def by (intro inv_intros)

lemma frames_require_member [inv_intros]: "frames core m \<Longrightarrow> frames core (require_member rid uid m)"
  unfolding require_member_def by (intro inv_intros)

lemma frames_unread_loop [inv_intros]: "frames core (unread_loop uid ns c)"
  by (induction uid ns c rule: unread_loop.induct)
     (auto simp: Let_def intro!: inv_intros split: option.splits)

lemma frames_canReadMessage [inv_intros]: "frames core (canReadMessage uid msg)"
  unfolding canReadMessage_def by (intro inv_intros)

text \<open>The methods that only read.\<close>

lemma reads_frame:
  "frames core (UserByFingerprint fp)" "frames core (UserByHandle h)" "frames core (UserByID uid)"
  "frames core (UserKeys uid)" "frames core (RoomByName name)" "frames core (RoomByID rid)"
  "frames core ListPublicRooms" "frames core (ListUserRooms uid)" "frames core (RoomMembers rid)"
  "frames core (RoomMembersForUser uid rid)" "frames core (MessageByID mid)" "frames core (MessageByIDForUser uid mid)"
  "frames core (RoomHistory rid limit)" "frames core (RoomHistoryForUser uid rid limit)"
  "frames core (DMHistory uid peer limit)" "frames core (DMHistoryForUser uid peer limit)"
  "frames core (SearchRoom fts rid q limit)" "frames core (SearchRoomForUser fts uid rid q limit)"
  "frames core (BlockedIDs uid)" "frames core (IsBlocked uid peer)" "frames core (ListNotifications uid limit)"
  "frames core (UnreadCounts uid)" "frames core (CountRoomCreates uid secs)" "frames core (ResolveHandles hs)"
  "frames core (DMPeers uid)" "frames core Store_Stats"
  unfolding UserByFingerprint_def UserByHandle_def UserByID_def UserKeys_def RoomByName_def RoomByID_def
    ListPublicRooms_def ListUserRooms_def RoomMembers_def RoomMembersForUser_def MessageByID_def MessageByIDForUser_def
    RoomHistory_def RoomHistoryForUser_def DMHistory_def DMHistoryForUser_def SearchRoom_def SearchRoomForUser_def
    BlockedIDs_def IsBlocked_def ListNotifications_def UnreadCounts_def CountRoomCreates_def ResolveHandles_def
    DMPeers_def Store_Stats_def
  by (intro inv_intros)+

section \<open>No transaction is left open\<close>

definition idle :: "world \<Rightarrow> bool" where
  "idle w \<longleftrightarrow> w_tx w = None"

lemma keeps_core: "frames core m \<Longrightarrow> keeps idle m"
  by (simp add: frames_def keeps_def core_def idle_def)

lemma keeps_idle_exec [inv_intros]: "keeps idle (exec_stmt st)"
  unfolding exec_stmt_def
  by (intro inv_intros keeps_core [OF frames_driver]) (auto simp: keeps_def idle_def split: sum.splits)

lemma keeps_idle_in_tx [inv_intros]: "keeps idle (in_tx m)"
proof (rule keepsI)
  fix w assume "idle w"
  then show "idle (snd (in_tx m w))"
    using in_tx_D [of m w "fst (in_tx m w)" "snd (in_tx m w)"] by (auto simp: idle_def core_eq)
qed

lemmas keeps_idle_reads [inv_intros] =
  keeps_core [OF frames_now] keeps_core [OF frames_query] keeps_core [OF frames_query_row]
  keeps_core [OF frames_IsMember] keeps_core [OF frames_canReadMessage]

lemma keeps_idle_require [inv_intros]: "keeps idle m \<Longrightarrow> keeps idle (require_member rid uid m)"
  unfolding require_member_def by (intro inv_intros)

lemma methods_idle:
  "keeps idle (CreateUser handle fp pub)" "keeps idle (AddKey uid fp pub label)"
  "keeps idle (UpdateProfile uid dn bio pr)" "keeps idle (TouchLastSeen uid)"
  "keeps idle (SetAdmin handle on)" "keeps idle (SetSuspended handle on)"
  "keeps idle (CreateRoom name private owner)" "keeps idle (Store_JoinRoom rid uid)"
  "keeps idle (Store_LeaveRoom rid uid)" "keeps idle (SetTopic rid topic)" "keeps idle (DeleteRoom rid)"
  "keeps idle (Promote rid uid role)" "keeps idle (BanFromRoom rid uid by_user reason)" "keeps idle (KickFromRoom rid uid)"
  "keeps idle (InsertRoomMessage rid uid body ms)" "keeps idle (InsertDM uid peer body)"
  "keeps idle (DeleteMessage mid uid)" "keeps idle (DeleteMessageForUser mid uid adm)"
  "keeps idle (Block uid peer)" "keeps idle (Unblock uid peer)" "keeps idle (MarkRoomRead uid rid)"
  "keeps idle (MarkDMRead uid peer)" "keeps idle (Report uid kind target reason)"
  "keeps idle (ReportMessageForUser uid mid reason)" "keeps idle (PurgeDeletedOlderThan secs)"
  unfolding CreateUser_def AddKey_def UpdateProfile_def TouchLastSeen_def SetAdmin_def SetSuspended_def CreateRoom_def
    Store_JoinRoom_def Store_LeaveRoom_def SetTopic_def DeleteRoom_def Promote_def BanFromRoom_def KickFromRoom_def
    InsertRoomMessage_def InsertDM_def DeleteMessage_def DeleteMessageForUser_def Block_def Unblock_def MarkRoomRead_def
    MarkDMRead_def ReportMessageForUser_def Report_def PurgeDeletedOlderThan_def MessageByID_def IsBlocked_def UserByID_def
  by (intro inv_intros)+

lemma step_idle:
  assumes "store_step w w'" and "idle w"
  shows "idle w'"
  using assms
  by (cases rule: store_step.cases) (simp add: idle_def, (erule keeps_pairD [rotated 2], rule methods_idle, assumption)+)

lemma empty_db_ok: "db_ok empty_db"
  by (simp add: db_ok_defs empty_db_def)

lemma store_reach_ok: "store_reach w \<Longrightarrow> db_ok (w_db w) \<and> idle w"
proof (induction rule: store_reach.induct)
  case reach_init
  then show ?case by (simp add: empty_world_def empty_db_ok idle_def)
next
  case (reach_step w w')
  then have "world_inv db_ok w" by (simp add: world_inv_def idle_def)
  then have "world_inv db_ok w'" using schema.step_keeps reach_step by blast
  with reach_step show ?case by (auto simp: world_inv_def intro: step_idle)
qed

end
