(* ===== verification/StoreProps.thy ===== *)
theory StoreProps
  imports StoreExec
begin

text \<open>
  Properties of the store's users and rooms: the schema and the history of the database over all
  runs, all-or-nothing creation and banning, and who can be in a room.
\<close>

section \<open>Small databases for the witnesses\<close>

definition ann_row :: user_row where
  "ann_row = \<lparr>u_id = 1, u_handle = ''ann'', u_display_name = [], u_bio = [], u_pronouns = [], u_is_admin = 0,
     u_is_suspended = 0, u_created_at = 5, u_last_seen_at = None\<rparr>"

definition bob_row :: user_row where
  "bob_row = ann_row\<lparr>u_id := 2, u_handle := ''bob''\<rparr>"

definition lobby_row :: room_row where
  "lobby_row = \<lparr>r_id = 1, r_name = ''lobby'', r_topic = [], r_is_private = 0, r_created_by = 1,
     r_created_at = 5, r_deleted_at = None\<rparr>"

definition member_of :: "int \<Rightarrow> int \<Rightarrow> string \<Rightarrow> member_row" where
  "member_of rid uid role = \<lparr>m_room_id = rid, m_user_id = uid, m_role = role, m_joined_at = 5\<rparr>"

text \<open>ann owns the lobby and bob has joined it.\<close>

definition demo_db :: database where
  "demo_db = empty_db\<lparr>users := [ann_row, bob_row], rooms := [lobby_row],
     room_members := [member_of 1 1 ''owner'', member_of 1 2 ''member'']\<rparr>"

definition demo :: world where
  "demo = \<lparr>w_db = demo_db, w_tx = None, w_clock = 9, w_faults = []\<rparr>"

lemmas demo_defs = demo_def demo_db_def empty_db_def ann_row_def bob_row_def lobby_row_def member_of_def

lemma demo_simps [simp]:
  "w_db demo = demo_db" "w_tx demo = None" "w_clock demo = 9" "w_faults demo = []"
  "users demo_db = [ann_row, bob_row]" "user_keys demo_db = []" "rooms demo_db = [lobby_row]"
  "room_members demo_db = [member_of 1 1 ''owner'', member_of 1 2 ''member'']" "room_bans demo_db = []"
  "messages demo_db = []" "mentions demo_db = []" "blocks demo_db = []" "notifications demo_db = []"
  "reports demo_db = []" "messages_fts demo_db = []"
  "u_id ann_row = 1" "u_id bob_row = 2" "u_handle ann_row = ''ann''" "u_handle bob_row = ''bob''"
  "r_id lobby_row = 1" "r_name lobby_row = ''lobby''" "r_deleted_at lobby_row = None"
  "member_key (member_of r u ro) = (r, u)" "m_role (member_of r u ro) = ro" "m_room_id (member_of r u ro) = r"
  "m_user_id (member_of r u ro) = u" "quiet demo"
  by (simp_all add: demo_defs member_key_def quiet_def)

lemma next_id_neq: "x \<in> set xs \<Longrightarrow> f x \<noteq> next_id (map f xs)"
  using next_id_fresh_image [of f xs] by (metis imageI)

section \<open>The schema and the history\<close>

text \<open>C8. Whatever methods run, in any order, with any arguments and with any statement failing, the
  database satisfies its schema (rowids, uniqueness, foreign keys, roles and kinds, the full-text
  index in step with the messages) and no transaction is left open between calls.\<close>

theorem store_keeps_schema:
  assumes "store_reach w"
  shows "db_ok (w_db w) \<and> w_tx w = None"
  using store_reach_ok [OF assms] by (simp add: idle_def)

theorem store_keeps_schema_witness: "db_ok (w_db empty_world) \<and> w_tx empty_world = None"
  using store_keeps_schema [OF reach_init] .

text \<open>The history of the database: from one reachable world to any later one users and rooms stay
  with their ids, handles and names, keys stay bound to their user, a deleted room stays deleted,
  and reports are only added.\<close>

theorem store_history:
  assumes "store_reach w" and "store_step\<^sup>*\<^sup>* w w'"
  shows "grew (w_db w) (w_db w')"
proof -
  have "world_inv (grew (w_db w)) w" using store_reach_ok [OF assms(1)] by (simp add: world_inv_def idle_def)
  then have "world_inv (grew (w_db w)) w'" using history.steps_keep assms(2) by blast
  then show ?thesis by (simp add: world_inv_def)
qed

theorem store_history_witness:
  "grew (w_db empty_world) (w_db (empty_world\<lparr>w_clock := 7, w_faults := [True]\<rparr>))"
  using store_history [OF reach_init, of "empty_world\<lparr>w_clock := 7, w_faults := [True]\<rparr>"] step_env by blast

section \<open>Creating users and rooms\<close>

text \<open>C9. \<open>CreateUser\<close> is all or nothing: either nothing is committed and an error comes back, or
  exactly one user with the handle and one key bound to it are, and the result is that user, or
  the driver's error when the final read fails after the commit.\<close>

theorem CreateUser_atomic:
  assumes "CreateUser handle fp pub w = (r, w')"
  shows "(w_db w' = w_db w \<and> \<not> is_ok r) \<or>
    (\<exists>u k. w_db w' = (w_db w)\<lparr>users := users (w_db w) @ [u], user_keys := user_keys (w_db w) @ [k]\<rparr> \<and>
       u_handle u = handle \<and> k_fingerprint k = fp \<and> k_public_key k = pub \<and> k_user_id k = u_id u \<and>
       nocase handle \<notin> (nocase \<circ> u_handle) ` set (users (w_db w)) \<and>
       fp \<notin> k_fingerprint ` set (user_keys (w_db w)) \<and> (r = Inr (scanUser u) \<or> r = Inl ErrDriver))"
proof -
  have "in_tx (seq_act (tx_exec (insert_user handle (w_clock w))) (\<lambda>uid.
      seq_act (tx_exec (insert_key uid fp pub [] (w_clock w))) (\<lambda>_. seq_act commit_tx (\<lambda>_. UserByID uid)))) w = (r, w')"
    using assms by (simp add: CreateUser_def in_tx_now)
  from two_stmt_tx [OF this] show ?thesis
  proof
    assume "\<exists>a d1 b d2 w3 w4. insert_user handle (w_clock w) (w_db w) = Inr (a, d1) \<and>
      insert_key a fp pub [] (w_clock w) d1 = Inr (b, d2) \<and> w_db w3 = d2 \<and> w_clock w3 = w_clock w \<and>
      UserByID a w3 = (r, w4) \<and> w_db w' = w_db w4"
    then obtain a d1 b d2 w3 w4 where st: "insert_user handle (w_clock w) (w_db w) = Inr (a, d1)"
      "insert_key a fp pub [] (w_clock w) d1 = Inr (b, d2)" "w_db w3 = d2" "UserByID a w3 = (r, w4)" "w_db w' = w_db w4"
      by blast
    obtain u where u: "d1 = (w_db w)\<lparr>users := users (w_db w) @ [u]\<rparr>" "u_id u = a" "u_handle u = handle"
      "a = next_id (map u_id (users (w_db w)))" "nocase handle \<notin> (nocase \<circ> u_handle) ` set (users (w_db w))"
      using st(1) by (rule insert_user_Inr)
    obtain k where k: "d2 = d1\<lparr>user_keys := user_keys d1 @ [k]\<rparr>" "k_user_id k = a" "k_fingerprint k = fp"
      "k_public_key k = pub" "fp \<notin> k_fingerprint ` set (user_keys d1)"
      using st(2) by (rule insert_key_Inr)
    have "find (\<lambda>v. u_id v = a) (users (w_db w)) = None"
      using next_id_fresh [of "map u_id (users (w_db w))"] by (simp add: find_None_map u(4))
    then have "find (\<lambda>v. u_id v = a) (users d2) = Some u" by (simp add: u(1,2) k(1) find_append)
    then have "r = Inl ErrDriver \<or> r = Inr (scanUser u)" "w_db w4 = d2"
      using query_row_D [OF st(4) [unfolded UserByID_def]] st(3) by (auto simp: core_eq)
    with u k st(5) show ?thesis by (intro disjI2 exI [of _ u] exI [of _ k]) auto
  qed blast
qed

lemma CreateUser_quiet:
  assumes "quiet w" and "nocase handle \<notin> (nocase \<circ> u_handle) ` set (users (w_db w))"
    and "fp \<notin> k_fingerprint ` set (user_keys (w_db w))"
  shows "is_ok (fst (CreateUser handle fp pub w))"
proof -
  have "find (\<lambda>v. u_id v = next_id (map u_id (users (w_db w)))) (users (w_db w)) = None"
    using next_id_fresh [of "map u_id (users (w_db w))"] by (simp add: find_None_map)
  then show ?thesis
    using assms
    by (simp add: CreateUser_def quiet_run insert_user_def insert_key_def Let_def user_exists_def UserByID_def find_append)
qed

theorem CreateUser_atomic_witness:
  "\<exists>u. users (w_db (snd (CreateUser ''cy'' ''f'' ''k'' demo))) = [ann_row, bob_row, u] \<and> u_handle u = ''cy''"
proof -
  have "is_ok (fst (CreateUser ''cy'' ''f'' ''k'' demo))"
    by (rule CreateUser_quiet) (simp_all add: nocase_def)
  moreover obtain r w' where run: "CreateUser ''cy'' ''f'' ''k'' demo = (r, w')" by force
  ultimately show ?thesis using CreateUser_atomic [OF run] by auto
qed

text \<open>\<open>CreateRoom\<close> is all or nothing: a committed room has its owner as a member with the role
  owner, its name was free (ignoring case), and no other row of the database changes.\<close>

theorem CreateRoom_atomic:
  assumes "CreateRoom name private owner w = (r, w')"
  shows "(w_db w' = w_db w \<and> \<not> is_ok r) \<or>
    (\<exists>room m. w_db w' = (w_db w)\<lparr>rooms := rooms (w_db w) @ [room], room_members := room_members (w_db w) @ [m]\<rparr> \<and>
       r_name room = name \<and> (r_is_private room \<noteq> 0 \<longleftrightarrow> private) \<and> r_created_by room = owner \<and>
       member_key m = (r_id room, owner) \<and> m_role m = RoleOwner \<and>
       nocase name \<notin> (nocase \<circ> r_name) ` set (rooms (w_db w)) \<and> (r = Inr (scanRoom room) \<or> r = Inl ErrDriver))"
proof -
  have "in_tx (seq_act (tx_exec (insert_room name (sql_bool private) owner (w_clock w))) (\<lambda>rid.
      seq_act (tx_exec (insert_member rid owner ''owner'' (w_clock w))) (\<lambda>_. seq_act commit_tx (\<lambda>_. RoomByID rid)))) w = (r, w')"
    using assms by (simp add: CreateRoom_def now_seq)
  from two_stmt_tx [OF this] show ?thesis
  proof
    assume "\<exists>a d1 b d2 w3 w4. insert_room name (sql_bool private) owner (w_clock w) (w_db w) = Inr (a, d1) \<and>
      insert_member a owner ''owner'' (w_clock w) d1 = Inr (b, d2) \<and> w_db w3 = d2 \<and> w_clock w3 = w_clock w \<and>
      RoomByID a w3 = (r, w4) \<and> w_db w' = w_db w4"
    then obtain a d1 b d2 w3 w4 where st: "insert_room name (sql_bool private) owner (w_clock w) (w_db w) = Inr (a, d1)"
      "insert_member a owner ''owner'' (w_clock w) d1 = Inr (b, d2)" "w_db w3 = d2" "RoomByID a w3 = (r, w4)" "w_db w' = w_db w4"
      by blast
    obtain room where room: "d1 = (w_db w)\<lparr>rooms := rooms (w_db w) @ [room]\<rparr>" "r_id room = a" "r_name room = name"
      "r_is_private room = sql_bool private" "r_created_by room = owner" "r_deleted_at room = None"
      "a = next_id (map r_id (rooms (w_db w)))" "nocase name \<notin> (nocase \<circ> r_name) ` set (rooms (w_db w))"
      using st(1) by (rule insert_room_Inr)
    obtain m where m: "d2 = d1\<lparr>room_members := room_members d1 @ [m]\<rparr>" "member_key m = (a, owner)" "m_role m = ''owner''"
      using st(2) by (rule insert_member_Inr)
    have "find (\<lambda>x. r_id x = a \<and> r_deleted_at x = None) (rooms (w_db w)) = None"
      by (auto simp: find_None_iff room(7) next_id_neq)
    then have "find (\<lambda>x. r_id x = a \<and> r_deleted_at x = None) (rooms d2) = Some room"
      by (simp add: room(1,2,6) m(1) find_append)
    then have "r = Inl ErrDriver \<or> r = Inr (scanRoom room)" "w_db w4 = d2"
      using query_row_D [OF st(4) [unfolded RoomByID_def]] st(3) by (auto simp: core_eq)
    with room m st(5) show ?thesis
      by (intro disjI2 exI [of _ room] exI [of _ m]) (auto simp: sql_bool_def RoleOwner_def)
  qed blast
qed

lemma CreateRoom_quiet:
  assumes "quiet w" and "nocase name \<notin> (nocase \<circ> r_name) ` set (rooms (w_db w))" and "user_exists (w_db w) owner"
    and "fk_ok (w_db w)"
  shows "is_ok (fst (CreateRoom name private owner w))"
proof -
  let ?a = "next_id (map r_id (rooms (w_db w)))"
  have new: "?a \<notin> r_id ` set (rooms (w_db w))" by (rule next_id_fresh_image)
  then have find: "find (\<lambda>x. r_id x = ?a \<and> r_deleted_at x = None) (rooms (w_db w)) = None"
    by (auto simp: find_None_iff next_id_neq)
  have "(?a, owner) \<notin> member_key ` set (room_members (w_db w))"
  proof
    assume "(?a, owner) \<in> member_key ` set (room_members (w_db w))"
    then obtain m where m: "m \<in> set (room_members (w_db w))" "m_room_id m = ?a" by (auto simp: member_key_def)
    have "member_fk (w_db w) m" using assms(4) m(1) by (simp add: fk_ok_def)
    then have "?a \<in> r_id ` set (rooms (w_db w))" unfolding member_fk_def room_exists_def m(2) by blast
    with new show False by contradiction
  qed
  then show ?thesis
    using assms(1-3) find
    by (simp add: CreateRoom_def now_seq quiet_run insert_room_def insert_member_def Let_def role_check_def
        room_exists_def RoomByID_def find_append)
qed

lemma demo_ok: "db_ok demo_db"
  by (simp add: db_ok_defs fk_defs exists_defs role_check_def serial_def) (simp add: nocase_def lobby_row_def ascii_lower_def)

theorem CreateRoom_atomic_witness:
  "\<exists>room. rooms (w_db (snd (CreateRoom ''go'' True 2 demo))) = [lobby_row, room] \<and> r_name room = ''go''"
proof -
  have "is_ok (fst (CreateRoom ''go'' True 2 demo))"
    using demo_ok by (intro CreateRoom_quiet) (simp_all add: nocase_def user_exists_def db_ok_def)
  moreover obtain r w' where run: "CreateRoom ''go'' True 2 demo = (r, w')" by force
  ultimately show ?thesis using CreateRoom_atomic [OF run] by auto
qed

text \<open>A deleted room's name is lost for good: from then on no room can be created under it
  (ignoring case), and nothing is committed by trying, whatever ran in between.\<close>

theorem deleted_name_is_lost:
  assumes "store_reach w" and "r \<in> set (rooms (w_db w))" and "r_deleted_at r \<noteq> None"
    and "store_step\<^sup>*\<^sup>* w w'" and "nocase name = nocase (r_name r)"
  shows "\<not> is_ok (fst (CreateRoom name private owner w')) \<and> w_db (snd (CreateRoom name private owner w')) = w_db w'
    \<and> \<not> is_ok (fst (RoomByName name w'))"
proof -
  have "store_reach w'" using assms(4,1) by (induction rule: rtranclp_induct) (auto intro: reach_step)
  then have ok: "db_ok (w_db w')" using store_reach_ok by blast
  have grew: "grew (w_db w) (w_db w')" using assms(1,4) store_reach_ok [OF assms(1)] history.steps_keep [of w w' "w_db w"]
    by (simp add: world_inv_def idle_def)
  then have pre: "prefix (room_cols (w_db w)) (room_cols (w_db w'))"
    and dead: "dead_rooms (w_db w) \<subseteq> dead_rooms (w_db w')" by (simp_all add: grew_def)
  have "r_id r \<in> dead_rooms (w_db w)" using assms(2,3) unfolding dead_rooms_def by blast
  with dead have "r_id r \<in> dead_rooms (w_db w')" by (rule subsetD)
  then obtain q where q: "q \<in> set (rooms (w_db w'))" "r_deleted_at q \<noteq> None" "r_id r = r_id q"
    unfolding dead_rooms_def by (elim imageE CollectE conjE) (rule that)
  have "(r_id r, r_name r, r_created_by r) \<in> set (room_cols (w_db w))" using assms(2) by (auto simp: room_cols_def)
  then have "(r_id r, r_name r, r_created_by r) \<in> set (room_cols (w_db w'))"
    using set_mono_prefix [OF pre] by blast
  then obtain p where p: "p \<in> set (rooms (w_db w'))" "r_id p = r_id r" "r_name p = r_name r"
    by (auto simp: room_cols_def)
  have ids: "distinct (map r_id (rooms (w_db w')))" using ok by (simp add: db_ok_def ids_ok_def serial_distinct)
  have "r_id p = r_id q" using p(2) q(3) by (rule trans)
  then have "p = q" by (rule distinct_map_eqD [OF ids p(1) q(1)])
  have "nocase name = (nocase \<circ> r_name) p" using p(3) assms(5) by simp
  then have taken: "nocase name \<in> (nocase \<circ> r_name) ` set (rooms (w_db w'))" using p(1) by blast
  obtain r' w'' where run: "CreateRoom name private owner w' = (r', w'')" by force
  have "w_db w'' = w_db w' \<and> \<not> is_ok r'" using CreateRoom_atomic [OF run] taken by blast
  moreover have "find (\<lambda>x. nocase (r_name x) = nocase name \<and> r_deleted_at x = None) (rooms (w_db w')) = None"
  proof -
    have "distinct (map (nocase \<circ> r_name) (rooms (w_db w')))" using ok by (simp add: db_ok_def unique_ok_def)
    then have "x \<in> set (rooms (w_db w')) \<Longrightarrow> nocase (r_name x) = nocase name \<Longrightarrow> x = q" for x
      using distinct_map_eqD [of "nocase \<circ> r_name" "rooms (w_db w')" x p] p assms(5) \<open>p = q\<close> by simp
    with q(2) show ?thesis by (auto simp: find_None_iff)
  qed
  moreover obtain r2 w2 where byname: "RoomByName name w' = (r2, w2)" by force
  ultimately have "\<not> is_ok r2" using query_row_D [OF byname [unfolded RoomByName_def]] by auto
  with run byname \<open>w_db w'' = w_db w' \<and> \<not> is_ok r'\<close> show ?thesis by simp
qed

text \<open>A run: ann signs up, opens the lobby and deletes it.\<close>

definition ann_world :: world where
  "ann_world = snd (CreateUser ''ann'' ''f'' ''k'' empty_world)"

definition lobby_world :: world where
  "lobby_world = snd (CreateRoom ''lobby'' False 1 ann_world)"

definition closed_world :: world where
  "closed_world = snd (DeleteRoom 1 lobby_world)"

lemma snd_step: "(\<And>r w'. m w = (r, w') \<Longrightarrow> store_step w w') \<Longrightarrow> store_reach w \<Longrightarrow> store_reach (snd (m w))"
  by (metis prod.collapse reach_step)

lemma run_reach: "store_reach ann_world" "store_reach lobby_world" "store_reach closed_world"
proof -
  show 1: "store_reach ann_world"
    unfolding ann_world_def by (rule snd_step [OF _ reach_init]) (rule step_CreateUser)
  show 2: "store_reach lobby_world"
    unfolding lobby_world_def by (rule snd_step [OF _ 1]) (rule step_CreateRoom)
  show "store_reach closed_world"
    unfolding closed_world_def by (rule snd_step [OF _ 2]) (rule step_DeleteRoom)
qed

lemma ann_world_eq: "ann_world = empty_world\<lparr>w_db := empty_db\<lparr>users := [ann_row\<lparr>u_created_at := 0\<rparr>],
    user_keys := [\<lparr>k_id = 1, k_user_id = 1, k_fingerprint = ''f'', k_public_key = ''k'', k_label = [], k_added_at = 0\<rparr>]\<rparr>\<rparr>"
  by (simp add: ann_world_def CreateUser_def quiet_run empty_world_def quiet_def empty_db_def insert_user_def
      insert_key_def next_id_def user_exists_def UserByID_def Let_def ann_row_def)

lemma lobby_world_eq: "lobby_world = ann_world\<lparr>w_db := (w_db ann_world)\<lparr>rooms := [lobby_row\<lparr>r_created_at := 0\<rparr>],
    room_members := [\<lparr>m_room_id = 1, m_user_id = 1, m_role = ''owner'', m_joined_at = 0\<rparr>]\<rparr>\<rparr>"
  by (simp add: lobby_world_def CreateRoom_def quiet_run ann_world_eq empty_world_def quiet_def empty_db_def
      insert_room_def insert_member_def role_check_def room_exists_def next_id_def user_exists_def RoomByID_def Let_def
      lobby_row_def sql_bool_def ann_row_def)

lemma closed_world_eq: "closed_world = lobby_world\<lparr>w_db := (w_db lobby_world)\<lparr>rooms :=
    [lobby_row\<lparr>r_created_at := 0, r_deleted_at := Some 0\<rparr>]\<rparr>\<rparr>"
  by (simp add: closed_world_def DeleteRoom_def quiet_run lobby_world_eq ann_world_eq empty_world_def quiet_def
      update_rooms_def lobby_row_def)

theorem deleted_name_is_lost_witness: "\<not> is_ok (fst (CreateRoom ''lobby'' False 1 closed_world))"
proof -
  have "lobby_row\<lparr>r_created_at := 0, r_deleted_at := Some 0\<rparr> \<in> set (rooms (w_db closed_world))"
    by (simp add: closed_world_eq)
  from deleted_name_is_lost [OF run_reach(3) this] show ?thesis by simp
qed

end
