(* ===== verification/StoreAccess.thy ===== *)
theory StoreAccess
  imports StoreProps
begin

text \<open>
  Who may do what: bans and membership, the reads behind a membership check, who may post, read
  and delete a message. The methods that check membership first share an interface
  (\<open>member_guarded\<close>) under which the check is proved once.
\<close>

section \<open>Membership and its check\<close>

definition member :: "database \<Rightarrow> int \<Rightarrow> int \<Rightarrow> bool" where
  "member d rid uid \<longleftrightarrow> (rid, uid) \<in> member_key ` set (room_members d)"

definition banned :: "database \<Rightarrow> int \<Rightarrow> int \<Rightarrow> bool" where
  "banned d rid uid \<longleftrightarrow> (rid, uid) \<in> ban_key ` set (room_bans d)"

lemma member_role_None: "member_role rid uid d = None \<longleftrightarrow> \<not> member d rid uid"
  by (auto simp: member_role_def member_def find_None_iff image_iff)

lemma count_bans_pos: "0 < count_bans rid uid d \<longleftrightarrow> banned d rid uid"
  by (simp add: count_bans_def banned_def image_iff filter_empty_conv) metis

lemma IsMember_D:
  assumes "IsMember rid uid w = (r, w')"
  shows "core w' = core w \<and> (r = Inl ErrDriver \<or> (\<not> member (w_db w) rid uid \<and> r = Inr (False, [])) \<or>
    (\<exists>role. member_role rid uid (w_db w) = Some role \<and> r = Inr (True, role)))"
proof -
  obtain q w1 where q: "query_row (member_role rid uid) w = (q, w1)" by force
  then show ?thesis
    using query_row_D [OF q] assms
    by (auto simp: IsMember_def seq_act_def attempt_def ok_def fail_def member_role_None [symmetric] split: option.splits)
qed

lemma IsMember_quiet:
  "quiet w \<Longrightarrow> IsMember rid uid w =
    (Inr (case member_role rid uid (w_db w) of None \<Rightarrow> (False, []) | Some role \<Rightarrow> (True, role)), w)"
  by (simp add: IsMember_def quiet_run split: option.splits)

lemma require_member_D:
  assumes "require_member rid uid m w = (r, w')"
  shows "(core w' = core w \<and> \<not> is_ok r) \<or> (member (w_db w) rid uid \<and> (\<exists>w1. core w1 = core w \<and> m w1 = (r, w')))"
proof -
  obtain q w1 where q: "IsMember rid uid w = (q, w1)" by force
  have "member_role rid uid (w_db w) = Some role \<Longrightarrow> member (w_db w) rid uid" for role
    using member_role_None [of rid uid "w_db w"] by auto
  then show ?thesis
    using IsMember_D [OF q] assms q by (auto simp: require_member_def seq_act_def fail_def)
qed

text \<open>A method of a user on a room that checks membership first.\<close>

locale member_guarded =
  fixes mtd :: "int \<Rightarrow> int \<Rightarrow> 'a io" and body :: "int \<Rightarrow> 'a io"
  assumes guarded: "mtd uid rid = require_member rid uid (body rid)"
    and reads: "frames core (body rid)"
begin

lemma refuses: "\<not> member (w_db w) rid uid \<Longrightarrow> \<not> is_ok (fst (mtd uid rid w))"
  using require_member_D [of rid uid "body rid" w] guarded by (metis prod.collapse)

lemma answers: "mtd uid rid w = (Inr a, w') \<Longrightarrow> member (w_db w) rid uid \<and> (\<exists>w1. core w1 = core w \<and> body rid w1 = (Inr a, w'))"
  using require_member_D [of rid uid "body rid" w "Inr a" w'] guarded by simp

lemma changes_nothing: "mtd uid rid w = (r, w') \<Longrightarrow> core w' = core w"
  using framesD [OF frames_require_member [OF reads], of rid uid rid w] guarded by simp

end

interpretation history_read: member_guarded "\<lambda>uid rid. RoomHistoryForUser uid rid limit" "\<lambda>rid. RoomHistory rid limit" for limit
  by unfold_locales (simp_all add: RoomHistoryForUser_def reads_frame)

interpretation search_read: member_guarded "\<lambda>uid rid. SearchRoomForUser fts uid rid q limit" "\<lambda>rid. SearchRoom fts rid q limit" for fts q limit
  by unfold_locales (simp_all add: SearchRoomForUser_def reads_frame)

interpretation members_read: member_guarded RoomMembersForUser RoomMembers
  by unfold_locales (simp_all add: RoomMembersForUser_def reads_frame)

text \<open>C7. A room's messages, its search and its member list are for members only: for anyone else
  each of the three methods fails, whatever else is in the database and whichever statements fail.\<close>

theorem room_reads_need_membership:
  assumes "\<not> member (w_db w) rid uid"
  shows "\<not> is_ok (fst (RoomHistoryForUser uid rid limit w)) \<and> \<not> is_ok (fst (SearchRoomForUser fts uid rid q limit w))
    \<and> \<not> is_ok (fst (RoomMembersForUser uid rid w))"
  using history_read.refuses search_read.refuses members_read.refuses assms by blast

theorem room_reads_need_membership_witness: "\<not> is_ok (fst (RoomHistoryForUser 3 1 50 demo))"
proof -
  have "\<not> member (w_db demo) 1 3" by (simp add: member_def)
  from room_reads_need_membership [OF this] show ?thesis by blast
qed

section \<open>Bans\<close>

text \<open>C16. \<open>BanFromRoom\<close> is all or nothing: after it the user is banned and not a member and nobody
  else's membership or ban is touched; when it fails nothing has changed.\<close>

theorem BanFromRoom_atomic:
  assumes "BanFromRoom rid uid by_user reason w = (r, w')"
  shows "if is_ok r
    then banned (w_db w') rid uid \<and> \<not> member (w_db w') rid uid \<and>
      (\<forall>i u. (i, u) \<noteq> (rid, uid) \<longrightarrow> member (w_db w') i u = member (w_db w) i u \<and> banned (w_db w') i u = banned (w_db w) i u)
    else w_db w' = w_db w"
proof -
  let ?ban = "replace_ban rid uid by_user (SanitizeUserText reason) (w_clock w)"
  have "BanFromRoom rid uid by_user reason w = in_tx (seq_act (tx_exec ?ban) (\<lambda>_.
      seq_act (tx_exec (delete_member rid uid)) (\<lambda>_. seq_act commit_tx (\<lambda>_. ok ())))) w"
    unfolding BanFromRoom_def in_tx_now using seq_act_ok_right [of commit_tx] by simp
  with assms have "in_tx (seq_act (tx_exec ?ban) (\<lambda>_.
      seq_act (tx_exec (delete_member rid uid)) (\<lambda>_. seq_act commit_tx (\<lambda>_. ok ())))) w = (r, w')" by simp
  from two_stmt_tx [OF this] show ?thesis
  proof
    assume "\<exists>a d1 b d2 w3 w4. ?ban (w_db w) = Inr (a, d1) \<and> delete_member rid uid d1 = Inr (b, d2) \<and> w_db w3 = d2 \<and>
      w_clock w3 = w_clock w \<and> ok () w3 = (r, w4) \<and> w_db w' = w_db w4"
    then obtain d1 d2 where st: "?ban (w_db w) = Inr ((), d1)" "delete_member rid uid d1 = Inr ((), d2)" "is_ok r"
      and w': "w_db w' = d2"
      by (auto simp: ok_def)
    have bans: "room_bans (w_db w') = filter (\<lambda>b. ban_key b \<noteq> (rid, uid)) (room_bans (w_db w)) @
        [\<lparr>b_room_id = rid, b_user_id = uid, b_banned_by = by_user, b_reason = SanitizeUserText reason, b_banned_at = w_clock w\<rparr>]"
      and mems: "room_members (w_db w') = filter (\<lambda>m. member_key m \<noteq> (rid, uid)) (room_members (w_db w))"
      using st(1,2) by (auto simp: w' replace_ban_def delete_member_def split: if_splits)
    have "banned (w_db w') rid uid" "\<not> member (w_db w') rid uid"
      unfolding banned_def member_def bans mems by auto
    moreover have "(i, u) \<noteq> (rid, uid) \<Longrightarrow> member (w_db w') i u = member (w_db w) i u \<and> banned (w_db w') i u = banned (w_db w) i u" for i u
      unfolding banned_def member_def bans mems by (auto simp: image_iff)
    ultimately show ?thesis using st(3) by auto
  qed auto
qed

lemma BanFromRoom_quiet:
  assumes "quiet w" and "room_exists (w_db w) rid" and "user_exists (w_db w) uid" and "user_exists (w_db w) by_user"
  shows "is_ok (fst (BanFromRoom rid uid by_user reason w))"
  using assms by (simp add: BanFromRoom_def in_tx_now quiet_run replace_ban_def delete_member_def)

theorem BanFromRoom_atomic_witness:
  "banned (w_db (snd (BanFromRoom 1 2 1 ''spam'' demo))) 1 2 \<and> \<not> member (w_db (snd (BanFromRoom 1 2 1 ''spam'' demo))) 1 2"
proof -
  have "is_ok (fst (BanFromRoom 1 2 1 ''spam'' demo))"
    by (rule BanFromRoom_quiet) (simp_all add: room_exists_def user_exists_def)
  then show ?thesis
    using BanFromRoom_atomic [of 1 2 1 "''spam''" demo "fst (BanFromRoom 1 2 1 ''spam'' demo)" "snd (BanFromRoom 1 2 1 ''spam'' demo)"]
    by simp
qed

text \<open>Nobody is a member of a room they are banned from.\<close>

definition bans_hold :: "database \<Rightarrow> bool" where
  "bans_hold d \<longleftrightarrow> member_key ` set (room_members d) \<inter> ban_key ` set (room_bans d) = {}"

lemma bans_hold_frame:
  "bans_hold d \<Longrightarrow> room_bans d' = room_bans d \<Longrightarrow> member_key ` set (room_members d') \<subseteq> member_key ` set (room_members d) \<Longrightarrow>
   bans_hold d'"
  unfolding bans_hold_def by (simp add: disjoint_iff) blast

lemma update_role_keys: "update_role role rid uid d = Inr (a, d') \<Longrightarrow>
    room_bans d' = room_bans d \<and> member_key ` set (room_members d') \<subseteq> member_key ` set (room_members d)"
  by (auto simp: update_role_def member_key_def split: if_splits)

interpretation bans: db_frame bans_hold
  by unfold_locales
     (rule stmt_keepsI, erule bans_hold_frame; auto simp: insert_user_def insert_key_def update_users_def insert_room_def
        update_rooms_def delete_member_def insert_message_def soft_delete_message_def purge_messages_def
        insert_mention_or_ignore_def insert_notification_def update_notifications_def insert_block_or_ignore_def
        delete_block_def insert_report_def Let_def dest!: update_role_keys split: if_splits)+

lemma Store_JoinRoom_quiet:
  assumes "quiet w" and "Store_JoinRoom rid uid w = (r, w')"
  shows "if banned (w_db w) rid uid then w' = w \<and> \<not> is_ok r
    else (w' = w \<and> \<not> is_ok r) \<or> (\<exists>d. insert_member_or_ignore rid uid ''member'' (w_clock w) (w_db w) = Inr ((), d) \<and> w' = w\<lparr>w_db := d\<rparr> \<and> is_ok r)"
  using assms by (auto simp: Store_JoinRoom_def quiet_run count_bans_pos split: sum.splits if_splits)

lemma insert_member_or_ignore_bans:
  assumes "insert_member_or_ignore rid uid role now d = Inr (a, d')" and "bans_hold d" and "\<not> banned d rid uid"
  shows "bans_hold d'"
proof (cases "d' = d")
  case False
  then have "insert_member rid uid role now d = Inr (a, d')"
    using assms(1) by (auto simp: insert_member_or_ignore_def split: if_splits)
  then obtain m where "d' = d\<lparr>room_members := room_members d @ [m]\<rparr>" "member_key m = (rid, uid)"
    by (rule insert_member_Inr)
  with assms(2,3) show ?thesis by (simp add: bans_hold_def banned_def)
qed (use assms(2) in simp)

lemma CreateRoom_bans:
  assumes "CreateRoom name private owner w = (r, w')" and "db_ok (w_db w)" and "db_ok (w_db w')" and "bans_hold (w_db w)"
  shows "bans_hold (w_db w')"
  using CreateRoom_atomic [OF assms(1)]
proof
  assume "\<exists>room m. w_db w' = (w_db w)\<lparr>rooms := rooms (w_db w) @ [room], room_members := room_members (w_db w) @ [m]\<rparr> \<and>
       r_name room = name \<and> (r_is_private room \<noteq> 0 \<longleftrightarrow> private) \<and> r_created_by room = owner \<and>
       member_key m = (r_id room, owner) \<and> m_role m = RoleOwner \<and>
       nocase name \<notin> (nocase \<circ> r_name) ` set (rooms (w_db w)) \<and> (r = Inr (scanRoom room) \<or> r = Inl ErrDriver)"
  then obtain room m where w': "w_db w' = (w_db w)\<lparr>rooms := rooms (w_db w) @ [room], room_members := room_members (w_db w) @ [m]\<rparr>"
    and m: "member_key m = (r_id room, owner)" by blast
  have "distinct (map r_id (rooms (w_db w')))" using assms(3) by (simp add: db_ok_def ids_ok_def serial_distinct)
  then have new: "r_id room \<notin> r_id ` set (rooms (w_db w))" by (simp add: w')
  have "(r_id room, owner) \<notin> ban_key ` set (room_bans (w_db w))"
  proof
    assume "(r_id room, owner) \<in> ban_key ` set (room_bans (w_db w))"
    then obtain b where b: "b \<in> set (room_bans (w_db w))" "b_room_id b = r_id room" by (auto simp: ban_key_def)
    then have "ban_fk (w_db w) b" using assms(2) by (simp add: db_ok_def fk_ok_def)
    with b(2) new show False by (simp add: ban_fk_def room_exists_def)
  qed
  with assms(4) m show ?thesis by (simp add: bans_hold_def w')
qed (use assms(4) in auto)

lemma BanFromRoom_bans:
  assumes "BanFromRoom rid uid by_user reason w = (r, w')" and "bans_hold (w_db w)"
  shows "bans_hold (w_db w')"
proof -
  have hold: "bans_hold d \<longleftrightarrow> (\<forall>i u. \<not> (member d i u \<and> banned d i u))" for d
    unfolding bans_hold_def member_def banned_def by (simp add: disjoint_iff)
  show ?thesis
    using BanFromRoom_atomic [OF assms(1)] assms(2) unfolding hold by (cases "is_ok r") (simp_all, metis)
qed

text \<open>C10. A banned user stays out: as long as the driver does not fail, no method of the store, with any
  arguments, makes a banned user a member, and none leaves a member banned.\<close>

theorem bans_are_kept:
  assumes "store_reach w" and "bans_hold (w_db w)" and "w_faults w = []" and "store_step w w'"
  shows "bans_hold (w_db w')"
proof -
  have ok: "db_ok (w_db w)" "idle w" using store_reach_ok [OF assms(1)] by auto
  have ok': "db_ok (w_db w')" using store_reach_ok [OF reach_step [OF assms(1,4)]] by blast
  have inv: "world_inv bans_hold w" using assms(2) ok(2) by (simp add: world_inv_def idle_def)
  have quiet: "quiet w" using assms(3) by (simp add: quiet_def)
  note keep = bans.frame_keep
  have keepsD: "bans_hold (w_db w')" if "m w = (r, w')" and "keeps (world_inv bans_hold) m" for r and m :: "'z io"
    using keeps_pairD [OF that(2) inv that(1)] by (simp add: world_inv_def)
  from assms(4) show ?thesis
  proof (cases rule: store_step.cases)
    case (step_env t fs)
    with assms(2) show ?thesis by simp
  next
    case (step_CreateRoom name priv owner r)
    then show ?thesis by (rule CreateRoom_bans [OF _ ok(1) ok' assms(2)])
  next
    case (step_JoinRoom rid uid r)
    show ?thesis
    proof (cases "w' = w")
      case False
      then obtain d where "\<not> banned (w_db w) rid uid" "insert_member_or_ignore rid uid ''member'' (w_clock w) (w_db w) = Inr ((), d)"
        "w' = w\<lparr>w_db := d\<rparr>"
        using Store_JoinRoom_quiet [OF quiet step_JoinRoom] by (auto split: if_splits)
      then show ?thesis using insert_member_or_ignore_bans [OF _ assms(2)] by simp
    qed (use assms(2) in simp)
  next
    case (step_BanFromRoom rid uid by_user reason r)
    then show ?thesis using assms(2) by (rule BanFromRoom_bans)
  qed (erule keepsD, rule keep)+
qed

text \<open>ann bans herself from her own lobby (the store does not mind) and tries to get back in.\<close>

definition ban_world :: world where
  "ban_world = snd (BanFromRoom 1 1 1 ''x'' lobby_world)"

lemma ban_world_reach: "store_reach ban_world"
  unfolding ban_world_def by (rule snd_step [OF _ run_reach(2)]) (rule step_BanFromRoom)

lemma ban_world_eq: "ban_world = lobby_world\<lparr>w_db := (w_db lobby_world)\<lparr>room_members := [],
    room_bans := [\<lparr>b_room_id = 1, b_user_id = 1, b_banned_by = 1, b_reason = SanitizeUserText ''x'', b_banned_at = 0\<rparr>]\<rparr>\<rparr>"
  by (simp add: ban_world_def BanFromRoom_def in_tx_now quiet_run lobby_world_eq ann_world_eq empty_world_def quiet_def
      empty_db_def replace_ban_def delete_member_def room_exists_def user_exists_def member_key_def lobby_row_def ann_row_def)

theorem bans_are_kept_witness: "bans_hold (w_db (snd (Store_JoinRoom 1 1 ban_world)))"
proof -
  have "bans_hold (w_db ban_world)" "w_faults ban_world = []"
    by (simp_all add: ban_world_eq bans_hold_def lobby_world_eq ann_world_eq empty_world_def)
  moreover have "store_step ban_world (snd (Store_JoinRoom 1 1 ban_world))"
    by (rule step_JoinRoom [of 1 1 _ "fst (Store_JoinRoom 1 1 ban_world)"]) simp
  ultimately show ?thesis using bans_are_kept [OF ban_world_reach] by blast
qed

text \<open>C39. The ban check of \<open>JoinRoom\<close> fails open: when its query fails (a busy database, a cancelled
  context) the error is dropped and the banned user becomes a member again.\<close>

theorem JoinRoom_fails_open:
  "\<exists>w w'. store_reach w \<and> banned (w_db w) 1 1 \<and> \<not> member (w_db w) 1 1 \<and>
     Store_JoinRoom 1 1 w = (Inr (), w') \<and> member (w_db w') 1 1 \<and> banned (w_db w') 1 1"
proof -
  let ?w = "ban_world\<lparr>w_clock := 0, w_faults := [True]\<rparr>"
  have "store_reach ?w" using reach_step [OF ban_world_reach step_env] .
  moreover have "banned (w_db ?w) 1 1" "\<not> member (w_db ?w) 1 1"
    by (simp_all add: ban_world_eq banned_def member_def ban_key_def)
  moreover obtain w' where "Store_JoinRoom 1 1 ?w = (Inr (), w')" "member (w_db w') 1 1" "banned (w_db w') 1 1"
    by (rule that [of "snd (Store_JoinRoom 1 1 ?w)"])
       (simp_all add: Store_JoinRoom_def seq_act_app attempt_app ok_app query_def driver_def exec_stmt_def now_unix_def
         ban_world_eq lobby_world_eq ann_world_eq empty_world_def empty_db_def insert_member_or_ignore_def insert_member_def
         role_check_def room_exists_def user_exists_def lobby_row_def ann_row_def member_def banned_def)
  ultimately show ?thesis by blast
qed

end
