(* ===== verification/StorePosts.thy ===== *)
theory StorePosts
  imports StoreAccess
begin

text \<open>
  Posting, reading and deleting messages: who can post what, who is notified, which page of the
  history comes back, and who can read or delete a single message.
\<close>

section \<open>Bodies\<close>

definition posted_body :: "string \<Rightarrow> string" where
  "posted_body body = truncated (SanitizeUserText body)"

lemma posted_body_bounds: "SanitizeUserText body \<noteq> [] \<Longrightarrow> posted_body body \<noteq> [] \<and> length (posted_body body) \<le> MaxBody"
  by (auto simp: posted_body_def truncated_def MaxBody_def)

section \<open>The mentions loop\<close>

definition mention_notif :: "int \<Rightarrow> int \<Rightarrow> notif_row \<Rightarrow> bool" where
  "mention_notif mid rid n \<longleftrightarrow> n_kind n = ''mention'' \<and> n_message_id n = Some mid \<and> n_room_id n = Some rid \<and> n_read_at n = None"

definition notified_users :: "database \<Rightarrow> int \<Rightarrow> int \<Rightarrow> int list \<Rightarrow> int list" where
  "notified_users d rid author us = filter (\<lambda>u. u \<noteq> author \<and> member d rid u) us"

lemma insert_mention_Inr:
  "insert_mention_or_ignore mid uid d = Inr (a, d') \<Longrightarrow> \<exists>mts. d' = d\<lparr>mentions := mentions d @ mts\<rparr> \<and> set mts \<subseteq> {(mid, uid)}"
proof (cases "(mid, uid) \<in> set (mentions d)")
  case True
  moreover assume "insert_mention_or_ignore mid uid d = Inr (a, d')"
  ultimately show ?thesis by (intro exI [of _ "[]"]) (simp add: insert_mention_or_ignore_def)
next
  case False
  moreover assume "insert_mention_or_ignore mid uid d = Inr (a, d')"
  ultimately show ?thesis
    by (intro exI [of _ "[(mid, uid)]"]) (auto simp: insert_mention_or_ignore_def split: if_splits)
qed

lemma notify_loop_D:
  assumes "notify_loop rid author mid now us w = (Inr ns, w')" and "w_tx w = Some t"
  shows "w_db w' = w_db w \<and> w_clock w' = w_clock w \<and> (\<exists>mts rows.
    w_tx w' = Some (t\<lparr>mentions := mentions t @ mts, notifications := notifications t @ rows\<rparr>) \<and>
    ns = map n_user_id rows \<and> subseq ns (notified_users (w_db w) rid author us) \<and>
    (\<forall>n \<in> set rows. mention_notif mid rid n) \<and> set mts \<subseteq> Pair mid ` set ns)"
  using assms
proof (induction us arbitrary: w t ns)
  case Nil
  then show ?case by (auto simp: ok_def notified_users_def intro!: exI [of _ "[]"])
next
  case (Cons u us)
  show ?case
  proof (cases "u = author")
    case True
    with Cons.prems Cons.IH [of w ns t] show ?thesis by (simp add: notified_users_def)
  next
    case False
    obtain q w1 where q: "IsMember rid u w = (q, w1)" by force
    have w1: "w_db w1 = w_db w" "w_tx w1 = Some t" "w_clock w1 = w_clock w"
      using IsMember_D [OF q] Cons.prems(2) by (auto simp: core_eq)
    show ?thesis
    proof (cases "case q of Inl _ \<Rightarrow> True | Inr (is_member, _) \<Rightarrow> \<not> is_member")
      case True
      have "notify_loop rid author mid now us w1 = (Inr ns, w')"
        using Cons.prems(1) False True q by (simp add: seq_act_def attempt_def)
      from Cons.IH [OF this w1(2)] show ?thesis
        by (auto simp: w1 notified_users_def intro: subseq_order.order_trans)
    next
      case mem: False
      then have member: "member (w_db w) rid u"
        using IsMember_D [OF q] member_role_None [of rid u "w_db w"] by (auto split: sum.splits)
      obtain w2 w3 ns' where st: "tx_exec (insert_mention_or_ignore mid u) w1 = (Inr (), w2)"
        "\<exists>i. tx_exec (insert_notification u ''mention'' (Some mid) (Some rid) now) w2 = (Inr i, w3)"
        "notify_loop rid author mid now us w3 = (Inr ns', w')" "ns = u # ns'"
        using Cons.prems(1) False mem q
        by (auto simp: seq_act_def attempt_def ok_def split: prod.splits sum.splits)
      obtain t2 where t2: "insert_mention_or_ignore mid u t = Inr ((), t2)" "w_tx w2 = Some t2" "w_db w2 = w_db w" "w_clock w2 = w_clock w"
        using tx_exec_D [OF st(1) w1(2)] w1 by auto
      obtain i t3 where t3: "insert_notification u ''mention'' (Some mid) (Some rid) now t2 = Inr (i, t3)" "w_tx w3 = Some t3"
        "w_db w3 = w_db w" "w_clock w3 = w_clock w"
        using st(2) tx_exec_D [OF _ t2(2)] t2 by fastforce
      obtain mts1 where mts1: "t2 = t\<lparr>mentions := mentions t @ mts1\<rparr>" "set mts1 \<subseteq> {(mid, u)}"
        using insert_mention_Inr [OF t2(1)] by blast
      obtain n where n: "t3 = t2\<lparr>notifications := notifications t2 @ [n]\<rparr>" "n_user_id n = u" "mention_notif mid rid n"
        using t3(1) by (rule insert_notification_Inr) (simp add: mention_notif_def)
      from Cons.IH [OF st(3) t3(2)] obtain mts rows where
        IH: "w_db w' = w_db w" "w_clock w' = w_clock w"
        "w_tx w' = Some (t3\<lparr>mentions := mentions t3 @ mts, notifications := notifications t3 @ rows\<rparr>)"
        "ns' = map n_user_id rows" "subseq ns' (notified_users (w_db w) rid author us)"
        "\<forall>n \<in> set rows. mention_notif mid rid n" "set mts \<subseteq> Pair mid ` set ns'"
        by (auto simp: t3)
      have "w_tx w' = Some (t\<lparr>mentions := mentions t @ (mts1 @ mts), notifications := notifications t @ (n # rows)\<rparr>)"
        by (simp add: IH(3) n(1) mts1(1))
      moreover have "subseq (u # ns') (notified_users (w_db w) rid author (u # us))"
        using IH(5) False member by (simp add: notified_users_def)
      ultimately show ?thesis
        using IH n mts1(2) st(4) by (intro conjI exI [of _ "mts1 @ mts"] exI [of _ "n # rows"]) auto
    qed
  qed
qed

lemma notify_loop_Inl:
  assumes "notify_loop rid author mid now us w = (r, w')" and "w_tx w = Some t"
  shows "w_db w' = w_db w \<and> w_clock w' = w_clock w \<and> w_tx w' \<noteq> None"
  using assms
proof (induction us arbitrary: w t r)
  case Nil
  then show ?case by (simp add: ok_def)
next
  case (Cons u us)
  show ?case
  proof (cases "u = author")
    case True
    with Cons show ?thesis by simp
  next
    case False
    obtain q w1 where q: "IsMember rid u w = (q, w1)" by force
    have w1: "w_db w1 = w_db w" "w_tx w1 = Some t" "w_clock w1 = w_clock w"
      using IsMember_D [OF q] Cons.prems(2) by (auto simp: core_eq)
    note IH = Cons.IH
    have tx: "w_db y = w_db x \<and> w_clock y = w_clock x \<and> (\<exists>t. w_tx y = Some t)"
      if "tx_exec st x = (z, y)" "w_tx x = Some t" for st :: "'z stmt" and x y z t
      using tx_exec_D [OF that] by auto
    show ?thesis
    proof (cases "case q of Inl _ \<Rightarrow> True | Inr (is_member, _) \<Rightarrow> \<not> is_member")
      case True
      then show ?thesis using Cons.prems(1) False q IH [of w1 r t] w1 by (simp add: seq_act_def attempt_def)
    next
      case mem: False
      then have "seq_act (tx_exec (insert_mention_or_ignore mid u)) (\<lambda>_.
             seq_act (tx_exec (insert_notification u ''mention'' (Some mid) (Some rid) now)) (\<lambda>_.
             seq_act (notify_loop rid author mid now us) (\<lambda>notified. ok (u # notified)))) w1 = (r, w')"
        using Cons.prems(1) False q by (simp add: seq_act_def attempt_def)
      then show ?thesis
      proof (cases rule: seq_actE)
        case (err e)
        then show ?thesis using tx [OF err(1) w1(2)] w1 by auto
      next
        case (step a w2)
        then obtain t2 where t2: "w_tx w2 = Some t2" "w_db w2 = w_db w" "w_clock w2 = w_clock w"
          using tx [OF step(1) w1(2)] w1 by auto
        from step(2) show ?thesis
        proof (cases rule: seq_actE)
          case (err e)
          then show ?thesis using tx [OF err(1) t2(1)] t2 by auto
        next
          case (step b w3)
          then obtain t3 where t3: "w_tx w3 = Some t3" "w_db w3 = w_db w" "w_clock w3 = w_clock w"
            using tx [OF step(1) t2(1)] t2 by auto
          from step(2) show ?thesis
          proof (cases rule: seq_actE)
            case (err e)
            then show ?thesis using IH [OF err(1) t3(1)] t3 by simp
          next
            case (step ns w4)
            then have "notify_loop rid author mid now us w3 = (Inr ns, w')" by (simp add: ok_def)
            then show ?thesis using IH [OF _ t3(1)] t3 by simp
          qed
        qed
      qed
    qed
  qed
qed

section \<open>Posting to a room\<close>

text \<open>The rows a post adds.\<close>

definition post_rows :: "int \<Rightarrow> int \<Rightarrow> string \<Rightarrow> msg_row \<Rightarrow> bool" where
  "post_rows rid author body g \<longleftrightarrow> g_kind g = ''room'' \<and> g_room_id g = Some rid \<and> g_author_id g = author \<and>
     g_body g = posted_body body \<and> g_deleted_at g = None"

lemma InsertRoomMessage_tx_D:
  assumes "in_tx (seq_act (tx_exec (insert_message ''room'' (Some rid) None None author body now)) (\<lambda>mid.
       seq_act (notify_loop rid author mid now us) (\<lambda>notified.
       seq_act commit_tx (\<lambda>_. seq_act (MessageByID mid) (\<lambda>msg. ok (msg, notified)))))) w = (r, w')"
  shows "(w_db w' = w_db w \<and> \<not> is_ok r) \<or>
    (\<exists>g mts rows. w_db w' = (w_db w)\<lparr>messages := messages (w_db w) @ [g],
         messages_fts := messages_fts (w_db w) @ [(g_id g, body)], mentions := mentions (w_db w) @ mts,
         notifications := notifications (w_db w) @ rows\<rparr> \<and>
       g_kind g = ''room'' \<and> g_room_id g = Some rid \<and> g_author_id g = author \<and> g_body g = body \<and> g_deleted_at g = None \<and>
       subseq (map n_user_id rows) (notified_users (w_db w) rid author us) \<and> (\<forall>n \<in> set rows. mention_notif (g_id g) rid n) \<and>
       (\<forall>msg notified. r = Inr (msg, notified) \<longrightarrow> notified = map n_user_id rows))"
  using in_tx_D [OF assms]
proof
  assume "r = Inl ErrDriver \<and> core w' = core w"
  then show ?thesis by (simp add: core_eq)
next
  let ?m = "seq_act (tx_exec (insert_message ''room'' (Some rid) None None author body now)) (\<lambda>mid.
       seq_act (notify_loop rid author mid now us) (\<lambda>notified.
       seq_act commit_tx (\<lambda>_. seq_act (MessageByID mid) (\<lambda>msg. ok (msg, notified)))))"
  assume "\<exists>w1 w2. w_db w1 = w_db w \<and> w_tx w1 = Some (w_db w) \<and> w_clock w1 = w_clock w \<and> ?m w1 = (r, w2) \<and>
    w_db w' = w_db w2 \<and> w_clock w' = w_clock w2 \<and> w_tx w' = None"
  then obtain w1 w2 where w1: "w_db w1 = w_db w" "w_tx w1 = Some (w_db w)" and run: "?m w1 = (r, w2)" and w': "w_db w' = w_db w2"
    by blast
  from run show ?thesis
  proof (cases rule: seq_actE)
    case (err e)
    with tx_exec_D [OF err(1) w1(2)] w' w1 show ?thesis by auto
  next
    case (step mid s1)
    obtain d1 where s1: "insert_message ''room'' (Some rid) None None author body now (w_db w) = Inr (mid, d1)"
      "w_tx s1 = Some d1" "w_db s1 = w_db w"
      using tx_exec_D [OF step(1) w1(2)] w1 by auto
    obtain g where g: "d1 = (w_db w)\<lparr>messages := messages (w_db w) @ [g], messages_fts := messages_fts (w_db w) @ [(mid, body)]\<rparr>"
      "g_id g = mid" "g_kind g = ''room''" "g_room_id g = Some rid" "g_author_id g = author" "g_body g = body" "g_deleted_at g = None"
      using s1(1) by (rule insert_message_Inr)
    from step(2) show ?thesis
    proof (cases rule: seq_actE)
      case (err e)
      with notify_loop_Inl [OF err(1) s1(2)] w' s1 show ?thesis by auto
    next
      case (step notified s2)
      obtain mts rows where rows: "w_db s2 = w_db w" "notified = map n_user_id rows"
        "w_tx s2 = Some (d1\<lparr>mentions := mentions d1 @ mts, notifications := notifications d1 @ rows\<rparr>)"
        "subseq notified (notified_users (w_db w) rid author us)" "\<forall>n \<in> set rows. mention_notif mid rid n"
        using notify_loop_D [OF step(1) s1(2)] s1(3) by auto
      from step(2) show ?thesis
      proof (cases rule: seq_actE)
        case (err e)
        with commit_D [OF err(1) rows(3)] w' rows show ?thesis by auto
      next
        case (step x s3)
        have db3: "w_db s3 = d1\<lparr>mentions := mentions d1 @ mts, notifications := notifications d1 @ rows\<rparr>"
          using commit_D [OF step(1) rows(3)] by auto
        obtain q s4 where q: "MessageByID mid s3 = (q, s4)" by force
        have "core s4 = core s3" using framesD [OF reads_frame(11), of mid s3] q by simp
        then have "w_db w2 = w_db s3" and res: "\<forall>msg ns. r = Inr (msg, ns) \<longrightarrow> ns = notified"
          using step(2) q by (auto simp: seq_act_def ok_def core_eq split: sum.splits)
        then show ?thesis
          using g rows db3 w' by (intro disjI2 exI [of _ g] exI [of _ mts] exI [of _ rows]) auto
      qed
    qed
  qed
qed

text \<open>C6. Posting to a room: a message is stored only when its author is a member of the room and not
  banned from it, and then its body is the sanitized text cut to 2000 bytes and not empty, each
  notified user is a mentioned member other than the author, each notification points at the message
  and the room, and the users reported to the caller are the notified ones. Otherwise an error
  comes back and the database is as before.\<close>

theorem InsertRoomMessage_effect:
  assumes "InsertRoomMessage rid author body us w = (r, w')"
  shows "(w_db w' = w_db w \<and> \<not> is_ok r) \<or>
    (member (w_db w) rid author \<and> \<not> banned (w_db w) rid author \<and> posted_body body \<noteq> [] \<and>
     length (posted_body body) \<le> 2000 \<and>
     (\<exists>g mts rows. w_db w' = (w_db w)\<lparr>messages := messages (w_db w) @ [g],
         messages_fts := messages_fts (w_db w) @ [(g_id g, posted_body body)], mentions := mentions (w_db w) @ mts,
         notifications := notifications (w_db w) @ rows\<rparr> \<and> post_rows rid author body g \<and>
       subseq (map n_user_id rows) (notified_users (w_db w) rid author us) \<and> (\<forall>n \<in> set rows. mention_notif (g_id g) rid n) \<and>
       (\<forall>msg notified. r = Inr (msg, notified) \<longrightarrow> notified = map n_user_id rows)))"
  using require_member_D [OF assms [unfolded InsertRoomMessage_def]]
proof
  assume "core w' = core w \<and> \<not> is_ok r"
  then show ?thesis by (simp add: core_eq)
next
  let ?rest = "\<lambda>banned. if 0 < banned then fail (ErrMsg ''you are banned from this room'')
     else let body = SanitizeUserText body in
     if body = [] then fail (ErrMsg ''empty message'')
     else let body = truncated body in
     seq_act now_unix (\<lambda>now.
     in_tx (
       seq_act (tx_exec (insert_message ''room'' (Some rid) None None author body now)) (\<lambda>mid.
       seq_act (notify_loop rid author mid now us) (\<lambda>notified.
       seq_act commit_tx (\<lambda>_.
       seq_act (MessageByID mid) (\<lambda>msg.
       ok (msg, notified)))))))"
  assume "member (w_db w) rid author \<and> (\<exists>w1. core w1 = core w \<and> seq_act (query (count_bans rid author)) ?rest w1 = (r, w'))"
  then obtain w1 where mem: "member (w_db w) rid author" and w1: "core w1 = core w"
    and run: "seq_act (query (count_bans rid author)) ?rest w1 = (r, w')" by blast
  from run show ?thesis
  proof (cases rule: seq_actE)
    case (err e)
    with query_D [OF err(1)] w1 show ?thesis by (simp add: core_eq)
  next
    case (step n w2)
    have n: "n = count_bans rid author (w_db w)" and w2: "w_db w2 = w_db w"
      using query_D [OF step(1)] w1 by (auto simp: core_eq)
    show ?thesis
    proof (cases "banned (w_db w) rid author \<or> SanitizeUserText body = []")
      case True
      then have "r = Inl (ErrMsg ''you are banned from this room'') \<or> r = Inl (ErrMsg ''empty message'')" "w' = w2"
        using step(2) n by (auto simp: count_bans_pos fail_def split: if_splits)
      then show ?thesis by (auto simp: w2)
    next
      case False
      then have "in_tx (seq_act (tx_exec (insert_message ''room'' (Some rid) None None author (posted_body body) (w_clock w2))) (\<lambda>mid.
         seq_act (notify_loop rid author mid (w_clock w2) us) (\<lambda>notified.
         seq_act commit_tx (\<lambda>_. seq_act (MessageByID mid) (\<lambda>msg. ok (msg, notified)))))) w2 = (r, w')"
        using step(2) n by (simp add: count_bans_pos [symmetric] Let_def posted_body_def now_seq)
      from InsertRoomMessage_tx_D [OF this] show ?thesis
      proof
        assume "w_db w' = w_db w2 \<and> \<not> is_ok r"
        then show ?thesis by (simp add: w2)
      next
        assume *: "\<exists>g mts rows. w_db w' = (w_db w2)\<lparr>messages := messages (w_db w2) @ [g],
           messages_fts := messages_fts (w_db w2) @ [(g_id g, posted_body body)], mentions := mentions (w_db w2) @ mts,
           notifications := notifications (w_db w2) @ rows\<rparr> \<and>
         g_kind g = ''room'' \<and> g_room_id g = Some rid \<and> g_author_id g = author \<and> g_body g = posted_body body \<and> g_deleted_at g = None \<and>
         subseq (map n_user_id rows) (notified_users (w_db w2) rid author us) \<and> (\<forall>n \<in> set rows. mention_notif (g_id g) rid n) \<and>
         (\<forall>msg notified. r = Inr (msg, notified) \<longrightarrow> notified = map n_user_id rows)"
        have body: "posted_body body \<noteq> []" "length (posted_body body) \<le> 2000"
          using posted_body_bounds [of body] False by (simp_all add: MaxBody_def)
        have nb: "\<not> banned (w_db w) rid author" using False by blast
        show ?thesis by (rule disjI2, intro conjI mem nb body) (use * in \<open>simp only: w2 post_rows_def conj_assoc\<close>)
      qed
    qed
  qed
qed

lemma insert_notification_ok:
  assumes "user_exists d uid" and "message_exists d mid" and "room_exists d rid"
  shows "\<exists>i n. insert_notification uid ''mention'' (Some mid) (Some rid) now d = Inr (i, d\<lparr>notifications := notifications d @ [n]\<rparr>)"
  using assms by (auto simp: insert_notification_def Let_def)

lemma insert_mention_ok:
  assumes "user_exists d uid" and "message_exists d mid"
  shows "\<exists>ms. insert_mention_or_ignore mid uid d = Inr ((), d\<lparr>mentions := ms\<rparr>)"
proof (cases "(mid, uid) \<in> set (mentions d)")
  case True
  then show ?thesis by (intro exI [of _ "mentions d"]) (simp add: insert_mention_or_ignore_def)
next
  case False
  with assms show ?thesis by (intro exI [of _ "mentions d @ [(mid, uid)]"]) (simp add: insert_mention_or_ignore_def)
qed

lemma notify_loop_quiet:
  assumes "quiet w" and "w_tx w = Some t" and "room_exists t rid" and "message_exists t mid"
    and "\<And>u. member (w_db w) rid u \<Longrightarrow> user_exists t u"
  shows "\<exists>ms ns. notify_loop rid author mid now us w =
    (Inr (notified_users (w_db w) rid author us), w\<lparr>w_tx := Some (t\<lparr>mentions := ms, notifications := ns\<rparr>)\<rparr>)"
  using assms
proof (induction us arbitrary: w t)
  case Nil
  then show ?case
    by (intro exI [of _ "mentions t"] exI [of _ "notifications t"]) (simp add: ok_def notified_users_def)
next
  case (Cons u us)
  show ?case
  proof (cases "u = author \<or> \<not> member (w_db w) rid u")
    case True
    from Cons.IH [OF Cons.prems] show ?thesis
      using True Cons.prems(1) member_role_None [of rid u "w_db w"]
      by (auto simp: notified_users_def seq_act_app attempt_app IsMember_quiet)
  next
    case False
    then obtain role where role: "member_role rid u (w_db w) = Some role"
      using member_role_None [of rid u "w_db w"] by auto
    have u: "user_exists t u" using Cons.prems(5) False by blast
    obtain ms where ms: "insert_mention_or_ignore mid u t = Inr ((), t\<lparr>mentions := ms\<rparr>)"
      using insert_mention_ok [OF u Cons.prems(4)] by blast
    let ?t = "t\<lparr>mentions := ms\<rparr>"
    obtain i n where n: "insert_notification u ''mention'' (Some mid) (Some rid) now ?t = Inr (i, ?t\<lparr>notifications := notifications ?t @ [n]\<rparr>)"
      using insert_notification_ok [of ?t u mid rid now] u Cons.prems(3,4) by auto
    let ?t2 = "?t\<lparr>notifications := notifications ?t @ [n]\<rparr>"
    obtain ms' ns where IH: "notify_loop rid author mid now us (w\<lparr>w_tx := Some ?t2\<rparr>) =
        (Inr (notified_users (w_db w) rid author us), w\<lparr>w_tx := Some ?t2, w_tx := Some (?t2\<lparr>mentions := ms', notifications := ns\<rparr>)\<rparr>)"
      using Cons.IH [of "w\<lparr>w_tx := Some ?t2\<rparr>" ?t2] Cons.prems by auto
    have "notify_loop rid author mid now (u # us) w =
        (Inr (notified_users (w_db w) rid author (u # us)), w\<lparr>w_tx := Some (t\<lparr>mentions := ms', notifications := ns\<rparr>)\<rparr>)"
      using False role IH Cons.prems(1,2) ms n
      by (simp add: seq_act_app attempt_app IsMember_quiet quiet_tx_exec ok_app notified_users_def)
    then show ?thesis by blast
  qed
qed

text \<open>C20. A member who is not banned can post: when no statement fails, a body that is not empty after
  sanitizing is stored and comes back, and exactly the mentioned members other than the author are
  notified, in the order of the mentions.\<close>

theorem InsertRoomMessage_succeeds:
  assumes "store_reach w" and "w_faults w = []" and "member (w_db w) rid author" and "\<not> banned (w_db w) rid author"
    and "SanitizeUserText body \<noteq> []"
  shows "\<exists>msg w'. InsertRoomMessage rid author body us w = (Inr (msg, notified_users (w_db w) rid author us), w') \<and>
    Message_Body msg = posted_body body \<and> Message_AuthorID msg = author \<and> Message_RoomID msg = Some rid"
proof -
  let ?d = "w_db w"
  have ok: "db_ok ?d" using store_reach_ok [OF assms(1)] by blast
  have q: "quiet w" using assms(2) by (simp add: quiet_def)
  have exists: "member ?d i u \<Longrightarrow> room_exists ?d i \<and> user_exists ?d u" for i u
    using ok by (auto simp: db_ok_def fk_ok_def member_fk_def member_def member_key_def)
  obtain role where role: "member_role rid author ?d = Some role"
    using assms(3) member_role_None [of rid author ?d] by auto
  have nb: "\<not> 0 < count_bans rid author ?d" using assms(4) by (simp add: count_bans_pos)
  obtain mid d1 where ins: "insert_message ''room'' (Some rid) None None author (posted_body body) (w_clock w) ?d = Inr (mid, d1)"
    using exists [OF assms(3)] by (auto simp: insert_message_def Let_def)
  obtain g where g: "d1 = ?d\<lparr>messages := messages ?d @ [g], messages_fts := messages_fts ?d @ [(mid, posted_body body)]\<rparr>"
    "mid = next_id (map g_id (messages ?d))"
    "g_id g = mid" "g_room_id g = Some rid" "g_author_id g = author" "g_body g = posted_body body"
    using ins by (rule insert_message_Inr)
  let ?w1 = "w\<lparr>w_tx := Some d1\<rparr>"
  have "room_exists d1 rid" "message_exists d1 mid" "\<And>u. member ?d rid u \<Longrightarrow> user_exists d1 u"
    using exists assms(3) g(1,3) by (auto simp: message_exists_def)
  then obtain ms ns where loop: "notify_loop rid author mid (w_clock w) us ?w1 =
      (Inr (notified_users ?d rid author us), ?w1\<lparr>w_tx := Some (d1\<lparr>mentions := ms, notifications := ns\<rparr>)\<rparr>)"
    using notify_loop_quiet [of ?w1 d1 rid mid author "w_clock w" us] q by auto
  let ?d2 = "d1\<lparr>mentions := ms, notifications := ns\<rparr>"
  obtain u where u: "u \<in> set (users ?d)" "u_id u = author"
    using exists [OF assms(3)] by (auto simp: user_exists_def)
  have "scanMessage g u \<in> set (select_messages (\<lambda>g. g_id g = mid) ?d2)"
    using u g by (auto simp: select_messages_eq)
  moreover have "m \<in> set (select_messages (\<lambda>g. g_id g = mid) ?d2) \<Longrightarrow>
      Message_Body m = posted_body body \<and> Message_AuthorID m = author \<and> Message_RoomID m = Some rid" for m
    using g next_id_neq [of _ "messages ?d" g_id] by (auto simp: select_messages_eq scanMessage_def)
  ultimately obtain msg where msg: "first_row (select_messages (\<lambda>g. g_id g = mid) ?d2) = Some msg"
    "Message_Body msg = posted_body body" "Message_AuthorID msg = author" "Message_RoomID msg = Some rid"
    by (cases "select_messages (\<lambda>g. g_id g = mid) ?d2") (auto simp: first_row_def)
  have "InsertRoomMessage rid author body us w =
      (Inr (msg, notified_users ?d rid author us), w\<lparr>w_db := ?d2, w_tx := None\<rparr>)"
    using q role nb assms(5) ins loop msg(1)
    by (simp add: InsertRoomMessage_def require_member_def seq_act_app IsMember_quiet quiet_query quiet_now quiet_in_tx
        with_rollback_def quiet_tx_exec quiet_commit MessageByID_def quiet_query_row ok_app Let_def posted_body_def [symmetric])
  with msg(2-) show ?thesis by blast
qed

lemma sanitize_hi: "SanitizeUserText ''hi'' = ''hi''"
proof -
  have "runes ''hi'' = [104, 105]" by (simp add: runes_def bytes_of_def)
  then show ?thesis
    by (simp add: SanitizeUserText_strip rtrim_def trimmed_def is_control_def of_runes_def encode_def encode_rune_def str_of_def
        char_of_byte)
qed

lemma lobby_member: "member (w_db lobby_world) 1 1" "\<not> banned (w_db lobby_world) 1 1" "w_faults lobby_world = []"
  by (simp_all add: lobby_world_eq ann_world_eq empty_world_def empty_db_def member_def banned_def)

theorem InsertRoomMessage_succeeds_witness:
  "\<exists>msg w'. InsertRoomMessage 1 1 ''hi'' [1] lobby_world = (Inr (msg, []), w') \<and> Message_Body msg = ''hi''"
  using InsertRoomMessage_succeeds [OF run_reach(2) lobby_member(3,1,2), of "''hi''" "[1]"]
  by (auto simp: sanitize_hi posted_body_def truncated_def MaxBody_def notified_users_def)

theorem InsertRoomMessage_effect_witness:
  "\<exists>g. messages (w_db (snd (InsertRoomMessage 1 1 ''hi'' [1] lobby_world))) = [g] \<and> g_body g = ''hi''"
proof -
  obtain msg w' where run: "InsertRoomMessage 1 1 ''hi'' [1] lobby_world = (Inr (msg, []), w')"
    using InsertRoomMessage_succeeds [OF run_reach(2) lobby_member(3,1,2), of "''hi''" "[1]"]
    by (auto simp: sanitize_hi notified_users_def)
  have "messages (w_db lobby_world) = []" by (simp add: lobby_world_eq ann_world_eq empty_world_def empty_db_def)
  with InsertRoomMessage_effect [OF run] run show ?thesis
    by (auto simp: post_rows_def posted_body_def sanitize_hi truncated_def MaxBody_def)
qed

end
