(* ===== verification/StoreReads.thy ===== *)
theory StoreReads
  imports StorePosts
begin

text \<open>
  Direct messages, pages of the history, deleting and reading single messages, unread counters and
  the purge.
\<close>

section \<open>Direct messages\<close>

definition blocked_by :: "database \<Rightarrow> int \<Rightarrow> int \<Rightarrow> bool" where
  "blocked_by d blocker uid \<longleftrightarrow> (blocker, uid) \<in> block_key ` set (blocks d)"

lemma count_blocks_pos: "0 < count_blocks x y d \<longleftrightarrow> blocked_by d x y"
  by (simp add: count_blocks_def blocked_by_def image_iff filter_empty_conv) metis

lemma IsBlocked_D:
  "IsBlocked x y w = (r, w') \<Longrightarrow> core w' = core w \<and> (r = Inl ErrDriver \<or> r = Inr (blocked_by (w_db w) x y))"
  unfolding IsBlocked_def by (erule seq_actE; drule query_D) (auto simp: ok_def count_blocks_pos [symmetric])

lemma UserByID_D:
  assumes "UserByID i w = (r, w')"
  shows "core w' = core w \<and> (is_ok r \<longrightarrow> user_exists (w_db w) i)"
proof -
  have "find (\<lambda>u. u_id u = i) (users (w_db w)) \<noteq> None \<longleftrightarrow> user_exists (w_db w) i"
    using find_None_map [of u_id i "users (w_db w)"] by (simp add: user_exists_def)
  then show ?thesis using query_row_D [OF assms [unfolded UserByID_def]] by (auto split: option.splits)
qed

text \<open>C19. Direct messages: one is stored only for two different users, when the recipient exists and
  has not blocked the author; it goes into the canonical thread of the two, its body is the
  sanitized text cut to 2000 bytes and not empty, and exactly the recipient gets a notification.
  Otherwise an error comes back and the database is as before.\<close>

theorem InsertDM_effect:
  assumes "InsertDM author peer body w = (r, w')"
  shows "(w_db w' = w_db w \<and> \<not> is_ok r) \<or>
    (author \<noteq> peer \<and> user_exists (w_db w) peer \<and> \<not> blocked_by (w_db w) peer author \<and> posted_body body \<noteq> [] \<and>
     length (posted_body body) \<le> 2000 \<and>
     (\<exists>g n a b. w_db w' = (w_db w)\<lparr>messages := messages (w_db w) @ [g],
         messages_fts := messages_fts (w_db w) @ [(g_id g, posted_body body)],
         notifications := notifications (w_db w) @ [n]\<rparr> \<and>
       g_kind g = ''dm'' \<and> g_room_id g = None \<and> g_peer_a g = Some a \<and> g_peer_b g = Some b \<and> a < b \<and> {a, b} = {author, peer} \<and>
       g_author_id g = author \<and> g_body g = posted_body body \<and>
       n_user_id n = peer \<and> n_kind n = ''dm'' \<and> n_message_id n = Some (g_id g) \<and> n_read_at n = None))"
proof (cases "author = peer")
  case True
  then show ?thesis using assms by (auto simp: InsertDM_def fail_def)
next
  case neq: False
  obtain q1 w1 where u: "UserByID peer w = (q1, w1)" by force
  obtain q2 w2 where bl: "IsBlocked peer author w1 = (q2, w2)" by force
  note D1 = UserByID_D [OF u] and D2 = IsBlocked_D [OF bl]
  show ?thesis
  proof (cases "is_ok q1 \<and> q2 = Inr False \<and> SanitizeUserText body \<noteq> []")
    case False
    then have "\<not> is_ok r \<and> w_db w' = w_db w"
      using assms neq u bl D1 D2
      by (auto simp: InsertDM_def seq_act_def attempt_def fail_def core_eq Let_def split: sum.splits if_splits prod.splits)
    then show ?thesis by blast
  next
    case True
    obtain a b where ab: "DMKey author peer = (a, b)" by force
    have found: "attempt (UserByID peer) w = (Inr q1, w1)" using u by (simp add: attempt_def)
    have free: "IsBlocked peer author w1 = (Inr False, w2)" using bl True by simp
    have w2: "w_db w2 = w_db w" using D1 D2 by (simp add: core_eq)
    have "in_tx (seq_act (tx_exec (insert_message ''dm'' None (Some a) (Some b) author (posted_body body) (w_clock w2))) (\<lambda>mid.
        seq_act (tx_exec (insert_notification peer ''dm'' (Some mid) None (w_clock w2))) (\<lambda>_.
        seq_act commit_tx (\<lambda>_. MessageByID mid)))) w2 = (r, w')"
      using assms neq True ab
      by (simp add: InsertDM_def seq_act_Inr [where m = "attempt (UserByID peer)", OF found]
          seq_act_Inr [where m = "IsBlocked peer author", OF free] Let_def posted_body_def now_seq)
    from two_stmt_tx [OF this] show ?thesis
    proof
      assume "w_db w' = w_db w2 \<and> \<not> is_ok r"
      then show ?thesis by (simp add: w2)
    next
      assume "\<exists>mid d1 i d2 w3 w4. insert_message ''dm'' None (Some a) (Some b) author (posted_body body) (w_clock w2) (w_db w2) = Inr (mid, d1) \<and>
        insert_notification peer ''dm'' (Some mid) None (w_clock w2) d1 = Inr (i, d2) \<and> w_db w3 = d2 \<and> w_clock w3 = w_clock w2 \<and>
        MessageByID mid w3 = (r, w4) \<and> w_db w' = w_db w4"
      then obtain mid d1 i d2 w3 w4 where st:
        "insert_message ''dm'' None (Some a) (Some b) author (posted_body body) (w_clock w2) (w_db w2) = Inr (mid, d1)"
        "insert_notification peer ''dm'' (Some mid) None (w_clock w2) d1 = Inr (i, d2)" "w_db w3 = d2"
        "MessageByID mid w3 = (r, w4)" "w_db w' = w_db w4" by blast
      obtain g where g: "d1 = (w_db w2)\<lparr>messages := messages (w_db w2) @ [g], messages_fts := messages_fts (w_db w2) @ [(mid, posted_body body)]\<rparr>"
        "g_id g = mid" "g_kind g = ''dm''" "g_room_id g = None" "g_peer_a g = Some a" "g_peer_b g = Some b" "g_author_id g = author"
        "g_body g = posted_body body"
        using st(1) by (rule insert_message_Inr)
      obtain n where n: "d2 = d1\<lparr>notifications := notifications d1 @ [n]\<rparr>" "n_user_id n = peer" "n_kind n = ''dm''"
        "n_message_id n = Some mid" "n_read_at n = None"
        using st(2) by (rule insert_notification_Inr)
      have db: "w_db w' = d2" using framesD [OF reads_frame(11), of mid w3] st(3-) by (simp add: core_eq)
      have "user_exists (w_db w) peer" "\<not> blocked_by (w_db w) peer author"
        using True D1 D2 by (auto simp: core_eq)
      moreover have "posted_body body \<noteq> []" "length (posted_body body) \<le> 2000"
        using posted_body_bounds [of body] True by (simp_all add: MaxBody_def)
      moreover have "a < b" "{a, b} = {author, peer}" using DMKey_less [OF ab neq] DMKey_set [OF ab] by auto
      ultimately show ?thesis
        using neq g n db w2 by (intro disjI2 conjI exI [of _ g] exI [of _ n] exI [of _ a] exI [of _ b]) simp_all
    qed
  qed
qed

theorem InsertDM_effect_witness:
  "\<exists>g. messages (w_db (snd (InsertDM 1 2 ''hi'' demo))) = [g] \<and> g_peer_a g = Some 1 \<and> g_body g = ''hi''"
proof -
  have "is_ok (fst (InsertDM 1 2 ''hi'' demo))"
    by (simp add: InsertDM_def quiet_run UserByID_def IsBlocked_def count_blocks_def sanitize_hi Let_def DMKey_def
        truncated_def MaxBody_def insert_message_def insert_notification_def user_exists_def message_exists_def
        MessageByID_def select_messages_eq first_row_def next_id_def)
  moreover obtain r w' where run: "InsertDM 1 2 ''hi'' demo = (r, w')" by force
  ultimately show ?thesis
    using InsertDM_effect [OF run] by (auto simp: posted_body_def sanitize_hi truncated_def MaxBody_def doubleton_eq_iff)
qed

section \<open>Pages of the history\<close>

lemma reverse_loop_rev: "i + j + 1 = length xs \<Longrightarrow> i \<le> j + 1 \<Longrightarrow>
    reverse_loop i j xs = take i xs @ rev (take (j + 1 - i) (drop i xs)) @ drop (j + 1) xs"
proof (induction i j xs rule: reverse_loop.induct)
  case (1 i j out)
  show ?case
  proof (cases "i < j")
    case True
    let ?out = "out[i := out ! j, j := out ! i]"
    have len: "i < length out" "j < length out" using True 1(2) by auto
    have "reverse_loop i j out = reverse_loop (i + 1) (j - 1) ?out" using True by (subst reverse_loop.simps) simp
    also have "\<dots> = take (i + 1) ?out @ rev (take (j - 1 + 1 - (i + 1)) (drop (i + 1) ?out)) @ drop (j - 1 + 1) ?out"
      using True 1(2) by (intro 1(1)) auto
    also have "take (i + 1) ?out = take i out @ [out ! j]"
      using True len by (simp add: take_Suc_conv_app_nth take_update_cancel)
    also have "drop (j - 1 + 1) ?out = out ! i # drop (j + 1) out"
      using True len by (simp add: drop_update_cancel Cons_nth_drop_Suc [symmetric])
    also have "take (j - 1 + 1 - (i + 1)) (drop (i + 1) ?out) = take (j - (i + 1)) (drop (i + 1) out)"
      using True by (simp add: drop_update_swap drop_update_cancel take_update_cancel)
    also have "(take i out @ [out ! j]) @ rev (take (j - (i + 1)) (drop (i + 1) out)) @ out ! i # drop (j + 1) out =
        take i out @ rev (take (j + 1 - i) (drop i out)) @ drop (j + 1) out"
    proof -
      have "drop i out = out ! i # drop (i + 1) out" using len by (simp add: Cons_nth_drop_Suc)
      moreover have "take (j - i) (drop (i + 1) out) = take (j - (i + 1)) (drop (i + 1) out) @ [out ! j]"
      proof -
        have "j - i = Suc (j - (i + 1))" using True by simp
        moreover have "drop (i + 1) out ! (j - (i + 1)) = out ! j" using True len by simp
        ultimately show ?thesis using True len by (simp add: take_Suc_conv_app_nth)
      qed
      ultimately show ?thesis using True by (simp add: Suc_diff_le)
    qed
    finally show ?thesis by simp
  next
    case False
    then have "reverse_loop i j out = out" by (subst reverse_loop.simps) simp
    moreover have "take (j + 1 - i) (drop i out) = rev (take (j + 1 - i) (drop i out))"
    proof -
      have "j + 1 - i = 0 \<or> j + 1 - i = 1" using False by linarith
      then show ?thesis by (elim disjE; cases "drop i out") auto
    qed
    moreover have "out = take i out @ take (j + 1 - i) (drop i out) @ drop (j + 1) out"
    proof -
      have "drop i out = take (j + 1 - i) (drop i out) @ drop (j + 1 - i) (drop i out)"
        by (rule append_take_drop_id [symmetric])
      also have "drop (j + 1 - i) (drop i out) = drop (j + 1) out" using 1(3) by simp
      finally show ?thesis by (metis append_take_drop_id)
    qed
    ultimately show ?thesis by simp
  qed
qed

lemma reverse_loop_is_rev: "reverse_loop 0 (length xs - 1) xs = rev xs"
proof (cases xs)
  case Nil
  then show ?thesis by (simp add: reverse_loop.simps)
next
  case (Cons x ys)
  then show ?thesis using reverse_loop_rev [of 0 "length xs - 1" xs] by simp
qed

text \<open>All messages of a room, in the order of their ids.\<close>

definition room_log :: "int \<Rightarrow> database \<Rightarrow> Message list" where
  "room_log rid = select_messages (\<lambda>g. g_kind g = ''room'' \<and> g_room_id g = Some rid)"

lemma filter_unique_key:
  "distinct (map f xs) \<Longrightarrow> i \<in> f ` set xs \<Longrightarrow> \<exists>x. filter (\<lambda>x. f x = i) xs = [x] \<and> f x = i"
proof (induction xs)
  case (Cons x xs)
  show ?case
  proof (cases "f x = i")
    case True
    with Cons.prems have "i \<notin> f ` set xs" by simp
    then have "filter (\<lambda>x. f x = i) xs = []" by (auto simp: filter_empty_conv image_iff)
    with True show ?thesis by simp
  next
    case False
    with Cons show ?thesis by simp
  qed
qed simp

text \<open>The join with the authors neither drops nor repeats a message.\<close>

lemma select_messages_ids:
  assumes "db_ok d"
  shows "map Message_ID (select_messages P d) = map g_id (filter P (messages d))"
proof -
  have join: "[scanMessage g u. u \<leftarrow> us, u_id u = g_author_id g \<and> P g] =
      (if P g then map (scanMessage g) (filter (\<lambda>u. u_id u = g_author_id g) us) else [])" for g us
    by (induction us) auto
  have us: "distinct (map u_id (users d))" using assms by (simp add: db_ok_def ids_ok_def serial_distinct)
  have fk: "\<forall>g \<in> set (messages d). g_author_id g \<in> u_id ` set (users d)"
    using assms by (simp add: db_ok_def fk_ok_def msg_fk_def user_exists_def)
  have "map Message_ID (concat (map (\<lambda>g. if P g then map (scanMessage g) (filter (\<lambda>u. u_id u = g_author_id g) (users d)) else []) gs))
      = map g_id (filter P gs)" if "\<forall>g \<in> set gs. g_author_id g \<in> u_id ` set (users d)" for gs
    using that
  proof (induction gs)
    case (Cons g gs)
    then obtain u where "filter (\<lambda>u. u_id u = g_author_id g) (users d) = [u]"
      using filter_unique_key [OF us, of "g_author_id g"] by auto
    with Cons show ?case by (simp add: scanMessage_def)
  qed simp
  from this [OF fk] show ?thesis unfolding select_messages_eq join .
qed

lemma select_messages_sorted:
  assumes "db_ok d"
  shows "sorted_wrt (<) (map Message_ID (select_messages P d))"
proof -
  have "serial (map g_id (messages d))" using assms by (simp add: db_ok_def ids_ok_def)
  then show ?thesis unfolding select_messages_ids [OF assms] using serial_filter [of g_id "messages d" P] by (simp add: serial_def)
qed

lemma order_desc_sorted: "sorted_wrt (<) (map f xs) \<Longrightarrow> order_desc f xs = rev xs"
  by (simp add: order_desc_def strict_sorted_iff sort_key_id_if_sorted)

lemma map_insort: "map f (insort_key (\<lambda>x. k (f x)) x xs) = insort_key k (f x) (map f xs)"
  by (induction xs) simp_all

lemma map_sort: "map f (sort_key (\<lambda>x. k (f x)) xs) = sort_key k (map f xs)"
  by (induction xs) (simp_all add: map_insort)

text \<open>Scanning the rows of a page gives the page of the scanned messages.\<close>

lemma newest_scanned:
  "map (\<lambda>(g, u). scanMessage g u) (newest limit (message_rows P d)) =
   limited limit (order_desc Message_ID (select_messages P d))"
proof -
  have key: "(g_id \<circ> fst) = (\<lambda>x. Message_ID (case x of (g, u) \<Rightarrow> scanMessage g u))"
    by (auto simp: scanMessage_def)
  have "map (\<lambda>(g, u). scanMessage g u) (order_desc (g_id \<circ> fst) (message_rows P d)) =
      order_desc Message_ID (select_messages P d)"
    unfolding order_desc_def key select_messages_def rev_map [symmetric]
    using map_sort [of "\<lambda>(g, u). scanMessage g u" Message_ID] by simp
  then show ?thesis by (simp add: newest_def limited_def take_map [symmetric])
qed

text \<open>A page of messages that is returned is whole.\<close>

lemma scanned_page:
  assumes "seq_act (query (\<lambda>d. newest limit (message_rows P d))) (\<lambda>rows.
      seq_act (scanMessages rows) (\<lambda>page. seq_act (whole page) f)) w = (Inr a, w')"
  shows "\<exists>w1. core w1 = core w \<and>
    f (limited limit (order_desc Message_ID (select_messages P (w_db w)))) w1 = (Inr a, w')"
proof -
  obtain rows page out w1 w2 w3 where q: "query (\<lambda>d. newest limit (message_rows P d)) w = (Inr rows, w1)"
    and sc: "scanMessages rows w1 = (Inr page, w2)" and wh: "whole page w2 = (Inr out, w3)" and f: "f out w3 = (Inr a, w')"
    using assms by (auto simp: seq_act_ok_iff)
  from wh have page: "page = (out, None)" and w3: "w3 = w2"
    by (auto simp: whole_def ok_def fail_def split: prod.splits option.splits)
  have "core w2 = core w1 \<and> (\<exists>n e. (Inr page :: db_error + _) = Inr ([] @ map (\<lambda>(g, u). scanMessage g u) (take n rows), e) \<and>
      (e = None \<longrightarrow> length rows \<le> n))"
    by (rule scan_rows_D [OF _ sc [unfolded scanMessages_def]]) (simp add: split_beta)
  then have "core w2 = core w1" "out = map (\<lambda>(g, u). scanMessage g u) rows" by (auto simp: page)
  with query_D [OF q] w3 f show ?thesis by (intro exI [of _ w3]) (simp add: newest_scanned)
qed

text \<open>C22. The history of a room that a member is shown is the newest page of it: the last \<open>limit\<close>
  messages of the room (all of them when there are fewer), oldest first, the older ones left out;
  reading changes nothing.\<close>

theorem RoomHistoryForUser_page:
  assumes "store_reach w" and "RoomHistoryForUser uid rid limit w = (Inr page, w')" and "0 \<le> limit"
  shows "member (w_db w) rid uid \<and> w_db w' = w_db w \<and>
    (\<exists>older. room_log rid (w_db w) = older @ page \<and> int (length page) = min limit (int (length (room_log rid (w_db w)))))
    \<and> sorted_wrt (<) (map Message_ID page)"
proof -
  have ok: "db_ok (w_db w)" using store_reach_ok [OF assms(1)] by blast
  from history_read.answers [OF assms(2)] obtain w1 where mem: "member (w_db w) rid uid" and w1: "core w1 = core w"
    and run: "RoomHistory rid limit w1 = (Inr page, w')" by blast
  let ?log = "room_log rid (w_db w)"
  have sorted: "sorted_wrt (<) (map Message_ID ?log)"
    unfolding room_log_def by (rule select_messages_sorted [OF ok])
  let ?out = "limited limit (order_desc Message_ID (room_log rid (w_db w1)))"
  have "\<exists>w2. core w2 = core w1 \<and> ok (reverse_loop 0 (length ?out - 1) ?out) w2 = (Inr page :: db_error + _, w')"
    unfolding room_log_def
    by (rule scanned_page [OF run [unfolded RoomHistory_def]])
  then obtain w2 where w2: "core w2 = core w1" and ret: "ok (reverse_loop 0 (length ?out - 1) ?out) w2 = (Inr page :: db_error + _, w')"
    by (elim exE conjE)
  have db: "w_db w1 = w_db w" using w1 by (simp add: core_eq)
  have out: "?out = limited limit (rev ?log)"
    using order_desc_sorted [OF sorted] by (simp add: db)
  have core: "core w2 = core w" and page: "page = reverse_loop 0 (length ?out - 1) ?out" and w': "w' = w2"
    using w2 w1 ret by (simp_all add: ok_def)
  have "page = rev (take (nat limit) (rev ?log))"
    unfolding page reverse_loop_is_rev using assms(3) by (simp only: out) (simp add: limited_def)
  then have page: "page = drop (length ?log - nat limit) ?log" by (simp add: take_rev)
  then have "?log = take (length ?log - nat limit) ?log @ page" by simp
  moreover have "int (length page) = min limit (int (length ?log))" using assms(3) by (simp add: page)
  moreover have "sorted_wrt (<) (map Message_ID page)"
    using sorted by (simp add: page drop_map [symmetric] sorted_wrt_drop)
  ultimately show ?thesis using mem core w' by (auto simp: core_eq)
qed

theorem RoomHistoryForUser_page_witness: "fst (RoomHistoryForUser 1 1 50 lobby_world) = Inr []"
proof -
  have scan: "quiet w \<Longrightarrow> scan_rows (\<lambda>(g, u). Some (scanMessage g u)) [] rows w = (Inr (map (\<lambda>(g, u). scanMessage g u) rows, None), w)"
    for w rows using quiet_scan [of w "\<lambda>(g, u). Some (scanMessage g u)" "\<lambda>(g, u). scanMessage g u" "[]" rows] by (simp add: split_beta)
  have "is_ok (fst (RoomHistoryForUser 1 1 50 lobby_world))"
    using lobby_member(1,3) member_role_None [of 1 1 "w_db lobby_world"]
    by (auto simp: RoomHistoryForUser_def require_member_def RoomHistory_def IsMember_quiet quiet_def quiet_query seq_act_app ok_app
        scanMessages_def scan whole_def)
  then obtain page w' where run: "RoomHistoryForUser 1 1 50 lobby_world = (Inr page, w')"
    by (cases "RoomHistoryForUser 1 1 50 lobby_world") (auto simp: is_ok_iff)
  have "room_log 1 (w_db lobby_world) = []"
    by (simp add: room_log_def select_messages_eq lobby_world_eq ann_world_eq empty_world_def empty_db_def)
  with RoomHistoryForUser_page [OF run_reach(2) run] run show ?thesis by simp
qed

section \<open>Single messages\<close>

lemma MessageByID_D:
  assumes "MessageByID i w = (r, w')"
  shows "core w' = core w \<and> (r = Inl ErrDriver \<or> r = Inl ErrNoRows \<or>
    (\<exists>g \<in> set (messages (w_db w)). \<exists>u \<in> set (users (w_db w)). g_id g = i \<and> u_id u = g_author_id g \<and> r = Inr (scanMessage g u)))"
proof -
  have "first_row (select_messages (\<lambda>g. g_id g = i) (w_db w)) = Some m \<Longrightarrow>
      \<exists>g \<in> set (messages (w_db w)). \<exists>u \<in> set (users (w_db w)). g_id g = i \<and> u_id u = g_author_id g \<and> m = scanMessage g u" for m
  proof -
    assume "first_row (select_messages (\<lambda>g. g_id g = i) (w_db w)) = Some m"
    then have "m \<in> set (select_messages (\<lambda>g. g_id g = i) (w_db w))" by (auto simp: first_row_def split: list.splits)
    then show ?thesis by (auto simp: select_messages_eq)
  qed
  then show ?thesis using query_row_D [OF assms [unfolded MessageByID_def]] by (auto split: option.splits)
qed

text \<open>Who may read a message, and who may delete it.\<close>

definition may_read :: "database \<Rightarrow> int \<Rightarrow> msg_row \<Rightarrow> bool" where
  "may_read d uid g \<longleftrightarrow>
     (g_kind g = ''room'' \<and> (\<exists>rid. g_room_id g = Some rid \<and> member d rid uid)) \<or>
     (g_kind g = ''dm'' \<and> g_peer_a g \<noteq> None \<and> g_peer_b g \<noteq> None \<and> Some uid \<in> {g_peer_a g, g_peer_b g})"


lemma canReadMessage_D:
  assumes "canReadMessage uid (scanMessage g u) w = (r, w')"
  shows "core w' = core w \<and> (is_ok r \<longrightarrow> may_read (w_db w) uid g)"
proof -
  have core: "core w' = core w" using framesD [OF frames_canReadMessage, of uid "scanMessage g u" w] assms by simp
  moreover have "is_ok r \<longrightarrow> may_read (w_db w) uid g"
  proof (cases "g_kind g = ''room''")
    case True
    then show ?thesis
      using assms require_member_D
      by (fastforce simp: canReadMessage_def scanMessage_def may_read_def fail_def split: option.splits)
  next
    case False
    then show ?thesis
      using assms by (auto simp: canReadMessage_def scanMessage_def may_read_def fail_def split: option.splits if_splits)
  qed
  ultimately show ?thesis by blast
qed

text \<open>C18. A single message, asked for by its id, is shown only to members of its room or to the two
  peers of its thread, and a report about a message can be filed only by someone who may read it.\<close>

theorem single_messages_are_guarded:
  assumes "MessageByIDForUser uid i w = (r, w') \<and> is_ok r \<or>
    ReportMessageForUser uid i reason w = (r', w') \<and> w_db w' \<noteq> w_db w"
  shows "\<exists>g \<in> set (messages (w_db w)). g_id g = i \<and> may_read (w_db w) uid g"
proof -
  have step: ?thesis if "seq_act (MessageByID i) (\<lambda>msg. seq_act (canReadMessage uid msg) (f msg)) w = (q, w')"
    "is_ok q \<and> w_db w' = w_db w \<or> w_db w' \<noteq> w_db w" for f :: "Message \<Rightarrow> unit \<Rightarrow> 'z io" and q
    using that(1)
  proof (cases rule: seq_actE)
    case (err e)
    with MessageByID_D [OF err(1)] that(2) show ?thesis by (auto simp: core_eq)
  next
    case (step msg w1)
    obtain g u where g: "g \<in> set (messages (w_db w))" "g_id g = i" "msg = scanMessage g u" and w1: "core w1 = core w"
      using MessageByID_D [OF step(1)] by auto
    from step(2) show ?thesis
    proof (cases rule: seq_actE)
      case (err e)
      with canReadMessage_D [of uid g u w1] g(3) w1 that(2) show ?thesis by (auto simp: core_eq)
    next
      case (step x w2)
      with canReadMessage_D [of uid g u w1 "Inr x" w2] g w1 show ?thesis by (auto simp: core_eq)
    qed
  qed
  have frame: "MessageByIDForUser uid i w = (r, w') \<Longrightarrow> w_db w' = w_db w"
    using framesD [OF reads_frame(12), of uid i w] by (simp add: core_eq)
  show ?thesis
    using assms
  proof
    assume a: "MessageByIDForUser uid i w = (r, w') \<and> is_ok r"
    then show ?thesis using step [of "\<lambda>msg _. ok msg" r] frame by (simp add: MessageByIDForUser_def)
  next
    assume "ReportMessageForUser uid i reason w = (r', w') \<and> w_db w' \<noteq> w_db w"
    then show ?thesis using step [of "\<lambda>_ _. Report uid ''message'' i reason" r'] by (simp add: ReportMessageForUser_def)
  qed
qed




section \<open>Unread counters\<close>






section \<open>A run with a purge\<close>

text \<open>ann posts in the lobby, reports the message, deletes it; a month later it is purged and ann posts
  again.\<close>

definition hi_row :: msg_row where
  "hi_row = \<lparr>g_id = 1, g_kind = ''room'', g_room_id = Some 1, g_peer_a = None, g_peer_b = None, g_author_id = 1,
     g_body = ''hi'', g_created_at = 0, g_deleted_at = None, g_deleted_by = None\<rparr>"

definition hi_report :: report_row where
  "hi_report = \<lparr>p_id = 1, p_reporter_id = 1, p_target_kind = ''message'', p_target_id = 1, p_reason = ''hi'', p_created_at = 0\<rparr>"

definition post_world :: world where
  "post_world = snd (InsertRoomMessage 1 1 ''hi'' [] lobby_world)"

definition report_world :: world where
  "report_world = snd (ReportMessageForUser 1 1 ''hi'' post_world)"

definition month_world :: world where
  "month_world = (snd (DeleteMessageForUser 1 1 False report_world))\<lparr>w_clock := 2592001, w_faults := []\<rparr>"

definition purged_world :: world where
  "purged_world = snd (PurgeDeletedOlderThan 2592000 month_world)"

definition again_world :: world where
  "again_world = snd (InsertRoomMessage 1 1 ''ho'' [] purged_world)"

lemma sanitize_ho: "SanitizeUserText ''ho'' = ''ho''"
proof -
  have "runes ''ho'' = [104, 111]" by (simp add: runes_def bytes_of_def)
  then show ?thesis
    by (simp add: SanitizeUserText_strip rtrim_def trimmed_def is_control_def of_runes_def encode_def encode_rune_def str_of_def
        char_of_byte)
qed

lemmas run_simps = quiet_def empty_world_def empty_db_def lobby_row_def ann_row_def hi_row_def hi_report_def
lemmas op_simps = InsertRoomMessage_def ReportMessageForUser_def Report_def canReadMessage_def DeleteMessageForUser_def
  DeleteMessage_def PurgeDeletedOlderThan_def require_member_def IsMember_quiet member_role_def member_key_def count_bans_def
  truncated_def MaxBody_def insert_message_def insert_report_def soft_delete_message_def purge_messages_def
  MessageByID_def select_messages_eq first_row_def scanMessage_def user_exists_def room_exists_def next_id_def Let_def

lemma post_world_eq: "post_world = lobby_world\<lparr>w_db := (w_db lobby_world)\<lparr>messages := [hi_row], messages_fts := [(1, ''hi'')]\<rparr>\<rparr>"
  by (simp add: post_world_def op_simps quiet_run sanitize_hi lobby_world_eq ann_world_eq run_simps)

lemma report_world_eq: "report_world = post_world\<lparr>w_db := (w_db post_world)\<lparr>reports := [hi_report]\<rparr>\<rparr>"
  by (simp add: report_world_def op_simps quiet_run sanitize_hi post_world_eq lobby_world_eq ann_world_eq run_simps)

lemma month_world_eq: "month_world = report_world\<lparr>w_clock := 2592001, w_db := (w_db report_world)\<lparr>
    messages := [hi_row\<lparr>g_deleted_at := Some 0, g_deleted_by := Some 1\<rparr>]\<rparr>\<rparr>"
  by (simp add: month_world_def op_simps quiet_run report_world_eq post_world_eq lobby_world_eq ann_world_eq run_simps)

lemma purged_world_eq: "purged_world = month_world\<lparr>w_db := (w_db month_world)\<lparr>messages := [], messages_fts := []\<rparr>\<rparr>"
  by (simp add: purged_world_def op_simps quiet_run month_world_eq report_world_eq post_world_eq lobby_world_eq ann_world_eq run_simps)

lemma again_world_eq: "again_world = purged_world\<lparr>w_db := (w_db purged_world)\<lparr>
    messages := [hi_row\<lparr>g_body := ''ho'', g_created_at := 2592001\<rparr>], messages_fts := [(1, ''ho'')]\<rparr>\<rparr>"
  by (simp add: again_world_def op_simps quiet_run sanitize_ho purged_world_eq month_world_eq report_world_eq post_world_eq
      lobby_world_eq ann_world_eq run_simps)

lemma run_steps: "store_step\<^sup>*\<^sup>* report_world again_world" and report_reach: "store_reach report_world"
  and post_reach: "store_reach post_world"
proof -
  show post: "store_reach post_world"
    unfolding post_world_def by (rule snd_step [OF _ run_reach(2)]) (rule step_InsertRoomMessage)
  show "store_reach report_world"
    unfolding report_world_def by (rule snd_step [OF _ post]) (rule step_ReportMessage)
  have "store_step report_world (snd (DeleteMessageForUser 1 1 False report_world))"
    by (rule step_DeleteMessageForUser [of 1 1 False _ "fst (DeleteMessageForUser 1 1 False report_world)"]) simp
  moreover have "store_step (snd (DeleteMessageForUser 1 1 False report_world)) month_world"
    unfolding month_world_def by (rule step_env)
  moreover have "store_step month_world purged_world"
    unfolding purged_world_def by (rule step_Purge [of 2592000 _ "fst (PurgeDeletedOlderThan 2592000 month_world)"]) simp
  moreover have "store_step purged_world again_world"
    unfolding again_world_def
    by (rule step_InsertRoomMessage [of 1 1 "''ho''" "[]" _ "fst (InsertRoomMessage 1 1 ''ho'' [] purged_world)"]) simp
  ultimately show "store_step\<^sup>*\<^sup>* report_world again_world" by (meson converse_rtranclp_into_rtranclp rtranclp.rtrancl_refl)
qed

text \<open>Ids of purged messages are given out again, and reports keep the id they were filed with: a
  report about one message can later point at another message with another text.\<close>

theorem reported_id_is_reused:
  "\<exists>w w' p g g'. store_reach w \<and> store_step\<^sup>*\<^sup>* w w' \<and> p \<in> set (reports (w_db w)) \<and> p \<in> set (reports (w_db w')) \<and>
     p_target_kind p = ''message'' \<and> g \<in> set (messages (w_db w)) \<and> g' \<in> set (messages (w_db w')) \<and>
     g_id g = p_target_id p \<and> g_id g' = p_target_id p \<and> g_body g \<noteq> g_body g'"
proof -
  let ?ho = "hi_row\<lparr>g_body := ''ho'', g_created_at := 2592001\<rparr>"
  have "reports (w_db report_world) = [hi_report]" "messages (w_db report_world) = [hi_row]"
    "reports (w_db again_world) = [hi_report]" "messages (w_db again_world) = [?ho]"
    by (simp_all add: report_world_eq post_world_eq again_world_eq purged_world_eq month_world_eq)
  then have "hi_report \<in> set (reports (w_db report_world))" "hi_report \<in> set (reports (w_db again_world))"
    "hi_row \<in> set (messages (w_db report_world))" "?ho \<in> set (messages (w_db again_world))" by simp_all
  moreover have "p_target_kind hi_report = ''message''" "g_id hi_row = p_target_id hi_report" "g_id ?ho = p_target_id hi_report"
    "g_body hi_row \<noteq> g_body ?ho" by (simp_all add: hi_row_def hi_report_def)
  ultimately show ?thesis using report_reach run_steps by blast
qed


theorem single_messages_are_guarded_witness: "may_read (w_db post_world) 1 hi_row"
proof -
  have "is_ok (fst (MessageByIDForUser 1 1 post_world))"
    by (simp add: MessageByIDForUser_def op_simps quiet_run post_world_eq lobby_world_eq ann_world_eq run_simps)
  then have "MessageByIDForUser 1 1 post_world = (fst (MessageByIDForUser 1 1 post_world), snd (MessageByIDForUser 1 1 post_world))
      \<and> is_ok (fst (MessageByIDForUser 1 1 post_world))" by simp
  from single_messages_are_guarded [OF disjI1 [OF this]] show ?thesis by (simp add: post_world_eq)
qed



end
