(* ===== verification/Auth.thy ===== *)
theory Auth
  imports GoText
begin

text \<open>
  Package \<^verbatim>\<open>internal/auth\<close>: fingerprints and the authorized-keys form of public keys. A
  public key of \<^verbatim>\<open>golang.org/x/crypto/ssh\<close> is represented by the bytes it marshals to; the
  parser of key lines (\<open>parse\<close>), the authorized-keys form (\<open>marshal\<close>) and the digest SHA-256
  (\<open>sha\<close>) are parameters. Bytes are natural numbers below 256.
\<close>

datatype PublicKey = PublicKey (Marshal: "nat list")

section \<open>Package encoding/base64\<close>

definition alphabet :: string where
  "alphabet = ''ABCDEFGHIJKLMNOPQRSTUVWXYZabcdefghijklmnopqrstuvwxyz0123456789+/''"

definition digit64 :: "nat \<Rightarrow> char" where
  "digit64 n = alphabet ! n"

text \<open>\<open>RawStdEncoding.EncodeToString\<close>: six bits to a character, no padding.\<close>

fun raw_base64 :: "nat list \<Rightarrow> string" where
  "raw_base64 [] = []"
| "raw_base64 [a] = [digit64 (a div 4), digit64 (a mod 4 * 16)]"
| "raw_base64 [a, b] = [digit64 (a div 4), digit64 (a mod 4 * 16 + b div 16), digit64 (b mod 16 * 4)]"
| "raw_base64 (a # b # c # bs) =
     [digit64 (a div 4), digit64 (a mod 4 * 16 + b div 16), digit64 (b mod 16 * 4 + c div 64), digit64 (c mod 64)]
     @ raw_base64 bs"

lemma digit64_eq: "m < 64 \<Longrightarrow> n < 64 \<Longrightarrow> digit64 m = digit64 n \<longleftrightarrow> m = n"
proof -
  have "distinct alphabet" "length alphabet = 64" by (simp_all add: alphabet_def)
  then show "m < 64 \<Longrightarrow> n < 64 \<Longrightarrow> ?thesis" by (simp add: digit64_def nth_eq_iff_index_eq)
qed

lemma raw_base64_eq_Nil: "raw_base64 xs = [] \<longleftrightarrow> xs = []"
  by (cases xs rule: raw_base64.cases) simp_all

text \<open>A number below \<open>k * n\<close> is determined by its quotient and its remainder.\<close>

lemma mixed_eq:
  fixes m r m' r' k :: nat
  assumes "m * k + r = m' * k + r'" and "r < k" and "r' < k"
  shows "m = m'" and "r = r'"
proof -
  have "(m * k + r) div k = m" "(m' * k + r') div k = m'" using assms(2,3) by simp_all
  with assms(1) show "m = m'" by simp
  with assms(1) show "r = r'" by simp
qed

lemma split_eqI:
  fixes a b k :: nat
  assumes "a div k = b div k" and "a mod k = b mod k"
  shows "a = b"
  using assms by (metis div_mult_mod_eq)

lemma small_div [simp]: "b < 256 \<Longrightarrow> b div 16 < (16::nat)" "b < 256 \<Longrightarrow> b div 4 < (64::nat)" "b < 256 \<Longrightarrow> b div 64 < (4::nat)"
  by simp_all

lemma digits_lt:
  fixes a b :: nat
  shows "b < 256 \<Longrightarrow> a mod 4 * 16 + b div 16 < 64" "b < 256 \<Longrightarrow> a mod 16 * 4 + b div 64 < 64"
    "a mod 4 * 16 < 64" "a mod 16 * 4 < 64"
  using small_div [of b] mod_less_divisor [of 4 a] mod_less_divisor [of 16 a] by linarith+

lemma raw_base64_inj:
  "raw_base64 xs = raw_base64 ys \<Longrightarrow> \<forall>b \<in> set xs. b < 256 \<Longrightarrow> \<forall>b \<in> set ys. b < 256 \<Longrightarrow> xs = ys"
proof (induction xs arbitrary: ys rule: raw_base64.induct)
  case 1
  then show ?case by (cases ys rule: raw_base64.cases) simp_all
next
  case (2 a)
  show ?case
  proof (cases ys rule: raw_base64.cases)
    case (2 a')
    have "a div 4 = a' div 4" "a mod 4 * 16 = a' mod 4 * 16"
      using "2.prems" by (simp_all add: 2 digit64_eq digits_lt)
    then show ?thesis using split_eqI [of a 4 a'] by (simp add: 2)
  qed (use "2.prems" in \<open>simp_all\<close>)
next
  case (3 a b)
  show ?case
  proof (cases ys rule: raw_base64.cases)
    case (3 a' b')
    have "a div 4 = a' div 4" "a mod 4 * 16 + b div 16 = a' mod 4 * 16 + b' div 16" "b mod 16 * 4 = b' mod 16 * 4"
      using "3.prems" by (simp_all add: 3 digit64_eq digits_lt)
    moreover note mixed_eq [OF this(2)]
    ultimately show ?thesis using "3.prems" split_eqI [of a 4 a'] split_eqI [of b 16 b'] by (simp add: 3)
  qed (use "3.prems" in \<open>simp_all\<close>)
next
  case (4 a b c bs)
  show ?case
  proof (cases ys rule: raw_base64.cases)
    case (4 a' b' c' bs')
    have "a div 4 = a' div 4" "a mod 4 * 16 + b div 16 = a' mod 4 * 16 + b' div 16"
      "b mod 16 * 4 + c div 64 = b' mod 16 * 4 + c' div 64" "c mod 64 = c' mod 64"
      "raw_base64 bs = raw_base64 bs'"
      using "4.prems" by (simp_all add: 4 digit64_eq digits_lt)
    moreover note mixed_eq [OF this(2)] mixed_eq [OF this(3)] "4.IH" [OF this(5)]
    ultimately show ?thesis
      using "4.prems" split_eqI [of a 4 a'] split_eqI [of b 16 b'] split_eqI [of c 64 c'] by (simp add: 4)
  qed (use "4.prems" in \<open>simp_all add: raw_base64_eq_Nil\<close>)
qed

section \<open>The package\<close>

definition Fingerprint :: "(nat list \<Rightarrow> nat list) \<Rightarrow> PublicKey \<Rightarrow> string" where
  "Fingerprint sha k = (let sum = sha (Marshal k); enc = raw_base64 sum in ''SHA256:'' @ enc)"

definition hexDigits :: string where
  "hexDigits = ''0123456789abcdef''"

text \<open>The loop writes \<open>out\<close> by index; bytes are below 256, so both indices are in range.\<close>

fun toHex :: "nat list \<Rightarrow> string" where
  "toHex [] = []"
| "toHex (c # cs) = hexDigits ! (c div 16) # hexDigits ! (c mod 16) # toHex cs"

text \<open>The slice of the last eight characters panics (\<open>None\<close>) on a shorter text.\<close>

definition ShortFingerprint :: "(rune \<Rightarrow> rune) \<Rightarrow> (nat list \<Rightarrow> nat list) \<Rightarrow> PublicKey \<Rightarrow> string option" where
  "ShortFingerprint ulow sha k =
     (let sum = sha (Marshal k); hex = to_lower ulow (toHex sum) in
      if length hex < 8 then None else Some (drop (length hex - 8) hex))"

definition AuthorizedKey :: "(PublicKey \<Rightarrow> string) \<Rightarrow> PublicKey \<Rightarrow> string" where
  "AuthorizedKey marshal k = trim_space (marshal k)"

definition ParseAuthorizedKey ::
  "(string \<Rightarrow> string + PublicKey) \<Rightarrow> (nat list \<Rightarrow> nat list) \<Rightarrow> string \<Rightarrow> string + (PublicKey \<times> string)" where
  "ParseAuthorizedKey parse sha line =
     (case parse line of Inl err \<Rightarrow> Inl err | Inr k \<Rightarrow> Inr (k, Fingerprint sha k))"

section \<open>Properties\<close>

text \<open>What is used of SHA-256: the digest is 32 bytes.\<close>

definition digest32 :: "(nat list \<Rightarrow> nat list) \<Rightarrow> bool" where
  "digest32 sha \<longleftrightarrow> (\<forall>bs. length (sha bs) = 32 \<and> (\<forall>b \<in> set (sha bs). b < 256))"

text \<open>The fingerprint identifies the key as far as SHA-256 does: two keys have the same fingerprint
  only when their digests are the same, since the base64 form loses nothing.\<close>

theorem Fingerprint_identifies:
  assumes "digest32 sha" and "Fingerprint sha k = Fingerprint sha k'"
  shows "sha (Marshal k) = sha (Marshal k')"
  using assms raw_base64_inj [of "sha (Marshal k)" "sha (Marshal k')"]
  by (auto simp: Fingerprint_def digest32_def)

theorem Fingerprint_identifies_witness:
  "digest32 (\<lambda>_. replicate 32 7) \<and>
   (\<lambda>_. replicate 32 7) (Marshal (PublicKey [1])) = (\<lambda>_. replicate 32 7) (Marshal (PublicKey [2]))"
  using Fingerprint_identifies [of "\<lambda>_. replicate 32 7" "PublicKey [1]" "PublicKey [2]"]
  by (simp add: digest32_def Fingerprint_def)

lemma length_toHex: "length (toHex bs) = 2 * length bs"
  by (induction bs) simp_all

end
