(* ===== verification/TuiState.thy ===== *)
theory TuiState
  imports StoreMessages Hub Auth
begin

text \<open>
  Package \<^verbatim>\<open>internal/tui\<close>: the state of a session and what its handlers run in.

  \<open>ui\<close> is a session's view of the process: its own model, the store's \<open>world\<close>, the hub, the
  answers of the rate-limit hook and the number of calls of \<open>OnDisconnect\<close>. A handler is an action
  on it that may panic (\<open>crash\<close>). \<open>store_op\<close> and \<open>hub_op\<close> run an operation of the store or of the
  hub inside a handler. The libraries the package draws on (lipgloss styles, the text area of
  bubbles, time formats, the parser of key lines, FTS5, driver error texts) are the parameters
  of the record \<open>ext\<close>.
\<close>

section \<open>Package fmt: decimal integers\<close>

fun show_nat :: "nat \<Rightarrow> string" where
  "show_nat n = (if n < 10 then [char_of (48 + n)] else show_nat (n div 10) @ [char_of (48 + n mod 10)])"

declare show_nat.simps [simp del]

definition show_int :: "int \<Rightarrow> string" where
  "show_int i = (if i < 0 then CHR ''-'' # show_nat (nat (- i)) else show_nat (nat i))"

text \<open>Go's remainder takes the sign of the dividend.\<close>

definition go_rem :: "int \<Rightarrow> int \<Rightarrow> int" where
  "go_rem a b = sgn a * (\<bar>a\<bar> mod \<bar>b\<bar>)"

section \<open>Text of the interface outside ASCII\<close>

definition emdash :: string where
  "emdash = [CHR 0xE2, CHR 0x80, CHR 0x94]"

definition endash :: string where
  "endash = [CHR 0xE2, CHR 0x80, CHR 0x93]"

definition ellipsis :: string where
  "ellipsis = [CHR 0xE2, CHR 0x80, CHR 0xA6]"

definition bullet :: string where
  "bullet = [CHR 0xE2, CHR 0x80, CHR 0xA2]"

section \<open>Messages, commands and the libraries\<close>

datatype pane = paneNav | paneChat | paneMembers

datatype viewKind = viewRoom | viewDM | viewNone

text \<open>The styles of \<^verbatim>\<open>styles.go\<close>, by name; how they render is a parameter.\<close>

datatype style =
  stTimestamp | stHandle | stMuted | stMention | stAccent | stError | stOk | stTitle | stSelected
| stOnlineDot | stOfflineDot | stBorder | stBorderActive | stStatusBar | stTitleBar

text \<open>What Bubble Tea delivers to \<open>Update\<close>; a key is the text of \<open>KeyMsg.String\<close>.\<close>

datatype msg =
  WindowSizeMsg int int
| tickMsg
| hubEventMsg Event
| disconnectMsg
| infoMsg string bool
| KeyMsg string
| OtherMsg

text \<open>
  What a handler returns to be run. \<open>ListenHub\<close> has captured the subscription (a pointer that may
  be nil); \<open>EditorCmd\<close> is a command of the text area or of the text input.
\<close>

datatype cmd =
  NoCmd
| Batch "cmd list"
| ListenHub "Sub option"
| TickCmd
| DisconnectCmd
| FlashCmd string bool
| QuitCmd
| EditorCmd

record TextArea =
  ta_value :: string
  ta_focused :: bool
  ta_width :: int

record Viewport =
  vp_Width :: int
  vp_Height :: int
  vp_content :: string

record ext =
  x_lower :: "rune \<Rightarrow> rune"
  x_fold :: "string \<Rightarrow> string \<Rightarrow> bool"
  x_style :: "style \<Rightarrow> string \<Rightarrow> string"
  x_time :: "string \<Rightarrow> int \<Rightarrow> string"
  x_error :: "db_error \<Rightarrow> string"
  x_fts :: "string \<Rightarrow> (string \<Rightarrow> bool) option"
  x_edit :: "msg \<Rightarrow> TextArea \<Rightarrow> TextArea"
  x_input :: "msg \<Rightarrow> TextArea \<Rightarrow> TextArea"
  x_set :: "string \<Rightarrow> string"
  x_parse_key :: "string \<Rightarrow> string + PublicKey"
  x_marshal_key :: "PublicKey \<Rightarrow> string"
  x_sha256 :: "nat list \<Rightarrow> nat list"

text \<open>\<open>err.Error()\<close>: the store's own errors carry their text.\<close>

definition Error :: "ext \<Rightarrow> db_error \<Rightarrow> string" where
  "Error X e = (case e of ErrMsg s \<Rightarrow> s | _ \<Rightarrow> x_error X e)"

section \<open>The models\<close>

text \<open>\<open>Deps\<close>: the store, the hub and the hooks live in \<open>ui\<close>; here whether a hook is set.\<close>

record Deps =
  Deps_Fingerprint :: string
  Deps_PublicKey :: string
  Deps_ShortFP :: string
  Deps_DefaultRoom :: string
  Deps_RateMsg :: bool
  Deps_Width :: int
  Deps_Height :: int
  Deps_Done :: bool
  Deps_OnDisconnect :: bool

text \<open>
  The main model. A Go map reads as its zero value where a key is missing: counters are functions
  to integers, flags functions to booleans, the histories a function to lists. The entries
  of \<open>dmPeers\<close> and \<open>userCache\<close> for the user's own id are the pointer \<open>user\<close>.
\<close>

record AppModel =
  a_deps :: Deps
  a_user :: User
  a_width :: int
  a_height :: int
  a_rooms :: "Room list"
  a_dmPeers :: "User list"
  a_userCache :: "int \<rightharpoonup> User"
  a_current :: viewKind
  a_currentRoomID :: int
  a_currentPeerID :: int
  a_pane :: pane
  a_vp :: Viewport
  a_composer :: TextArea
  a_messages :: "string \<Rightarrow> Message list"
  a_cmdHistory :: "string list"
  a_cmdHistoryIdx :: int
  a_members :: "Member list"
  a_online :: "int \<Rightarrow> bool"
  a_blocked :: "int \<Rightarrow> bool"
  a_unreadRoom :: "int \<Rightarrow> int"
  a_unreadDM :: "int \<Rightarrow> int"
  a_mentionRoom :: "int \<Rightarrow> bool"
  a_hubSub :: "Sub option"
  a_flashLine :: string
  a_flashUntil :: int
  a_help :: bool

record chanItem =
  ci_kind :: viewKind
  ci_roomID :: int
  ci_peerID :: int
  ci_label :: string
  ci_unread :: int
  ci_mention :: bool
  ci_online :: bool

section \<open>Handlers\<close>

datatype crash = NilDeref | OutOfRange | ClosedChannel | BadSlice

text \<open>
  \<open>ui_nil\<close> lists the rooms whose subscriber set in the hub holds a nil pointer besides the
  subscribers the hub model has: \<open>JoinRoom\<close> stores whatever pointer it is given. When the answers
  of the rate hook are used up, it allows.
\<close>

record 'm ui =
  ui_model :: 'm
  ui_world :: world
  ui_hub :: Hub
  ui_nil :: "int list"
  ui_rate :: "bool list"
  ui_released :: nat

text \<open>The same process, seen with another model.\<close>

definition with_model :: "'n \<Rightarrow> 'm ui \<Rightarrow> 'n ui" where
  "with_model n s = \<lparr>ui_model = n, ui_world = ui_world s, ui_hub = ui_hub s, ui_nil = ui_nil s,
     ui_rate = ui_rate s, ui_released = ui_released s\<rparr>"

lemma with_model_simps [simp]:
  "ui_model (with_model n s) = n" "ui_world (with_model n s) = ui_world s" "ui_hub (with_model n s) = ui_hub s"
  "ui_nil (with_model n s) = ui_nil s" "ui_rate (with_model n s) = ui_rate s"
  "ui_released (with_model n s) = ui_released s" "with_model n (with_model m s) = with_model n s"
  by (simp_all add: with_model_def)

type_synonym ('m, 'a) handler = "('m ui, crash, 'a) act"

definition reading :: "('m ui \<Rightarrow> 'b) \<Rightarrow> ('b \<Rightarrow> ('m, 'a) handler) \<Rightarrow> ('m, 'a) handler" where
  "reading f k = (\<lambda>s. k (f s) s)"

definition modify :: "('m \<Rightarrow> 'm) \<Rightarrow> ('m, unit) handler" where
  "modify f = (\<lambda>s. (Inr (), s\<lparr>ui_model := f (ui_model s)\<rparr>))"

abbreviation reading_model :: "('m \<Rightarrow> 'b) \<Rightarrow> ('b \<Rightarrow> ('m, 'a) handler) \<Rightarrow> ('m, 'a) handler" where
  "reading_model f \<equiv> reading (\<lambda>s. f (ui_model s))"

text \<open>A call of the store: its error is a value, and the handler looks at it or not.\<close>

definition store_op :: "'a io \<Rightarrow> ('m, db_error + 'a) handler" where
  "store_op m = (\<lambda>s. case m (ui_world s) of (r, w) \<Rightarrow> (Inr r, s\<lparr>ui_world := w\<rparr>))"

definition clock :: "('m, int) handler" where
  "clock = (\<lambda>s. (Inr (w_clock (ui_world s)), s))"

definition hub_op :: "(Hub \<Rightarrow> ('a \<times> Hub) option) \<Rightarrow> ('m, 'a) handler" where
  "hub_op f = (\<lambda>s. case f (ui_hub s) of
     None \<Rightarrow> (Inl ClosedChannel, s)
   | Some (a, h) \<Rightarrow> (Inr a, s\<lparr>ui_hub := h\<rparr>))"

abbreviation hub_do :: "(Hub \<Rightarrow> Hub option) \<Rightarrow> ('m, unit) handler" where
  "hub_do f \<equiv> hub_op (\<lambda>h. map_option (Pair ()) (f h))"

text \<open>
  The hub's operations as the session calls them. Sending to a nil subscriber, or reading its
  user, dereferences nil; which other subscribers were served before that depends on the
  order of the map and is not modelled.
\<close>

definition nil_free :: "(int list \<Rightarrow> Hub \<Rightarrow> bool) \<Rightarrow> ('m, 'a) handler \<Rightarrow> ('m, 'a) handler" where
  "nil_free touched m = reading (\<lambda>s. touched (ui_nil s) (ui_hub s)) (\<lambda>hit. if hit then fail NilDeref else m)"

definition hub_Subscribe :: "int \<Rightarrow> ('m, Sub) handler" where
  "hub_Subscribe uid = nil_free (\<lambda>bad h. bad \<noteq> [] \<and> count_at (h_presenceCnt h) uid = 0) (hub_op (Subscribe uid))"

definition hub_Unsubscribe :: "Sub \<Rightarrow> ('m, unit) handler" where
  "hub_Unsubscribe s = nil_free (\<lambda>bad h. bad \<noteq> [] \<and> fst (unsubscribe_maps s h)) (hub_do (Unsubscribe s))"

definition hub_JoinRoom :: "Sub option \<Rightarrow> int \<Rightarrow> ('m, unit) handler" where
  "hub_JoinRoom sub rid = (case sub of
     None \<Rightarrow> (\<lambda>s. (Inr (), s\<lparr>ui_nil := List.insert rid (ui_nil s)\<rparr>))
   | Some s \<Rightarrow> hub_do (\<lambda>h. Some (JoinRoom s rid h)))"

definition hub_LeaveRoom :: "Sub option \<Rightarrow> int \<Rightarrow> ('m, unit) handler" where
  "hub_LeaveRoom sub rid = (case sub of
     None \<Rightarrow> (\<lambda>s. (Inr (), s\<lparr>ui_nil := removeAll rid (ui_nil s)\<rparr>))
   | Some s \<Rightarrow> hub_do (\<lambda>h. Some (LeaveRoom s rid h)))"

definition hub_RemoveUserFromRoom :: "int \<Rightarrow> int \<Rightarrow> ('m, unit) handler" where
  "hub_RemoveUserFromRoom uid rid = nil_free (\<lambda>bad _. rid \<in> set bad) (hub_do (RemoveUserFromRoom uid rid))"

definition hub_PublishRoom :: "int \<Rightarrow> Event \<Rightarrow> ('m, unit) handler" where
  "hub_PublishRoom rid ev = nil_free (\<lambda>bad _. rid \<in> set bad) (hub_do (PublishRoom rid ev))"

definition hub_PublishUser :: "int \<Rightarrow> Event \<Rightarrow> ('m, unit) handler" where
  "hub_PublishUser uid ev = hub_do (PublishUser uid ev)"

text \<open>The two hooks of \<open>Deps\<close>.\<close>

definition call_RateMsg :: "('m, bool) handler" where
  "call_RateMsg = (\<lambda>s. case ui_rate s of [] \<Rightarrow> (Inr True, s) | b # bs \<Rightarrow> (Inr b, s\<lparr>ui_rate := bs\<rparr>))"

definition call_OnDisconnect :: "('m, unit) handler" where
  "call_OnDisconnect = (\<lambda>s. (Inr (), s\<lparr>ui_released := ui_released s + 1\<rparr>))"

text \<open>A loop over a slice.\<close>

fun for_all :: "('x \<Rightarrow> ('m, unit) handler) \<Rightarrow> 'x list \<Rightarrow> ('m, unit) handler" where
  "for_all f [] = ok ()"
| "for_all f (x # xs) = seq_act (f x) (\<lambda>_. for_all f xs)"

abbreviation next_act :: "('s, 'e, 'a) act \<Rightarrow> ('s, 'e, 'b) act \<Rightarrow> ('s, 'e, 'b) act" where
  "next_act m n \<equiv> seq_act m (\<lambda>_. n)"

text \<open>Leaving a branch: \<^verbatim>\<open>return flash(...)\<close>.\<close>

definition flash :: "string \<Rightarrow> bool \<Rightarrow> cmd" where
  "flash text isErr = FlashCmd text isErr"

end
