(* ===== verification/TuiView.thy ===== *)
theory TuiView
  imports TuiState
begin

text \<open>
  \<^verbatim>\<open>internal/tui/app.go\<close>: the constructor of the main model, the refreshes from the store, opening
  a room or a direct message, the history pane, navigation, and leaving. One definition per function,
  under its name. An error the code discards is an \<open>Inl\<close> that the handler maps to the zero value the
  code goes on with.
\<close>

section \<open>Construction and layout\<close>

definition NewAppModel :: "Deps \<Rightarrow> User \<Rightarrow> AppModel" where
  "NewAppModel d u = \<lparr>a_deps = d, a_user = u, a_width = Deps_Width d, a_height = Deps_Height d,
     a_rooms = [], a_dmPeers = [], a_userCache = [User_ID u \<mapsto> u], a_current = viewNone,
     a_currentRoomID = 0, a_currentPeerID = 0, a_pane = paneChat,
     a_vp = \<lparr>vp_Width = 0, vp_Height = 0, vp_content = []\<rparr>,
     a_composer = \<lparr>ta_value = [], ta_focused = True, ta_width = 0\<rparr>,
     a_messages = (\<lambda>_. []), a_cmdHistory = [], a_cmdHistoryIdx = 0, a_members = [],
     a_online = (\<lambda>_. False), a_blocked = (\<lambda>_. False), a_unreadRoom = (\<lambda>_. 0), a_unreadDM = (\<lambda>_. 0),
     a_mentionRoom = (\<lambda>_. False), a_hubSub = None, a_flashLine = [], a_flashUntil = 0, a_help = False\<rparr>"

definition recalcLayout :: "AppModel \<Rightarrow> AppModel" where
  "recalcLayout m =
     (let w = a_width m; h = a_height m in
      if w < 80 \<or> h < 24 then m
      else
        let navW = 22; memberW = 20;
            chatW = w - navW - memberW - 6;
            chatW = (if a_current m = viewDM then w - navW - 4 else chatW);
            chatW = (if chatW < 30 then 30 else chatW);
            composerH = 3;
            chatH = h - composerH - 5;
            chatH = (if chatH < 5 then 5 else chatH)
        in m\<lparr>a_vp := (a_vp m)\<lparr>vp_Width := chatW, vp_Height := chatH\<rparr>,
             a_composer := (a_composer m)\<lparr>ta_width := chatW\<rparr>\<rparr>)"

definition room_key :: "int \<Rightarrow> string" where
  "room_key rid = ''room:'' @ show_int rid"

definition dm_key :: "int \<Rightarrow> string" where
  "dm_key peer = ''dm:'' @ show_int peer"

definition curKey :: "AppModel \<Rightarrow> string" where
  "curKey m = (if a_current m = viewRoom then room_key (a_currentRoomID m)
     else if a_current m = viewDM then dm_key (a_currentPeerID m)
     else [])"

section \<open>Refreshing from the store\<close>

abbreviation my_id :: "AppModel \<Rightarrow> int" where
  "my_id m \<equiv> User_ID (a_user m)"

definition refreshRooms :: "(AppModel, unit) handler" where
  "refreshRooms =
     reading_model my_id (\<lambda>me.
     seq_act (store_op (ListUserRooms me)) (\<lambda>r.
     case checked r of Inl _ \<Rightarrow> ok () | Inr rs \<Rightarrow> modify (\<lambda>m. m\<lparr>a_rooms := rs\<rparr>)))"

definition cachedUser :: "int \<Rightarrow> (AppModel, db_error + User) handler" where
  "cachedUser i =
     reading_model (\<lambda>m. a_userCache m i) (\<lambda>hit.
     case hit of
       Some u \<Rightarrow> ok (Inr u)
     | None \<Rightarrow> seq_act (store_op (UserByID i)) (\<lambda>r.
         case r of
           Inl e \<Rightarrow> ok (Inl e)
         | Inr u \<Rightarrow> next_act (modify (\<lambda>m. m\<lparr>a_userCache := (a_userCache m)(i \<mapsto> u)\<rparr>)) (ok (Inr u))))"

definition add_peer :: "int \<Rightarrow> (AppModel, unit) handler" where
  "add_peer i =
     seq_act (cachedUser i) (\<lambda>r.
     case r of Inl _ \<Rightarrow> ok () | Inr u \<Rightarrow> modify (\<lambda>m. m\<lparr>a_dmPeers := a_dmPeers m @ [u]\<rparr>))"

definition refreshDMPeers :: "(AppModel, unit) handler" where
  "refreshDMPeers =
     reading_model my_id (\<lambda>me.
     seq_act (store_op (DMPeers me)) (\<lambda>r.
     next_act (modify (\<lambda>m. m\<lparr>a_dmPeers := []\<rparr>))
     (for_all add_peer (kept [] r))))"

definition refreshBlocks :: "(AppModel, unit) handler" where
  "refreshBlocks =
     reading_model my_id (\<lambda>me.
     seq_act (store_op (BlockedIDs me)) (\<lambda>r.
     modify (\<lambda>m. m\<lparr>a_blocked := (\<lambda>i. i \<in> set (kept [] r))\<rparr>)))"

definition refreshUnread :: "(AppModel, unit) handler" where
  "refreshUnread =
     reading_model my_id (\<lambda>me.
     seq_act (store_op (UnreadCounts me)) (\<lambda>r.
     let (rms, dms) = kept (\<lambda>_. 0, \<lambda>_. 0) r in
     modify (\<lambda>m. m\<lparr>a_unreadRoom := rms, a_unreadDM := dms, a_mentionRoom := (\<lambda>r. rms r > 0)\<rparr>)))"

definition refreshMembers :: "int \<Rightarrow> (AppModel, unit) handler" where
  "refreshMembers roomID =
     reading_model my_id (\<lambda>me.
     seq_act (store_op (RoomMembersForUser me roomID)) (\<lambda>r.
     case checked r of
       Inl _ \<Rightarrow> ok ()
     | Inr mem \<Rightarrow> modify (\<lambda>m. m\<lparr>a_members := map (\<lambda>x. x\<lparr>Member_Online := a_online m (Member_UserID x)\<rparr>) mem\<rparr>)))"

section \<open>The history pane\<close>

text \<open>\<^verbatim>\<open>strings.ReplaceAll(body, "\n", "\n        ")\<close>.\<close>

definition indent_lines :: "string \<Rightarrow> string" where
  "indent_lines body = concat (map (\<lambda>c. if c = char_of (10::nat) then c # replicate 8 CHR '' '' else [c]) body)"

text \<open>\<open>None\<close>: a slice of \<open>highlightMentions\<close> is out of range.\<close>

definition renderMessage :: "ext \<Rightarrow> AppModel \<Rightarrow> Message \<Rightarrow> string option" where
  "renderMessage X m msg =
     (let ts = x_style X stTimestamp (x_time X ''15:04'' (Message_CreatedAt msg));
          author = x_style X stHandle (Message_Author msg) in
      if Message_Deleted msg then Some (join [ts, author, x_style X stMuted ''[deleted]''] '' '')
      else if a_blocked m (Message_AuthorID msg) then Some (join [ts, x_style X stMuted ''[blocked user]''] '' '')
      else case highlightMentions (x_lower X) (x_fold X) (x_style X stMention) (x_style X stAccent)
                  (Message_Body msg) (User_Handle (a_user m)) of
        None \<Rightarrow> None
      | Some body \<Rightarrow>
          let idStr = x_style X stMuted (CHR ''#'' # show_int (Message_ID msg)) in
          Some (join [ts, idStr, author, indent_lines body] '' ''))"

fun render_lines :: "ext \<Rightarrow> AppModel \<Rightarrow> Message list \<Rightarrow> string list option" where
  "render_lines X m [] = Some []"
| "render_lines X m (msg # msgs) =
     (case renderMessage X m msg of
        None \<Rightarrow> None
      | Some l \<Rightarrow> map_option (Cons l) (render_lines X m msgs))"

definition renderHistory :: "ext \<Rightarrow> (AppModel, unit) handler" where
  "renderHistory X =
     reading_model (\<lambda>m. render_lines X m (a_messages m (curKey m))) (\<lambda>r.
     case r of
       None \<Rightarrow> fail BadSlice
     | Some ls \<Rightarrow> modify (\<lambda>m. m\<lparr>a_vp := (a_vp m)\<lparr>vp_content := join ls [char_of (10::nat)]\<rparr>\<rparr>))"

text \<open>\<^verbatim>\<open>m.messages[m.curKey()] = hist\<close>, where a discarded error leaves \<open>hist\<close> nil.\<close>

definition set_history :: "db_error + Message list \<Rightarrow> (AppModel, unit) handler" where
  "set_history r = modify (\<lambda>m. m\<lparr>a_messages := (a_messages m)(curKey m := (case r of Inl _ \<Rightarrow> [] | Inr hist \<Rightarrow> hist))\<rparr>)"

definition openRoom :: "ext \<Rightarrow> int \<Rightarrow> (AppModel, unit) handler" where
  "openRoom X roomID =
     next_act (modify (\<lambda>m. m\<lparr>a_current := viewRoom, a_currentRoomID := roomID, a_currentPeerID := 0\<rparr>))
     (reading_model my_id (\<lambda>me.
     seq_act (store_op (RoomHistoryForUser me roomID 200)) (\<lambda>hist.
     next_act (set_history hist) (
     next_act (refreshMembers roomID) (
     next_act (store_op (MarkRoomRead me roomID)) (
     next_act (modify (\<lambda>m. m\<lparr>a_unreadRoom := (a_unreadRoom m)(roomID := 0),
                             a_mentionRoom := (a_mentionRoom m)(roomID := False)\<rparr>))
     (renderHistory X)))))))"

definition openDM :: "ext \<Rightarrow> int \<Rightarrow> (AppModel, unit) handler" where
  "openDM X peerID =
     next_act (modify (\<lambda>m. m\<lparr>a_current := viewDM, a_currentRoomID := 0, a_currentPeerID := peerID\<rparr>))
     (reading_model my_id (\<lambda>me.
     seq_act (store_op (DMHistoryForUser me peerID 200)) (\<lambda>hist.
     next_act (set_history hist) (
     next_act (store_op (MarkDMRead me peerID)) (
     next_act (modify (\<lambda>m. m\<lparr>a_unreadDM := (a_unreadDM m)(peerID := 0), a_members := []\<rparr>))
     (renderHistory X))))))"

section \<open>Navigation\<close>

definition navItems :: "AppModel \<Rightarrow> chanItem list" where
  "navItems m =
     map (\<lambda>r. \<lparr>ci_kind = viewRoom, ci_roomID = Room_ID r, ci_peerID = 0, ci_label = CHR ''#'' # Room_Name r,
                ci_unread = a_unreadRoom m (Room_ID r), ci_mention = a_mentionRoom m (Room_ID r),
                ci_online = False\<rparr>) (a_rooms m)
     @ map (\<lambda>p. \<lparr>ci_kind = viewDM, ci_roomID = 0, ci_peerID = User_ID p, ci_label = CHR ''@'' # User_Handle p,
                  ci_unread = a_unreadDM m (User_ID p), ci_mention = False,
                  ci_online = a_online m (User_ID p)\<rparr>) (a_dmPeers m)"

definition is_current :: "AppModel \<Rightarrow> chanItem \<Rightarrow> bool" where
  "is_current m it \<longleftrightarrow> ci_kind it = a_current m \<and>
     (ci_kind it = viewRoom \<and> ci_roomID it = a_currentRoomID m \<or> ci_kind it = viewDM \<and> ci_peerID it = a_currentPeerID m)"

fun nav_idx :: "AppModel \<Rightarrow> chanItem list \<Rightarrow> int \<Rightarrow> int" where
  "nav_idx m [] i = 0"
| "nav_idx m (it # its) i = (if is_current m it then i else nav_idx m its (i + 1))"

definition currentNavIdx :: "AppModel \<Rightarrow> int" where
  "currentNavIdx m = nav_idx m (navItems m) 0"

definition activate :: "ext \<Rightarrow> chanItem \<Rightarrow> (AppModel, unit) handler" where
  "activate X it = (if ci_kind it = viewRoom then openRoom X (ci_roomID it) else openDM X (ci_peerID it))"

text \<open>\<^verbatim>\<open>m.activate(items[i])\<close>.\<close>

definition activate_at :: "ext \<Rightarrow> int \<Rightarrow> chanItem list \<Rightarrow> (AppModel, unit) handler" where
  "activate_at X i items = (if 0 \<le> i \<and> i < int (length items) then activate X (items ! nat i) else fail OutOfRange)"

definition navMove :: "ext \<Rightarrow> int \<Rightarrow> (AppModel, unit) handler" where
  "navMove X d =
     reading_model (\<lambda>m. (navItems m, currentNavIdx m)) (\<lambda>(items, cur).
     if items = [] then ok ()
     else activate_at X (go_rem (cur + d + int (length items)) (int (length items))) items)"

definition navActivate :: "ext \<Rightarrow> (AppModel, unit) handler" where
  "navActivate X =
     reading_model (\<lambda>m. (navItems m, currentNavIdx m)) (\<lambda>(items, cur).
     if items = [] then ok () else activate_at X cur items)"

section \<open>Starting and leaving\<close>

definition disconnectCmd :: "AppModel \<Rightarrow> cmd" where
  "disconnectCmd m = (if Deps_Done (a_deps m) then DisconnectCmd else NoCmd)"

text \<open>Opening the first room of the list, as \<open>Init\<close>, \<open>/leave\<close> and an eviction do.\<close>

definition Init :: "ext \<Rightarrow> (AppModel, cmd) handler" where
  "Init X =
     next_act refreshRooms (
     next_act refreshDMPeers (
     next_act refreshBlocks (
     next_act refreshUnread (
     reading_model my_id (\<lambda>me.
     seq_act (hub_Subscribe me) (\<lambda>sub.
     next_act (modify (\<lambda>m. m\<lparr>a_hubSub := Some sub\<rparr>)) (
     reading_model a_rooms (\<lambda>rs.
     next_act (for_all (\<lambda>r. hub_JoinRoom (Some sub) (Room_ID r)) rs) (
     reading (\<lambda>s. OnlineUserIDs (ui_hub s)) (\<lambda>ids.
     next_act (modify (\<lambda>m. m\<lparr>a_online := (\<lambda>i. i \<in> set ids \<or> a_online m i)\<rparr>)) (
     next_act (case rs of [] \<Rightarrow> ok () | r # _ \<Rightarrow> openRoom X (Room_ID r)) (
     next_act (modify recalcLayout) (
     reading_model (\<lambda>m. Batch [ListenHub (a_hubSub m), TickCmd, disconnectCmd m]) ok)))))))))))))"

text \<open>\<open>hubSub\<close> is cleared, \<open>OnDisconnect\<close> is called each time.\<close>

definition cleanup :: "(AppModel, unit) handler" where
  "cleanup =
     reading_model a_hubSub (\<lambda>sub.
     next_act (case sub of
         None \<Rightarrow> ok ()
       | Some s \<Rightarrow> next_act (hub_Unsubscribe s) (modify (\<lambda>m. m\<lparr>a_hubSub := None\<rparr>)))
     (reading_model (\<lambda>m. Deps_OnDisconnect (a_deps m)) (\<lambda>set.
     if set then call_OnDisconnect else ok ())))"

definition quit :: "(AppModel, cmd) handler" where
  "quit = next_act cleanup (ok QuitCmd)"

end
