(* ===== verification/TuiEvents.thy ===== *)
theory TuiEvents
  imports TuiView
begin

text \<open>
  \<^verbatim>\<open>internal/tui/app.go\<close>: sending what is typed (\<open>sendCurrent\<close>), and what each kind of hub event
  does to the session that receives it (\<open>handleHubEvent\<close>).
\<close>

section \<open>Sending\<close>

definition mention_notice :: "int \<Rightarrow> Notification" where
  "mention_notice rid = \<lparr>Notification_ID = 0, Notification_UserID = 0, Notification_Kind = ''mention'',
     Notification_MessageID = None, Notification_RoomID = Some rid, Notification_CreatedAt = 0,
     Notification_Read = False\<rparr>"

definition room_msg_event :: "int \<Rightarrow> Message \<Rightarrow> int list \<Rightarrow> Event" where
  "room_msg_event rid msg notified =
     (mk_event room_msg)\<lparr>Ev_RoomID := rid, Ev_Message := Some msg, Ev_MentionSet := notified\<rparr>"

definition notify_event :: "int \<Rightarrow> int \<Rightarrow> Event" where
  "notify_event rid uid = (mk_event notify)\<lparr>Ev_UserID := uid, Ev_Notif := Some (mention_notice rid)\<rparr>"

definition dm_msg_event :: "int \<Rightarrow> int \<Rightarrow> Message \<Rightarrow> Event" where
  "dm_msg_event uid peer msg =
     (mk_event dm_msg)\<lparr>Ev_UserID := uid, Ev_PeerID := peer, Ev_Message := Some msg\<rparr>"

definition send_failed :: "ext \<Rightarrow> db_error \<Rightarrow> cmd" where
  "send_failed X e = flash (''send failed: '' @ Error X e) True"

definition send_to_room :: "ext \<Rightarrow> string \<Rightarrow> (AppModel, cmd) handler" where
  "send_to_room X body =
     reading_model (\<lambda>m. (a_currentRoomID m, my_id m)) (\<lambda>(rid, me).
     seq_act (store_op (IsMember rid me)) (\<lambda>r.
     case r of
       Inl e \<Rightarrow> ok (send_failed X e)
     | Inr (is_member, _) \<Rightarrow>
         if \<not> is_member then ok (flash ''not a member of this room'' True)
         else
           seq_act (store_op (ResolveHandles (ParseMentions (x_lower X) body))) (\<lambda>ids.
           seq_act (store_op (InsertRoomMessage rid me body (kept [] ids))) (\<lambda>r.
           case r of
             Inl e \<Rightarrow> ok (send_failed X e)
           | Inr (msg, notified) \<Rightarrow>
               next_act (hub_PublishRoom rid (room_msg_event rid msg notified)) (
               next_act (for_all (\<lambda>uid. hub_PublishUser uid (notify_event rid uid)) notified) (
               ok NoCmd))))))"

definition send_to_peer :: "ext \<Rightarrow> string \<Rightarrow> (AppModel, cmd) handler" where
  "send_to_peer X body =
     reading_model (\<lambda>m. (a_currentPeerID m, my_id m)) (\<lambda>(peer, me).
     seq_act (store_op (IsBlocked peer me)) (\<lambda>blocked.
     if (case blocked of Inl _ \<Rightarrow> False | Inr b \<Rightarrow> b) then ok (flash ''cannot DM this user'' True)
     else
       seq_act (store_op (InsertDM me peer body)) (\<lambda>r.
       case r of
         Inl e \<Rightarrow> ok (send_failed X e)
       | Inr msg \<Rightarrow>
           next_act (hub_PublishUser peer (dm_msg_event peer me msg)) (
           next_act (hub_PublishUser me (dm_msg_event me peer msg)) (
           ok NoCmd)))))"

definition sendCurrent :: "ext \<Rightarrow> string \<Rightarrow> (AppModel, cmd) handler" where
  "sendCurrent X body =
     reading_model (\<lambda>m. (Deps_RateMsg (a_deps m), a_current m)) (\<lambda>(hook, cur).
     seq_act (if hook then call_RateMsg else ok True) (\<lambda>allowed.
     if \<not> allowed then ok (flash ''rate limit: slow down'' True)
     else let body = truncated body in
       case cur of
         viewRoom \<Rightarrow> send_to_room X body
       | viewDM \<Rightarrow> send_to_peer X body
       | viewNone \<Rightarrow> ok NoCmd))"

section \<open>Events\<close>

definition append_message :: "string \<Rightarrow> Message \<Rightarrow> AppModel \<Rightarrow> AppModel" where
  "append_message key msg m = m\<lparr>a_messages := (a_messages m)(key := a_messages m key @ [msg])\<rparr>"

definition on_room_msg :: "ext \<Rightarrow> Event \<Rightarrow> (AppModel, unit) handler" where
  "on_room_msg X ev =
     (case Ev_Message ev of
        None \<Rightarrow> fail NilDeref
      | Some msg \<Rightarrow>
          let rid = Ev_RoomID ev in
          next_act (modify (append_message (room_key rid) msg)) (
          reading_model (\<lambda>m. (a_current m, a_currentRoomID m, my_id m)) (\<lambda>(cur, cur_room, me).
          if cur = viewRoom \<and> cur_room = rid then
            next_act (renderHistory X) (
            next_act (store_op (MarkRoomRead me rid)) (ok ()))
          else if me \<notin> set (Ev_MentionSet ev) then
            modify (\<lambda>m. m\<lparr>a_unreadRoom := (a_unreadRoom m)(rid := a_unreadRoom m rid + 1)\<rparr>)
          else ok ())))"

definition on_dm_msg :: "ext \<Rightarrow> Event \<Rightarrow> (AppModel, unit) handler" where
  "on_dm_msg X ev =
     (case Ev_Message ev of
        None \<Rightarrow> fail NilDeref
      | Some msg \<Rightarrow>
          let peer = Ev_PeerID ev in
          next_act (modify (append_message (dm_key peer) msg)) (
          reading_model (\<lambda>m. list_ex (\<lambda>p. User_ID p = peer) (a_dmPeers m)) (\<lambda>known.
          next_act (if known then ok ()
            else seq_act (cachedUser peer) (\<lambda>r.
              case r of Inl _ \<Rightarrow> ok () | Inr u \<Rightarrow> modify (\<lambda>m. m\<lparr>a_dmPeers := u # a_dmPeers m\<rparr>))) (
          reading_model (\<lambda>m. (a_current m, a_currentPeerID m, my_id m)) (\<lambda>(cur, cur_peer, me).
          if cur = viewDM \<and> cur_peer = peer then
            next_act (renderHistory X) (
            next_act (store_op (MarkDMRead me peer)) (ok ()))
          else if Message_AuthorID msg \<noteq> me then
            modify (\<lambda>m. m\<lparr>a_unreadDM := (a_unreadDM m)(peer := a_unreadDM m peer + 1)\<rparr>)
          else ok ())))))"

definition on_msg_deleted :: "ext \<Rightarrow> (AppModel, unit) handler" where
  "on_msg_deleted X =
     reading_model (\<lambda>m. (a_current m, a_currentRoomID m, a_currentPeerID m, my_id m)) (\<lambda>(cur, cur_room, cur_peer, me).
     next_act
       (case cur of
          viewRoom \<Rightarrow> seq_act (store_op (RoomHistoryForUser me cur_room 200)) set_history
        | viewDM \<Rightarrow> seq_act (store_op (DMHistoryForUser me cur_peer 200)) set_history
        | viewNone \<Rightarrow> ok ())
     (renderHistory X))"

definition on_presence :: "Event \<Rightarrow> AppModel \<Rightarrow> AppModel" where
  "on_presence ev m =
     m\<lparr>a_online := (a_online m)(Ev_UserID ev := Ev_Online ev),
       a_members := map (\<lambda>x. if Member_UserID x = Ev_UserID ev then x\<lparr>Member_Online := Ev_Online ev\<rparr> else x) (a_members m)\<rparr>"

definition on_notify :: "Event \<Rightarrow> AppModel \<Rightarrow> AppModel" where
  "on_notify ev m =
     (case Ev_Notif ev of
        None \<Rightarrow> m
      | Some n \<Rightarrow> (case Notification_RoomID n of
          None \<Rightarrow> m
        | Some rid \<Rightarrow> m\<lparr>a_mentionRoom := (a_mentionRoom m)(rid := True),
                       a_unreadRoom := (a_unreadRoom m)(rid := a_unreadRoom m rid + 1)\<rparr>))"

definition on_room_meta :: "Event \<Rightarrow> (AppModel, unit) handler" where
  "on_room_meta ev =
     next_act refreshRooms (
     reading_model (\<lambda>m. (a_current m, a_currentRoomID m)) (\<lambda>(cur, cur_room).
     if cur = viewRoom \<and> cur_room = Ev_RoomID ev then refreshMembers (Ev_RoomID ev) else ok ()))"

definition on_room_removed :: "ext \<Rightarrow> Event \<Rightarrow> (AppModel, unit) handler" where
  "on_room_removed X ev =
     reading_model a_hubSub (\<lambda>sub.
     next_act (hub_LeaveRoom sub (Ev_RoomID ev)) (
     next_act refreshRooms (
     next_act (modify (\<lambda>m. m\<lparr>a_messages := (a_messages m)(room_key (Ev_RoomID ev) := [])\<rparr>)) (
     reading_model (\<lambda>m. (a_current m, a_currentRoomID m, a_rooms m)) (\<lambda>(cur, cur_room, rs).
     if cur = viewRoom \<and> cur_room = Ev_RoomID ev then
       (case rs of
          r # _ \<Rightarrow> openRoom X (Room_ID r)
        | [] \<Rightarrow> next_act (modify (\<lambda>m. m\<lparr>a_current := viewNone, a_currentRoomID := 0, a_members := []\<rparr>))
                (renderHistory X))
     else ok ())))))"

definition handleHubEvent :: "ext \<Rightarrow> Event \<Rightarrow> (AppModel, unit) handler" where
  "handleHubEvent X ev =
     (case Ev_Kind ev of
        room_msg \<Rightarrow> on_room_msg X ev
      | dm_msg \<Rightarrow> on_dm_msg X ev
      | msg_deleted \<Rightarrow> on_msg_deleted X
      | presence \<Rightarrow> modify (on_presence ev)
      | notify \<Rightarrow> modify (on_notify ev)
      | room_meta \<Rightarrow> on_room_meta ev
      | room_removed \<Rightarrow> on_room_removed X ev)"

end
