(* ===== verification/TuiCommands.thy ===== *)
theory TuiCommands
  imports TuiEvents
begin

text \<open>
  \<^verbatim>\<open>internal/tui/commands.go\<close>: \<open>runSlash\<close>, one definition per case of its switch, and \<open>keyComment\<close>. A
  command is an action of the session that ends in the flash line to show, or in what it calls.
\<close>

abbreviation say :: "string \<Rightarrow> (AppModel, cmd) handler" where
  "say text \<equiv> ok (flash text False)"

abbreviation complain :: "string \<Rightarrow> (AppModel, cmd) handler" where
  "complain text \<equiv> ok (flash text True)"

section \<open>Shared steps\<close>

text \<open>\<^verbatim>\<open>hub.Event{Kind: "room_meta", RoomID: rid}\<close> to the room.\<close>

definition publish_meta :: "int \<Rightarrow> (AppModel, unit) handler" where
  "publish_meta rid = hub_PublishRoom rid ((mk_event room_meta)\<lparr>Ev_RoomID := rid\<rparr>)"

text \<open>\<^verbatim>\<open>_, role, _ := m.deps.Store.IsMember(...)\<close>: no membership and an error read as no role.\<close>

definition my_role :: "int \<Rightarrow> int \<Rightarrow> (string \<Rightarrow> (AppModel, cmd) handler) \<Rightarrow> (AppModel, cmd) handler" where
  "my_role rid me k = seq_act (store_op (IsMember rid me)) (\<lambda>r. k (case r of Inl _ \<Rightarrow> [] | Inr (_, role) \<Rightarrow> role))"

definition arg_name :: "ext \<Rightarrow> string \<Rightarrow> string \<Rightarrow> string" where
  "arg_name X prefix arg = trim_prefix (to_lower (x_lower X) arg) prefix"

text \<open>The user a command names, or its complaint.\<close>

definition named_user :: "ext \<Rightarrow> string \<Rightarrow> (string \<Rightarrow> User \<Rightarrow> (AppModel, cmd) handler) \<Rightarrow> (AppModel, cmd) handler" where
  "named_user X arg k =
     (let h = arg_name X ''@'' arg in
      seq_act (store_op (UserByHandle h)) (\<lambda>r.
      case r of Inl _ \<Rightarrow> complain ''no such user'' | Inr u \<Rightarrow> k h u))"

section \<open>Rooms\<close>

definition slash_join :: "ext \<Rightarrow> string list \<Rightarrow> (AppModel, cmd) handler" where
  "slash_join X args =
     (case args of
        [] \<Rightarrow> complain ''usage: /join <room>''
      | arg # _ \<Rightarrow>
          let name = arg_name X ''#'' arg in
          if \<not> ValidRoomName name then complain ''invalid room name''
          else
            seq_act (store_op (RoomByName name)) (\<lambda>r.
            case r of
              Inl _ \<Rightarrow> complain ''no such room''
            | Inr room \<Rightarrow>
                reading_model (\<lambda>m. (my_id m, a_hubSub m)) (\<lambda>(me, sub).
                seq_act (if Room_IsPrivate room then store_op (IsMember (Room_ID room) me) else ok (Inr (True, []))) (\<lambda>invited.
                if \<not> (case invited of Inl _ \<Rightarrow> False | Inr (is_member, _) \<Rightarrow> is_member)
                then complain (''private room '' @ emdash @ '' invite required'')
                else
                  seq_act (store_op (Store_JoinRoom (Room_ID room) me)) (\<lambda>r.
                  case r of
                    Inl e \<Rightarrow> complain (Error X e)
                  | Inr _ \<Rightarrow>
                      next_act refreshRooms (
                      next_act (hub_JoinRoom sub (Room_ID room)) (
                      next_act (publish_meta (Room_ID room)) (
                      next_act (openRoom X (Room_ID room)) (
                      say (''joined #'' @ name))))))))))"

definition slash_leave :: "ext \<Rightarrow> (AppModel, cmd) handler" where
  "slash_leave X =
     reading_model (\<lambda>m. (a_current m, a_currentRoomID m, my_id m, a_hubSub m)) (\<lambda>(cur, rid, me, sub).
     if cur \<noteq> viewRoom then complain ''not in a room''
     else
       next_act (store_op (Store_LeaveRoom rid me)) (
       next_act (hub_LeaveRoom sub rid) (
       next_act refreshRooms (
       reading_model a_rooms (\<lambda>rs.
       next_act (case rs of r # _ \<Rightarrow> openRoom X (Room_ID r) | [] \<Rightarrow> modify (\<lambda>m. m\<lparr>a_current := viewNone\<rparr>)) (
       next_act (publish_meta rid) (
       say ''left room'')))))))"

definition slash_create :: "ext \<Rightarrow> string list \<Rightarrow> (AppModel, cmd) handler" where
  "slash_create X args =
     (case args of
        [] \<Rightarrow> complain ''usage: /create <room> [public|private]''
      | arg # others \<Rightarrow>
          let name = arg_name X ''#'' arg in
          if \<not> ValidRoomName name then complain ''invalid room name''
          else
            let priv = (case others of [] \<Rightarrow> False | a # _ \<Rightarrow> to_lower (x_lower X) a = ''private'') in
            reading_model (\<lambda>m. (my_id m, a_hubSub m)) (\<lambda>(me, sub).
            seq_act (store_op (CountRoomCreates me (24 * 3600))) (\<lambda>n.
            if (case n of Inl _ \<Rightarrow> 0 | Inr n \<Rightarrow> n) \<ge> 5 then complain ''room creation limit reached (5/day)''
            else
              seq_act (store_op (RoomByName name)) (\<lambda>existing.
              if is_ok existing then complain ''room exists''
              else
                seq_act (store_op (CreateRoom name priv me)) (\<lambda>r.
                case r of
                  Inl e \<Rightarrow> complain (Error X e)
                | Inr room \<Rightarrow>
                    next_act refreshRooms (
                    next_act (hub_JoinRoom sub (Room_ID room)) (
                    next_act (openRoom X (Room_ID room)) (
                    say (''created #'' @ name)))))))))"

definition slash_topic :: "string \<Rightarrow> (AppModel, cmd) handler" where
  "slash_topic rest =
     reading_model (\<lambda>m. (a_current m, a_currentRoomID m, a_user m)) (\<lambda>(cur, rid, user).
     if cur \<noteq> viewRoom then complain ''not in a room''
     else my_role rid (User_ID user) (\<lambda>role.
       if role \<noteq> RoleOwner \<and> \<not> User_IsAdmin user then complain ''only owner can set topic''
       else
         let topic = (if length rest > MaxTopicLen then take MaxTopicLen rest else rest) in
         next_act (store_op (SetTopic rid topic)) (
         next_act (publish_meta rid) (
         say ''topic updated''))))"

definition slash_invite :: "ext \<Rightarrow> string list \<Rightarrow> (AppModel, cmd) handler" where
  "slash_invite X args =
     reading_model (\<lambda>m. (a_current m, a_currentRoomID m, a_user m)) (\<lambda>(cur, rid, user).
     if cur \<noteq> viewRoom then complain ''not in a room''
     else case args of
       [] \<Rightarrow> complain ''usage: /invite <handle>''
     | arg # _ \<Rightarrow> my_role rid (User_ID user) (\<lambda>role.
         if role \<noteq> RoleOwner \<and> role \<noteq> RoleModerator \<and> \<not> User_IsAdmin user
         then complain ''only owner/mods may invite''
         else named_user X arg (\<lambda>h u.
           seq_act (store_op (Store_JoinRoom rid (User_ID u))) (\<lambda>r.
           case r of
             Inl e \<Rightarrow> complain (Error X e)
           | Inr _ \<Rightarrow> next_act (publish_meta rid) (say (''invited @'' @ h))))))"

text \<open>\<^verbatim>\<open>/kick\<close> and \<^verbatim>\<open>/ban\<close> share a case; the store's error is discarded.\<close>

definition slash_remove :: "ext \<Rightarrow> string \<Rightarrow> string list \<Rightarrow> (AppModel, cmd) handler" where
  "slash_remove X cmd args =
     reading_model (\<lambda>m. (a_current m, a_currentRoomID m, a_user m)) (\<lambda>(cur, rid, user).
     if cur \<noteq> viewRoom then complain ''not in a room''
     else case args of
       [] \<Rightarrow> complain (''usage: '' @ cmd @ '' <handle> [reason]'')
     | arg # others \<Rightarrow> my_role rid (User_ID user) (\<lambda>role.
         if role \<noteq> RoleOwner \<and> role \<noteq> RoleModerator \<and> \<not> User_IsAdmin user then complain ''mods only''
         else named_user X arg (\<lambda>h u.
           let reason = join others '' '' in
           next_act (store_op (if cmd = ''/ban'' then BanFromRoom rid (User_ID u) (User_ID user) reason
                               else KickFromRoom rid (User_ID u))) (
           next_act (hub_RemoveUserFromRoom (User_ID u) rid) (
           next_act (publish_meta rid) (
           say (cmd @ '' applied'')))))))"

section \<open>People\<close>

definition slash_msg :: "ext \<Rightarrow> string list \<Rightarrow> string \<Rightarrow> (AppModel, cmd) handler" where
  "slash_msg X args rest =
     (case args of
        [] \<Rightarrow> complain ''usage: /msg <handle> [text]''
      | arg # _ \<Rightarrow> named_user X arg (\<lambda>h u.
          reading_model (\<lambda>m. (my_id m, list_ex (\<lambda>p. User_ID p = User_ID u) (a_dmPeers m))) (\<lambda>(me, known).
          if User_ID u = me then complain (''can'' @ [CHR 0x27] @ ''t DM yourself'')
          else
            next_act (if known then ok ()
              else modify (\<lambda>m. m\<lparr>a_dmPeers := u # a_dmPeers m, a_userCache := (a_userCache m)(User_ID u \<mapsto> u)\<rparr>)) (
            let text = trim_space (trim_prefix rest arg) in
            next_act (openDM X (User_ID u)) (
            if text \<noteq> [] then sendCurrent X text else ok NoCmd)))))"

definition slash_whois :: "ext \<Rightarrow> string list \<Rightarrow> (AppModel, cmd) handler" where
  "slash_whois X args =
     (case args of
        [] \<Rightarrow> complain ''usage: /whois <handle>''
      | arg # _ \<Rightarrow> named_user X arg (\<lambda>h u.
          reading (\<lambda>s. IsOnline (User_ID u) (ui_hub s)) (\<lambda>is_online.
          let online = (if is_online then ''online'' else ''offline'');
              info = join [CHR ''@'' # User_Handle u, User_DisplayName u,
                ''joined '' @ x_time X ''2006-01-02'' (User_CreatedAt u), online] ('' '' @ emdash @ '' '')
          in say (if User_Bio u \<noteq> [] then info @ '' | '' @ User_Bio u else info))))"

definition slash_block :: "ext \<Rightarrow> string list \<Rightarrow> (AppModel, cmd) handler" where
  "slash_block X args =
     (case args of
        [] \<Rightarrow> complain ''usage: /block <handle>''
      | arg # _ \<Rightarrow> named_user X arg (\<lambda>h u.
          reading_model my_id (\<lambda>me.
          next_act (store_op (Block me (User_ID u))) (
          next_act refreshBlocks (
          next_act (renderHistory X) (
          say (''blocked @'' @ h)))))))"

definition slash_unblock :: "ext \<Rightarrow> string list \<Rightarrow> (AppModel, cmd) handler" where
  "slash_unblock X args =
     (case args of
        [] \<Rightarrow> complain ''usage: /unblock <handle>''
      | arg # _ \<Rightarrow> named_user X arg (\<lambda>h u.
          reading_model my_id (\<lambda>me.
          next_act (store_op (Unblock me (User_ID u))) (
          next_act refreshBlocks (
          next_act (renderHistory X) (
          say (''unblocked @'' @ h)))))))"

section \<open>Messages\<close>

definition slash_report :: "ext \<Rightarrow> string list \<Rightarrow> (AppModel, cmd) handler" where
  "slash_report X args =
     (case args of
        arg # a # others \<Rightarrow>
          (case parse_int arg of
             None \<Rightarrow> complain ''bad message id''
           | Some i \<Rightarrow>
               reading_model my_id (\<lambda>me.
               seq_act (store_op (ReportMessageForUser me i (join (a # others) '' ''))) (\<lambda>r.
               case r of Inl e \<Rightarrow> complain (Error X e) | Inr _ \<Rightarrow> say ''reported. thank you.'')))
      | _ \<Rightarrow> complain ''usage: /report <message-id> <reason>'')"

definition slash_delete :: "ext \<Rightarrow> string list \<Rightarrow> (AppModel, cmd) handler" where
  "slash_delete X args =
     (case args of
        [] \<Rightarrow> complain ''usage: /delete <message-id>''
      | arg # _ \<Rightarrow>
          (case parse_int arg of
             None \<Rightarrow> complain ''bad id''
           | Some i \<Rightarrow>
               reading_model a_user (\<lambda>user.
               seq_act (store_op (if User_IsAdmin user then MessageByID i else MessageByIDForUser (User_ID user) i)) (\<lambda>r.
               case r of
                 Inl _ \<Rightarrow> complain ''not found''
               | Inr msg \<Rightarrow>
                   seq_act (store_op (DeleteMessageForUser i (User_ID user) (User_IsAdmin user))) (\<lambda>r.
                   case r of
                     Inl e \<Rightarrow> complain (Error X e)
                   | Inr _ \<Rightarrow>
                       next_act (case Message_RoomID msg of
                           None \<Rightarrow> ok ()
                         | Some rid \<Rightarrow> hub_PublishRoom rid ((mk_event msg_deleted)\<lparr>Ev_RoomID := rid\<rparr>)) (
                       say ''deleted''))))))"

definition slash_me :: "ext \<Rightarrow> string \<Rightarrow> (AppModel, cmd) handler" where
  "slash_me X rest =
     (if rest = [] then complain ''usage: /me <text>''
      else reading_model (\<lambda>m. User_Handle (a_user m)) (\<lambda>h. sendCurrent X (''* '' @ h @ '' '' @ rest)))"

definition slash_search :: "ext \<Rightarrow> string \<Rightarrow> (AppModel, cmd) handler" where
  "slash_search X rest =
     reading_model (\<lambda>m. (a_current m, a_currentRoomID m, my_id m)) (\<lambda>(cur, rid, me).
     if cur \<noteq> viewRoom \<or> rest = [] then complain ''usage: /search <query> in a room''
     else
       seq_act (store_op (SearchRoomForUser (x_fts X) me rid rest 50)) (\<lambda>r.
       case checked r of
         Inl e \<Rightarrow> complain (''search failed: '' @ Error X e)
       | Inr results \<Rightarrow>
           if results = [] then say ''no matches''
           else
             next_act (set_history (Inr results)) (
             next_act (renderHistory X) (
             say (show_int (int (length results)) @ '' match(es) '' @ emdash @ '' switch room to reset'')))))"

section \<open>The account\<close>

text \<open>The user is changed through the pointer, which the cache and the list of peers share.\<close>

definition set_profile :: "string \<Rightarrow> string \<Rightarrow> string \<Rightarrow> AppModel \<Rightarrow> AppModel" where
  "set_profile name bio pron m =
     (let me = my_id m;
          f = (\<lambda>u. u\<lparr>User_DisplayName := name, User_Bio := bio, User_Pronouns := pron\<rparr>)
      in m\<lparr>a_user := f (a_user m),
           a_userCache := (a_userCache m)(me := map_option f (a_userCache m me)),
           a_dmPeers := map (\<lambda>p. if User_ID p = me then f p else p) (a_dmPeers m)\<rparr>)"

definition slash_profile :: "ext \<Rightarrow> string \<Rightarrow> (AppModel, cmd) handler" where
  "slash_profile X rest =
     (if rest = [] then complain ''usage: /profile <name>|<bio>|<pronouns>''
      else
        let segs = split_n rest ''|'' 3 in
        reading_model a_user (\<lambda>user.
        let name = (if length segs \<ge> 1 then trim_space (segs ! 0) else User_DisplayName user);
            bio = (if length segs \<ge> 2 then trim_space (segs ! 1) else User_Bio user);
            pron = (if length segs \<ge> 3 then trim_space (segs ! 2) else User_Pronouns user) in
        if length name > MaxDisplayName \<or> length bio > MaxBio \<or> length pron > MaxPronouns
        then complain ''field too long''
        else
          seq_act (store_op (UpdateProfile (User_ID user) name bio pron)) (\<lambda>r.
          case r of
            Inl e \<Rightarrow> complain (Error X e)
          | Inr _ \<Rightarrow> next_act (modify (set_profile name bio pron)) (say ''profile updated''))))"

definition keyComment :: "string \<Rightarrow> string" where
  "keyComment line =
     (let parts = Fields (trim_space line) in
      if length parts < 3 then [] else join (drop 2 parts) '' '')"

definition slash_addkey :: "ext \<Rightarrow> string \<Rightarrow> (AppModel, cmd) handler" where
  "slash_addkey X rest =
     (if rest = [] then complain (''usage: /addkey <ssh-ed25519|ssh-rsa> AAAA'' @ ellipsis
        @ ''  (paste full public-key line; optional label after a space)'')
      else
        case ParseAuthorizedKey (x_parse_key X) (x_sha256 X) rest of
          Inl err \<Rightarrow> complain (''invalid public key: '' @ err)
        | Inr (key, fp) \<Rightarrow>
            reading_model my_id (\<lambda>me.
            seq_act (store_op (UserByFingerprint fp)) (\<lambda>owner.
            case owner of
              Inr u \<Rightarrow>
                if User_ID u = me then complain ''that key is already attached to your account''
                else complain ''that key is already attached to another account''
            | Inl _ \<Rightarrow>
                seq_act (store_op (AddKey me fp (AuthorizedKey (x_marshal_key X) key) (keyComment rest))) (\<lambda>r.
                case r of
                  Inl e \<Rightarrow> complain (''add key failed: '' @ Error X e)
                | Inr _ \<Rightarrow> say (''key added '' @ emdash @ '' fingerprint '' @ fp)))))"

definition slash_keys :: "ext \<Rightarrow> (AppModel, cmd) handler" where
  "slash_keys X =
     reading_model (\<lambda>m. (my_id m, Deps_Fingerprint (a_deps m))) (\<lambda>(me, mine).
     seq_act (store_op (UserKeys me)) (\<lambda>r.
     case checked r of
       Inl e \<Rightarrow> complain (Error X e)
     | Inr keys \<Rightarrow>
         say (join (map (\<lambda>k. join [if UserKey_Fingerprint k = mine then ''*'' else '' '', UserKey_Fingerprint k,
             if UserKey_Label k = [] then ''(no label)'' else UserKey_Label k] '' '') keys) '' | '')))"

definition slash_notifications :: "ext \<Rightarrow> (AppModel, cmd) handler" where
  "slash_notifications X =
     reading_model my_id (\<lambda>me.
     seq_act (store_op (ListNotifications me 20)) (\<lambda>r.
     let notifs = kept [] r;
         lines = map (\<lambda>n. (if Notification_Read n then '' '' else bullet) @ '' '' @ Notification_Kind n @ '' ''
                         @ emdash @ '' '' @ x_time X ''01-02 15:04'' (Notification_CreatedAt n)) notifs in
     if lines = [] then say ''no notifications'' else say (join lines '' | '')))"

section \<open>The switch\<close>

definition run_command :: "ext \<Rightarrow> string \<Rightarrow> string list \<Rightarrow> string \<Rightarrow> (AppModel, cmd) handler" where
  "run_command X cmd args rest =
     (if cmd = ''/help'' \<or> cmd = ''/?'' then next_act (modify (\<lambda>m. m\<lparr>a_help := True\<rparr>)) (ok NoCmd)
      else if cmd = ''/quit'' then quit
      else if cmd = ''/join'' then slash_join X args
      else if cmd = ''/leave'' then slash_leave X
      else if cmd = ''/create'' then slash_create X args
      else if cmd = ''/topic'' then slash_topic rest
      else if cmd = ''/invite'' then slash_invite X args
      else if cmd = ''/kick'' \<or> cmd = ''/ban'' then slash_remove X cmd args
      else if cmd = ''/msg'' then slash_msg X args rest
      else if cmd = ''/whois'' then slash_whois X args
      else if cmd = ''/block'' then slash_block X args
      else if cmd = ''/unblock'' then slash_unblock X args
      else if cmd = ''/report'' then slash_report X args
      else if cmd = ''/delete'' then slash_delete X args
      else if cmd = ''/me'' then slash_me X rest
      else if cmd = ''/search'' then slash_search X rest
      else if cmd = ''/profile'' then slash_profile X rest
      else if cmd = ''/addkey'' then slash_addkey X rest
      else if cmd = ''/keys'' then slash_keys X
      else if cmd = ''/notifications'' \<or> cmd = ''/notifs'' then slash_notifications X
      else complain (''unknown command: '' @ cmd))"

definition runSlash :: "ext \<Rightarrow> string \<Rightarrow> (AppModel, cmd) handler" where
  "runSlash X line =
     (case Fields line of
        [] \<Rightarrow> ok NoCmd
      | p # args \<Rightarrow>
          let cmd = to_lower (x_lower X) p;
              rest = trim_space (trim_prefix line p)
          in run_command X cmd args rest)"

end
