(* ===== verification/TuiUpdate.thy ===== *)
theory TuiUpdate
  imports TuiCommands
begin

text \<open>
  The event loop's side of \<^verbatim>\<open>internal/tui\<close>: \<open>Update\<close> of the main model, with the keys of its panes,
  \<open>Update\<close> of the registration form and of the suspension notice (\<^verbatim>\<open>register.go\<close>), and the model a
  session shows at a time. A model that \<open>Update\<close> returns may be another one: a successful registration
  hands the session over to the main model.
\<close>

section \<open>The keys of the panes\<close>

definition updateNav :: "ext \<Rightarrow> string \<Rightarrow> (AppModel, cmd) handler" where
  "updateNav X key =
     next_act
       (if key = ''j'' \<or> key = ''down'' then navMove X 1
        else if key = ''k'' \<or> key = ''up'' then navMove X (- 1)
        else if key = ''enter'' then navActivate X
        else ok ())
     (ok NoCmd)"

definition set_value :: "string \<Rightarrow> AppModel \<Rightarrow> AppModel" where
  "set_value v m = m\<lparr>a_composer := (a_composer m)\<lparr>ta_value := v\<rparr>\<rparr>"

definition edit :: "ext \<Rightarrow> msg \<Rightarrow> (AppModel, cmd) handler" where
  "edit X msg = next_act (modify (\<lambda>m. m\<lparr>a_composer := x_edit X msg (a_composer m)\<rparr>)) (ok EditorCmd)"

text \<open>\<^verbatim>\<open>m.composer.SetValue(m.cmdHistory[m.cmdHistoryIdx])\<close>.\<close>

definition recall :: "ext \<Rightarrow> (AppModel, unit) handler" where
  "recall X =
     reading_model (\<lambda>m. (a_cmdHistory m, a_cmdHistoryIdx m)) (\<lambda>(hist, i).
     if 0 \<le> i \<and> i < int (length hist) then modify (set_value (x_set X (hist ! nat i))) else fail OutOfRange)"

definition key_enter :: "ext \<Rightarrow> (AppModel, cmd) handler" where
  "key_enter X =
     reading_model (\<lambda>m. SanitizeUserText (trim_space (ta_value (a_composer m)))) (\<lambda>text.
     if text = [] then ok NoCmd
     else
       next_act (modify (set_value [])) (
       if has_prefix text ''/'' then runSlash X text
       else
         next_act (modify (\<lambda>m. m\<lparr>a_cmdHistory := a_cmdHistory m @ [text],
                                  a_cmdHistoryIdx := int (length (a_cmdHistory m) + 1)\<rparr>)) (
         sendCurrent X text)))"

definition key_up :: "ext \<Rightarrow> (AppModel, cmd) handler" where
  "key_up X =
     reading_model (\<lambda>m. (ta_value (a_composer m), a_cmdHistory m)) (\<lambda>(v, hist).
     if v = [] \<and> hist \<noteq> [] then
       next_act (modify (\<lambda>m. if a_cmdHistoryIdx m > 0 then m\<lparr>a_cmdHistoryIdx := a_cmdHistoryIdx m - 1\<rparr> else m)) (
       next_act (recall X) (
       ok NoCmd))
     else edit X (KeyMsg ''up''))"

definition key_down :: "ext \<Rightarrow> (AppModel, cmd) handler" where
  "key_down X =
     reading_model (\<lambda>m. (ta_value (a_composer m), int (length (a_cmdHistory m)), a_cmdHistoryIdx m)) (\<lambda>(v, n, i).
     if v \<noteq> [] then edit X (KeyMsg ''down'')
     else if i < n - 1 then
       next_act (modify (\<lambda>m. m\<lparr>a_cmdHistoryIdx := i + 1\<rparr>)) (
       next_act (recall X) (
       ok NoCmd))
     else
       next_act (modify (\<lambda>m. set_value [] (m\<lparr>a_cmdHistoryIdx := n\<rparr>))) (
       ok NoCmd))"

definition updateChat :: "ext \<Rightarrow> string \<Rightarrow> (AppModel, cmd) handler" where
  "updateChat X key =
     (if key = ''enter'' then key_enter X
      else if key = ''up'' then key_up X
      else if key = ''down'' then key_down X
      else edit X (KeyMsg key))"

section \<open>Update\<close>

definition set_focus :: "bool \<Rightarrow> AppModel \<Rightarrow> AppModel" where
  "set_focus b m = m\<lparr>a_composer := (a_composer m)\<lparr>ta_focused := b\<rparr>\<rparr>"

text \<open>\<^verbatim>\<open>(m.pane + k) % 3\<close>, on the constants in the order of their declaration.\<close>

definition pane_no :: "pane \<Rightarrow> nat" where
  "pane_no p = (case p of paneNav \<Rightarrow> 0 | paneChat \<Rightarrow> 1 | paneMembers \<Rightarrow> 2)"

definition pane_at :: "nat \<Rightarrow> pane" where
  "pane_at n = (if n = 0 then paneNav else if n = 1 then paneChat else paneMembers)"

definition cycle_pane :: "nat \<Rightarrow> AppModel \<Rightarrow> AppModel" where
  "cycle_pane k m = (let p = pane_at ((pane_no (a_pane m) + k) mod 3) in set_focus (p = paneChat) (m\<lparr>a_pane := p\<rparr>))"

definition update_key :: "ext \<Rightarrow> string \<Rightarrow> (AppModel, cmd) handler" where
  "update_key X key =
     reading_model (\<lambda>m. (a_help m, ta_focused (a_composer m), a_pane m)) (\<lambda>(help, focused, pane).
     if help then next_act (modify (\<lambda>m. m\<lparr>a_help := False\<rparr>)) (ok NoCmd)
     else if key = ''ctrl+c'' then quit
     else if key = ''esc'' then next_act (modify (set_focus (\<not> focused))) (ok NoCmd)
     else if key = ''?'' \<and> \<not> focused then next_act (modify (\<lambda>m. m\<lparr>a_help := True\<rparr>)) (ok NoCmd)
     else if key = ''tab'' then next_act (modify (cycle_pane 1)) (ok NoCmd)
     else if key = ''shift+tab'' then next_act (modify (cycle_pane 2)) (ok NoCmd)
     else if key = ''pgup'' \<or> key = ''pgdown'' then ok NoCmd
     else case pane of
       paneNav \<Rightarrow> updateNav X key
     | paneChat \<Rightarrow> updateChat X key
     | paneMembers \<Rightarrow> ok (Batch []))"

text \<open>What follows the switch: the text area sees the message when the chat pane is the current one.\<close>

definition after_switch :: "ext \<Rightarrow> msg \<Rightarrow> cmd list \<Rightarrow> (AppModel, cmd) handler" where
  "after_switch X msg cmds =
     reading_model a_pane (\<lambda>p.
     if p = paneChat then seq_act (edit X msg) (\<lambda>c. ok (Batch (cmds @ [c]))) else ok (Batch cmds))"

definition on_tick :: "int list \<Rightarrow> AppModel \<Rightarrow> AppModel" where
  "on_tick ids m =
     m\<lparr>a_online := (\<lambda>i. i \<in> set ids),
       a_members := map (\<lambda>x. x\<lparr>Member_Online := (Member_UserID x \<in> set ids)\<rparr>) (a_members m)\<rparr>"

definition Update :: "ext \<Rightarrow> msg \<Rightarrow> (AppModel, cmd) handler" where
  "Update X msg =
     (case msg of
        WindowSizeMsg w h \<Rightarrow>
          next_act (modify (\<lambda>m. recalcLayout (m\<lparr>a_width := w, a_height := h\<rparr>))) (
          next_act (renderHistory X) (
          after_switch X msg []))
      | tickMsg \<Rightarrow>
          reading (\<lambda>s. OnlineUserIDs (ui_hub s)) (\<lambda>ids.
          next_act (modify (on_tick ids)) (
          after_switch X msg [TickCmd]))
      | hubEventMsg ev \<Rightarrow>
          next_act (handleHubEvent X ev) (
          reading_model a_hubSub (\<lambda>sub.
          after_switch X msg [ListenHub sub]))
      | disconnectMsg \<Rightarrow> quit
      | infoMsg text isErr \<Rightarrow>
          seq_act clock (\<lambda>now.
          next_act (modify (\<lambda>m. m\<lparr>a_flashLine := (if isErr then x_style X stError (''! '' @ text) else x_style X stOk text),
                                  a_flashUntil := now + 4\<rparr>)) (
          after_switch X msg []))
      | KeyMsg key \<Rightarrow> update_key X key
      | OtherMsg \<Rightarrow> after_switch X msg [])"

text \<open>Running the command of \<open>listenHub\<close>: what it receives, or nothing while the queue is empty.\<close>

definition listenHub :: "Sub option \<Rightarrow> ('m, msg option) handler" where
  "listenHub sub =
     (case sub of
        None \<Rightarrow> fail NilDeref
      | Some s \<Rightarrow> reading (\<lambda>st. ch_queue (h_chans (ui_hub st) (Sub_ID s))) (\<lambda>q.
          case q of
            [] \<Rightarrow> ok None
          | ev # rest \<Rightarrow> next_act
              (hub_do (\<lambda>h. Some (h\<lparr>h_chans := (h_chans h)(Sub_ID s := (h_chans h (Sub_ID s))\<lparr>ch_queue := rest\<rparr>)\<rparr>)))
              (ok (Some (hubEventMsg ev)))))"

section \<open>Registration and suspension\<close>

record RegisterModel =
  r_deps :: Deps
  r_input :: TextArea
  r_err :: string
  r_width :: int
  r_height :: int

record SuspendedModel =
  s_user :: User
  s_deps :: Deps

definition NewRegisterModel :: "Deps \<Rightarrow> RegisterModel" where
  "NewRegisterModel d = \<lparr>r_deps = d, r_input = \<lparr>ta_value = [], ta_focused = True, ta_width = 0\<rparr>, r_err = [],
     r_width = Deps_Width d, r_height = Deps_Height d\<rparr>"

definition NewSuspendedModel :: "User \<Rightarrow> Deps \<Rightarrow> SuspendedModel" where
  "NewSuspendedModel u d = \<lparr>s_user = u, s_deps = d\<rparr>"

datatype session =
  AppSession AppModel
| RegisterSession RegisterModel
| SuspendedSession SuspendedModel

text \<open>A handler of one of the models, run in the session that shows it.\<close>

definition zoom :: "('n \<Rightarrow> session) \<Rightarrow> 'n \<Rightarrow> ('n, 'a) handler \<Rightarrow> (session, 'a) handler" where
  "zoom show n h = (\<lambda>s. case h (with_model n s) of (r, t) \<Rightarrow> (r, with_model (show (ui_model t)) t))"

definition registerDisconnectCmd :: "Deps \<Rightarrow> cmd" where
  "registerDisconnectCmd d = (if Deps_Done d then DisconnectCmd else NoCmd)"

definition RegisterModel_Init :: "RegisterModel \<Rightarrow> cmd" where
  "RegisterModel_Init m = Batch [EditorCmd, registerDisconnectCmd (r_deps m)]"

definition release :: "Deps \<Rightarrow> ('m, cmd) handler" where
  "release d = next_act (if Deps_OnDisconnect d then call_OnDisconnect else ok ()) (ok QuitCmd)"

definition show_register :: "RegisterModel \<Rightarrow> (session, unit) handler" where
  "show_register m = modify (\<lambda>_. RegisterSession m)"

definition reject :: "RegisterModel \<Rightarrow> string \<Rightarrow> (session, cmd) handler" where
  "reject m err = next_act (show_register (m\<lparr>r_err := err\<rparr>)) (ok NoCmd)"

text \<open>The default room: joined, or created when there is none; every error is discarded.\<close>

definition join_default_room :: "string \<Rightarrow> int \<Rightarrow> (session, unit) handler" where
  "join_default_room name uid =
     seq_act (store_op (RoomByName name)) (\<lambda>r.
     seq_act (if is_ok r then ok r else store_op (CreateRoom name False uid)) (\<lambda>room.
     case room of
       Inl _ \<Rightarrow> ok ()
     | Inr room \<Rightarrow> next_act (store_op (Store_JoinRoom (Room_ID room) uid)) (ok ())))"

definition register_enter :: "ext \<Rightarrow> RegisterModel \<Rightarrow> (session, cmd) handler" where
  "register_enter X m =
     (let h = to_lower (x_lower X) (trim_space (ta_value (r_input m))) in
      if \<not> ValidHandle h
      then reject m (''handle must be 3'' @ endash @ ''20 chars, lowercase, [a-z0-9_-]'')
      else
        seq_act (store_op (UserByHandle h)) (\<lambda>existing.
        if is_ok existing then reject m ''handle already taken''
        else
          seq_act (store_op (CreateUser h (Deps_Fingerprint (r_deps m)) (Deps_PublicKey (r_deps m)))) (\<lambda>r.
          case r of
            Inl e \<Rightarrow> reject m (''registration failed: '' @ Error X e)
          | Inr user \<Rightarrow>
              next_act (join_default_room (Deps_DefaultRoom (r_deps m)) (User_ID user)) (
              zoom AppSession (NewAppModel (r_deps m) user) (Init X)))))"

definition RegisterModel_Update :: "ext \<Rightarrow> msg \<Rightarrow> RegisterModel \<Rightarrow> (session, cmd) handler" where
  "RegisterModel_Update X msg m =
     (if msg = KeyMsg ''ctrl+c'' \<or> msg = KeyMsg ''esc'' \<or> msg = disconnectMsg then release (r_deps m)
      else if msg = KeyMsg ''enter'' then register_enter X m
      else
        let m = (case msg of WindowSizeMsg w h \<Rightarrow> m\<lparr>r_width := w, r_height := h\<rparr> | _ \<Rightarrow> m) in
        next_act (show_register (m\<lparr>r_input := x_input X msg (r_input m)\<rparr>)) (ok EditorCmd))"

definition SuspendedModel_Update :: "msg \<Rightarrow> SuspendedModel \<Rightarrow> (session, cmd) handler" where
  "SuspendedModel_Update msg m =
     (case msg of
        KeyMsg _ \<Rightarrow> release (s_deps m)
      | disconnectMsg \<Rightarrow> release (s_deps m)
      | _ \<Rightarrow> ok NoCmd)"

section \<open>A session\<close>

definition session_Init :: "ext \<Rightarrow> (session, cmd) handler" where
  "session_Init X =
     reading ui_model (\<lambda>v.
     case v of
       AppSession m \<Rightarrow> zoom AppSession m (Init X)
     | RegisterSession m \<Rightarrow> ok (RegisterModel_Init m)
     | SuspendedSession m \<Rightarrow> ok (registerDisconnectCmd (s_deps m)))"

definition session_Update :: "ext \<Rightarrow> msg \<Rightarrow> (session, cmd) handler" where
  "session_Update X msg =
     reading ui_model (\<lambda>v.
     case v of
       AppSession m \<Rightarrow> zoom AppSession m (Update X msg)
     | RegisterSession m \<Rightarrow> RegisterModel_Update X msg m
     | SuspendedSession m \<Rightarrow> SuspendedModel_Update msg m)"

end
