(* ===== verification/StoreTrace.thy ===== *)
theory StoreTrace
  imports StoreExec
begin

text \<open>
  What the users' texts and names in the database are, and what a client of the store can do to it.
  Two more instances of the interface of StoreInv: every text is sanitized (\<open>db_clean\<close>), and no method but
  \<open>CreateUser\<close> brings in a handle. An action is \<open>via_methods\<close> when all it does to the world is a run of calls
  of the store's methods (and of faults used up by reads) that register valid handles only: the
  contract between the store and the programs on top of it.
\<close>

section \<open>Texts\<close>

definition db_clean :: "database \<Rightarrow> bool" where
  "db_clean d \<longleftrightarrow> (\<forall>u \<in> set (users d). clean_user u) \<and> (\<forall>r \<in> set (rooms d). clean_text (r_topic r)) \<and>
     (\<forall>b \<in> set (room_bans d). clean_text (b_reason b)) \<and> (\<forall>g \<in> set (messages d). postable (g_body g)) \<and>
     (\<forall>x \<in> set (reports d). clean_text (p_reason x))"

lemma clean_updates:
  "(\<And>u. clean_user u \<Longrightarrow> clean_user (f u)) \<Longrightarrow> stmt_keeps db_clean (update_users P f)"
  "(\<And>r. clean_text (r_topic r) \<Longrightarrow> clean_text (r_topic (g r))) \<Longrightarrow> stmt_keeps db_clean (update_rooms R g)"
  by (auto simp: stmt_keeps_def db_clean_def update_users_def update_rooms_def)

lemma clean_inserts:
  "stmt_keeps db_clean (insert_user h now)"
  "stmt_keeps db_clean (insert_room name priv owner now)"
  "postable body \<Longrightarrow> stmt_keeps db_clean (insert_message kind rid' x y author body now)"
  "clean_text reason \<Longrightarrow> stmt_keeps db_clean (insert_report reporter kind target reason now)"
  "clean_text reason \<Longrightarrow> stmt_keeps db_clean (replace_ban rid uid by_user reason now)"
  by (auto simp: stmt_keeps_def db_clean_def clean_user_def insert_user_def insert_room_def insert_message_def
      insert_report_def replace_ban_def Let_def split: if_splits)

lemma clean_others:
  "stmt_keeps db_clean (insert_key uid fp pub label now)"
  "stmt_keeps db_clean (insert_member rid uid role now)"
  "stmt_keeps db_clean (insert_member_or_ignore rid uid role now)"
  "stmt_keeps db_clean (delete_member rid uid)"
  "stmt_keeps db_clean (update_role role rid uid)"
  "stmt_keeps db_clean (soft_delete_message now by_user mid)"
  "stmt_keeps db_clean (purge_messages cutoff)"
  "stmt_keeps db_clean (insert_mention_or_ignore mid uid)"
  "stmt_keeps db_clean (insert_notification uid kind mid' rid' now)"
  "stmt_keeps db_clean (update_notifications Q now)"
  "stmt_keeps db_clean (insert_block_or_ignore by_user target now)"
  "stmt_keeps db_clean (delete_block by_user target)"
  by (auto simp: stmt_keeps_def db_clean_def insert_key_def insert_member_def insert_member_or_ignore_def
      delete_member_def update_role_def soft_delete_message_def purge_messages_def insert_mention_or_ignore_def
      insert_notification_def update_notifications_def insert_block_or_ignore_def delete_block_def Let_def
      split: if_splits)

interpretation texts: db_invariant db_clean
  by unfold_locales (intro clean_updates clean_inserts clean_others; assumption)+

section \<open>Handles\<close>

definition handles_in :: "string set \<Rightarrow> database \<Rightarrow> bool" where
  "handles_in H d \<longleftrightarrow> u_handle ` set (users d) \<subseteq> H"

lemma handles_in_same: "users d' = users d \<Longrightarrow> handles_in H d' = handles_in H d"
  by (simp add: handles_in_def)

lemma handles_update: "(\<And>u. u_handle (f u) = u_handle u) \<Longrightarrow> stmt_keeps (handles_in H) (update_users P f)"
  by (auto simp: stmt_keeps_def handles_in_def update_users_def)

lemma handles_insert: "h \<in> H \<Longrightarrow> stmt_keeps (handles_in H) (insert_user h now)"
  by (auto simp: stmt_keeps_def handles_in_def insert_user_def Let_def split: if_splits)

lemma handles_others:
  "stmt_keeps (handles_in H) (update_rooms R g)"
  "stmt_keeps (handles_in H) (insert_room name priv owner now)"
  "stmt_keeps (handles_in H) (insert_message kind rid' x y author body now)"
  "stmt_keeps (handles_in H) (insert_report reporter tkind target reason now)"
  "stmt_keeps (handles_in H) (replace_ban rid uid by_user reason now)"
  "stmt_keeps (handles_in H) (insert_key uid fp pub label now)"
  "stmt_keeps (handles_in H) (insert_member rid uid role now)"
  "stmt_keeps (handles_in H) (insert_member_or_ignore rid uid role now)"
  "stmt_keeps (handles_in H) (delete_member rid uid)"
  "stmt_keeps (handles_in H) (update_role role rid uid)"
  "stmt_keeps (handles_in H) (soft_delete_message now by_user mid)"
  "stmt_keeps (handles_in H) (purge_messages cutoff)"
  "stmt_keeps (handles_in H) (insert_mention_or_ignore mid uid)"
  "stmt_keeps (handles_in H) (insert_notification uid kind mid' rid' now)"
  "stmt_keeps (handles_in H) (update_notifications Q now)"
  "stmt_keeps (handles_in H) (insert_block_or_ignore by_user target now)"
  "stmt_keeps (handles_in H) (delete_block by_user target)"
  by (rule stmt_keepsI, subst handles_in_same; auto simp: insert_key_def insert_member_def insert_member_or_ignore_def
      delete_member_def update_role_def soft_delete_message_def purge_messages_def insert_mention_or_ignore_def
      insert_notification_def update_notifications_def insert_block_or_ignore_def delete_block_def update_rooms_def
      insert_room_def insert_message_def insert_report_def replace_ban_def Let_def split: if_splits)+

interpretation handles: db_members "handles_in H" for H
  by unfold_locales (intro handles_update handles_others; assumption)+

section \<open>Clients\<close>

text \<open>The handles in the world, an open transaction included.\<close>

definition world_handles :: "world \<Rightarrow> string set" where
  "world_handles w = u_handle ` set (users (w_db w)) \<union> (case w_tx w of None \<Rightarrow> {} | Some d \<Rightarrow> u_handle ` set (users d))"

definition client_step :: "world \<Rightarrow> world \<Rightarrow> bool" where
  "client_step w w' \<longleftrightarrow> store_step w w' \<and> world_handles w' \<subseteq> world_handles w \<union> Collect ValidHandle"

definition via_methods :: "'a io \<Rightarrow> bool" where
  "via_methods m \<longleftrightarrow> (\<forall>w. client_step\<^sup>*\<^sup>* w (snd (m w)))"

named_theorems via_intros \<open>what the clients of the store are made of\<close>

lemma world_inv_handles: "world_inv (handles_in H) w \<longleftrightarrow> world_handles w \<subseteq> H"
  by (auto simp: world_inv_def handles_in_def world_handles_def null_or_def split: option.splits)

lemma via_methodsI: "(\<And>w r w'. m w = (r, w') \<Longrightarrow> client_step\<^sup>*\<^sup>* w w') \<Longrightarrow> via_methods m"
  unfolding via_methods_def by (metis prod.collapse)

lemma via_methodsD: "via_methods m \<Longrightarrow> m w = (r, w') \<Longrightarrow> client_step\<^sup>*\<^sup>* w w'"
  unfolding via_methods_def by (metis snd_conv)

lemma via_step:
  assumes "\<And>w r w'. m w = (r, w') \<Longrightarrow> store_step w w'"
    and "\<And>H. Collect ValidHandle \<subseteq> H \<Longrightarrow> keeps (world_inv (handles_in H)) m"
  shows "via_methods m"
proof (rule via_methodsI)
  fix w r w' assume m: "m w = (r, w')"
  let ?H = "world_handles w \<union> Collect ValidHandle"
  have "keeps (world_inv (handles_in ?H)) m" by (rule assms(2)) simp
  then have "world_inv (handles_in ?H) w'" by (rule keeps_pairD [where s = w and r = r]) (simp_all add: world_inv_handles m)
  then have "client_step w w'" using assms(1) [OF m] by (simp add: client_step_def world_inv_handles)
  then show "client_step\<^sup>*\<^sup>* w w'" by blast
qed

lemma env_client_step: "client_step w (w\<lparr>w_clock := t, w_faults := fs\<rparr>)"
  by (simp add: client_step_def step_env world_handles_def)

lemma via_read: "frames core m \<Longrightarrow> via_methods m"
proof (rule via_step)
  fix w r w' assume "frames core m" "m w = (r, w')"
  then have "core w' = core w" unfolding frames_def by (metis snd_conv)
  then have "w' = w\<lparr>w_clock := w_clock w, w_faults := w_faults w'\<rparr>" by (simp add: core_eq)
  then show "store_step w w'" by (metis step_env)
qed (auto simp: frames_def keeps_def core_def world_inv_def)

lemmas via_reads [via_intros] = reads_frame [THEN via_read] frames_IsMember [THEN via_read]

lemma via_CreateUser [via_intros]: "ValidHandle h \<Longrightarrow> via_methods (CreateUser h fp pub)"
  by (rule via_step) (erule store_step.intros, auto intro: handles.creation_keeps handles_insert)

lemma via_writes [via_intros]:
  "via_methods (AddKey uid fp pub label)" "via_methods (UpdateProfile uid dn bio pr)"
  "via_methods (TouchLastSeen uid)" "via_methods (SetAdmin h on)" "via_methods (SetSuspended h on)"
  "via_methods (CreateRoom name private owner)" "via_methods (Store_JoinRoom rid uid)"
  "via_methods (Store_LeaveRoom rid uid)" "via_methods (SetTopic rid topic)" "via_methods (DeleteRoom rid)"
  "via_methods (Promote rid uid role)" "via_methods (BanFromRoom rid uid by_user reason)"
  "via_methods (KickFromRoom rid uid)" "via_methods (InsertRoomMessage rid uid body ms)"
  "via_methods (InsertDM uid peer body)" "via_methods (DeleteMessage mid uid)"
  "via_methods (DeleteMessageForUser mid uid adm)" "via_methods (Block uid target)" "via_methods (Unblock uid target)"
  "via_methods (MarkRoomRead uid rid)" "via_methods (MarkDMRead uid peer)" "via_methods (Report uid kind target reason)"
  "via_methods (ReportMessageForUser uid mid reason)" "via_methods (PurgeDeletedOlderThan secs)"
  by (rule via_step, erule store_step.intros, rule handles.members_keep)+

lemma via_ok [via_intros]: "via_methods (ok a)"
  by (simp add: via_methods_def ok_def)

lemma via_fail [via_intros]: "via_methods (fail e)"
  by (simp add: via_methods_def fail_def)

lemma via_seq [via_intros]: "via_methods m \<Longrightarrow> (\<And>a. via_methods (f a)) \<Longrightarrow> via_methods (seq_act m f)"
proof (rule via_methodsI)
  fix w r w' assume m: "via_methods m" and f: "\<And>a. via_methods (f a)" and "seq_act m f w = (r, w')"
  from this(3) show "client_step\<^sup>*\<^sup>* w w'"
    by (rule seq_actE) (auto dest: via_methodsD [OF m] via_methodsD [OF f] intro: rtranclp_trans)
qed

lemma via_attempt [via_intros]: "via_methods m \<Longrightarrow> via_methods (attempt m)"
  by (simp add: via_methods_def attempt_def split_beta)

lemma via_if [via_intros]: "via_methods m \<Longrightarrow> via_methods n \<Longrightarrow> via_methods (if b then m else n)"
  by simp

lemma via_case_sum [via_intros]:
  "(\<And>e. via_methods (f e)) \<Longrightarrow> (\<And>a. via_methods (g a)) \<Longrightarrow> via_methods (case r of Inl e \<Rightarrow> f e | Inr a \<Rightarrow> g a)"
  by (cases r) simp_all

text \<open>What a run of a client keeps: all that the methods keep, and the validity of the handles.\<close>

lemma client_steps: "client_step\<^sup>*\<^sup>* w w' \<Longrightarrow> store_step\<^sup>*\<^sup>* w w'"
  by (induction rule: rtranclp_induct) (auto simp: client_step_def intro: rtranclp.rtrancl_into_rtrancl)

lemma reach_steps: "store_step\<^sup>*\<^sup>* w w' \<Longrightarrow> store_reach w \<Longrightarrow> store_reach w'"
  by (induction rule: rtranclp_induct) (auto intro: store_reach.intros)

lemma client_handles: "client_step\<^sup>*\<^sup>* w w' \<Longrightarrow> world_handles w' \<subseteq> world_handles w \<union> Collect ValidHandle"
  by (induction rule: rtranclp_induct) (auto simp: client_step_def)

text \<open>
  What the database promises about its data, whatever the clients do: keys, references and checks hold,
  texts are sanitized and bodies at most 2000 bytes, handles are valid.
\<close>

definition data_ok :: "world \<Rightarrow> bool" where
  "data_ok w \<longleftrightarrow> world_inv db_ok w \<and> world_inv db_clean w \<and> world_handles w \<subseteq> Collect ValidHandle"

lemma client_keeps_data: "client_step w w' \<Longrightarrow> data_ok w \<Longrightarrow> data_ok w'"
  using schema.step_keeps texts.step_keeps by (auto simp: data_ok_def client_step_def)

lemma client_keeps_history:
  assumes "client_step\<^sup>*\<^sup>* w w'" and "idle w"
  shows "grew (w_db w) (w_db w')"
  using history.steps_keep [OF client_steps [OF assms(1)], of "w_db w"] assms(2)
  by (simp add: world_inv_def idle_def null_or_def)

end
