(* ===== verification/TuiSafe.thy ===== *)
theory TuiSafe
  imports TuiUpdate HubInv StoreTrace
begin

text \<open>
  What every handler of a session keeps, and that none of them panics but in a slice of
  \<open>highlightMentions\<close>. \<open>session_state W L q s\<close> is the invariant of the main model over a well-formed hub: \<open>q\<close>
  is the subscription the session holds (live in the hub, or none), those in \<open>L\<close>, held by other
  sessions, are live too, no room holds a nil subscriber, and the index into the sent lines is in
  range. \<open>steady W L q h\<close>: the handler \<open>h\<close> keeps it. The rules of \<open>steady\<close> follow the shape of the
  handlers, so each handler's lemma is its definition and the rules; \<open>fine\<close> adds the exits.
\<close>

section \<open>The invariant and its rules\<close>

definition history_ok :: "AppModel \<Rightarrow> bool" where
  "history_ok m \<longleftrightarrow> 0 \<le> a_cmdHistoryIdx m \<and> a_cmdHistoryIdx m \<le> int (length (a_cmdHistory m))"

definition hub_clean :: "'m ui \<Rightarrow> bool" where
  "hub_clean s \<longleftrightarrow> hub_ok (ui_hub s) \<and> ui_nil s = []"

definition attached :: "Sub set \<Rightarrow> Sub option \<Rightarrow> Hub \<Rightarrow> bool" where
  "attached L q h \<longleftrightarrow> (\<forall>sub \<in> L. live h sub) \<and> (case q of None \<Rightarrow> True | Some sub \<Rightarrow> live h sub)"

definition session_state :: "(world \<Rightarrow> bool) \<Rightarrow> Sub set \<Rightarrow> Sub option \<Rightarrow> AppModel ui \<Rightarrow> bool" where
  "session_state W L q s \<longleftrightarrow> hub_clean s \<and> a_hubSub (ui_model s) = q \<and>
     attached L q (ui_hub s) \<and> history_ok (ui_model s) \<and> W (ui_world s)"

definition bystanders :: "(world \<Rightarrow> bool) \<Rightarrow> Sub set \<Rightarrow> 'm ui \<Rightarrow> bool" where
  "bystanders W L s \<longleftrightarrow> hub_clean s \<and> (\<forall>sub \<in> L. live (ui_hub s) sub) \<and> W (ui_world s)"

definition safe :: "(world \<Rightarrow> bool) \<Rightarrow> Sub set \<Rightarrow> ('m ui \<Rightarrow> bool) \<Rightarrow> ('m, 'a) handler \<Rightarrow> ('a \<Rightarrow> 'm ui \<Rightarrow> bool) \<Rightarrow> bool" where
  "safe W L P h Q \<longleftrightarrow> (\<forall>s. P s \<longrightarrow> (case h s of (Inl e, t) \<Rightarrow> e = BadSlice \<and> bystanders W L t | (Inr a, t) \<Rightarrow> Q a t))"

definition steady :: "(world \<Rightarrow> bool) \<Rightarrow> Sub set \<Rightarrow> Sub option \<Rightarrow> (AppModel, 'a) handler \<Rightarrow> bool" where
  "steady W L q h \<longleftrightarrow> safe W L (session_state W L q) h (\<lambda>_. session_state W L q)"

named_theorems steady_intros \<open>rules that a handler keeps the session's invariant\<close>

lemma safeI: "(\<And>s. P s \<Longrightarrow> case h s of (Inl e, t) \<Rightarrow> e = BadSlice \<and> bystanders W L t | (Inr a, t) \<Rightarrow> Q a t) \<Longrightarrow> safe W L P h Q"
  by (simp add: safe_def)

lemma safeD: "safe W L P h Q \<Longrightarrow> P s \<Longrightarrow> case h s of (Inl e, t) \<Rightarrow> e = BadSlice \<and> bystanders W L t | (Inr a, t) \<Rightarrow> Q a t"
  by (simp add: safe_def)

lemma safe_seq: "safe W L P h Q \<Longrightarrow> (\<And>a. safe W L (Q a) (f a) R) \<Longrightarrow> safe W L P (seq_act h f) R"
  unfolding safe_def seq_act_def by (fastforce split: prod.splits sum.splits)

lemma safe_weaken: "safe W L P h Q \<Longrightarrow> (\<And>s. P' s \<Longrightarrow> P s) \<Longrightarrow> (\<And>a s. Q a s \<Longrightarrow> Q' a s) \<Longrightarrow> safe W L P' h Q'"
  unfolding safe_def by (fastforce split: prod.splits sum.splits)

lemma safe_ok: "(\<And>s. P s \<Longrightarrow> Q a s) \<Longrightarrow> safe W L P (ok a) Q"
  by (simp add: safe_def ok_def)

lemma safe_reading: "(\<And>s. P s \<Longrightarrow> safe W L P (k (f s)) Q) \<Longrightarrow> safe W L P (reading f k) Q"
  by (simp add: safe_def reading_def)

lemma steady_ok [steady_intros]: "steady W L q (ok a)"
  by (simp add: steady_def safe_def ok_def)

lemma steady_seq [steady_intros]: "steady W L q h \<Longrightarrow> (\<And>a. steady W L q (f a)) \<Longrightarrow> steady W L q (seq_act h f)"
  unfolding steady_def by (rule safe_seq)

lemma steady_if [steady_intros]: "(b \<Longrightarrow> steady W L q h) \<Longrightarrow> (\<not> b \<Longrightarrow> steady W L q k) \<Longrightarrow> steady W L q (if b then h else k)"
  by simp

lemma steady_case_sum [steady_intros]:
  "(\<And>e. r = Inl e \<Longrightarrow> steady W L q (f e)) \<Longrightarrow> (\<And>a. r = Inr a \<Longrightarrow> steady W L q (g a)) \<Longrightarrow>
   steady W L q (case r of Inl e \<Rightarrow> f e | Inr a \<Rightarrow> g a)"
  by (cases r) simp_all

lemma steady_case_option [steady_intros]:
  "(r = None \<Longrightarrow> steady W L q h) \<Longrightarrow> (\<And>a. r = Some a \<Longrightarrow> steady W L q (g a)) \<Longrightarrow>
   steady W L q (case r of None \<Rightarrow> h | Some a \<Rightarrow> g a)"
  by (cases r) simp_all

lemma steady_case_list [steady_intros]:
  "(xs = [] \<Longrightarrow> steady W L q h) \<Longrightarrow> (\<And>y ys. xs = y # ys \<Longrightarrow> steady W L q (g y ys)) \<Longrightarrow>
   steady W L q (case xs of [] \<Rightarrow> h | y # ys \<Rightarrow> g y ys)"
  by (cases xs) simp_all

lemma steady_case_prod [steady_intros]:
  "(\<And>a b. p = (a, b) \<Longrightarrow> steady W L q (f a b)) \<Longrightarrow> steady W L q (case p of (a, b) \<Rightarrow> f a b)"
  by (cases p) simp

lemma steady_case_view [steady_intros]:
  "steady W L q h1 \<Longrightarrow> steady W L q h2 \<Longrightarrow> steady W L q h3 \<Longrightarrow>
   steady W L q (case v of viewRoom \<Rightarrow> h1 | viewDM \<Rightarrow> h2 | viewNone \<Rightarrow> h3)"
  by (cases v) simp_all

lemma steady_let [steady_intros]: "(\<And>x. steady W L q (f x)) \<Longrightarrow> steady W L q (let x = t in f x)"
  by simp

lemma steady_reading [steady_intros]:
  "(\<And>s. session_state W L q s \<Longrightarrow> steady W L q (k (f s))) \<Longrightarrow> steady W L q (reading f k)"
  unfolding steady_def by (rule safe_reading)

lemma steady_modify [steady_intros]:
  "(\<And>m. a_hubSub (f m) = a_hubSub m) \<Longrightarrow> (\<And>m. history_ok m \<Longrightarrow> history_ok (f m)) \<Longrightarrow> steady W L q (modify f)"
  by (simp add: steady_def safe_def modify_def session_state_def hub_clean_def)

lemma steady_clock [steady_intros]: "steady W L q clock"
  by (simp add: steady_def safe_def clock_def)

lemma steady_fail_slice [steady_intros]: "steady W L q (fail BadSlice)"
  by (simp add: steady_def safe_def fail_def session_state_def attached_def bystanders_def)

lemma steady_rate [steady_intros]: "steady W L q call_RateMsg"
  by (auto simp: steady_def safe_def call_RateMsg_def session_state_def hub_clean_def split: list.splits)

lemma steady_for_all [steady_intros]: "(\<And>x. steady W L q (f x)) \<Longrightarrow> steady W L q (for_all f xs)"
  by (induction xs) (simp_all add: steady_ok steady_seq)

lemma history_ok_idI:
  "a_cmdHistory m' = a_cmdHistory m \<Longrightarrow> a_cmdHistoryIdx m' = a_cmdHistoryIdx m \<Longrightarrow> history_ok m \<Longrightarrow> history_ok m'"
  by (simp add: history_ok_def)

section \<open>The hub's operations in a session\<close>

text \<open>An operation that leaves the sessions of the users as they are.\<close>

lemma steady_hub:
  assumes "\<And>h. hub_ok h \<Longrightarrow> attached L q h \<Longrightarrow>
    \<exists>a h'. f h = Some (a, h') \<and> hub_ok h' \<and> h_users h' = h_users h"
  shows "steady W L q (hub_op f)"
  unfolding steady_def
proof (rule safeI)
  fix s assume s: "session_state W L q s"
  then have "hub_ok (ui_hub s)" "attached L q (ui_hub s)"
    by (simp_all add: session_state_def hub_clean_def)
  from assms [OF this] obtain a h' where "f (ui_hub s) = Some (a, h')" "hub_ok h'" "h_users h' = h_users (ui_hub s)"
    by blast
  with s show "case hub_op f s of (Inl e, t) \<Rightarrow> e = BadSlice \<and> bystanders W L t | (Inr a, t) \<Rightarrow> session_state W L q t"
    by (auto simp: hub_op_def session_state_def hub_clean_def attached_def live_def split: option.splits)
qed

lemma steady_nil_free:
  assumes "\<And>h. \<not> touched [] h" and "steady W L q h"
  shows "steady W L q (nil_free touched h)"
  unfolding nil_free_def
  by (rule steady_reading) (use assms in \<open>simp add: session_state_def hub_clean_def\<close>)

lemma steady_PublishRoom [steady_intros]: "steady W L q (hub_PublishRoom r ev)"
  unfolding hub_PublishRoom_def
proof (rule steady_nil_free [OF _ steady_hub])
  fix h assume "hub_ok h"
  then show "\<exists>a h'. map_option (Pair ()) (PublishRoom r ev h) = Some (a, h') \<and> hub_ok h' \<and> h_users h' = h_users h"
    by (rule PublishRoom_ok [of h r ev]) (simp add: same_maps_def)
qed simp

lemma steady_PublishUser [steady_intros]: "steady W L q (hub_PublishUser u ev)"
  unfolding hub_PublishUser_def
proof (rule steady_hub)
  fix h assume "hub_ok h"
  then show "\<exists>a h'. map_option (Pair ()) (PublishUser u ev h) = Some (a, h') \<and> hub_ok h' \<and> h_users h' = h_users h"
    by (rule PublishUser_ok [of h u ev]) (simp add: same_maps_def)
qed

lemma steady_RemoveUser [steady_intros]: "steady W L q (hub_RemoveUserFromRoom u r)"
  unfolding hub_RemoveUserFromRoom_def
proof (rule steady_nil_free [OF _ steady_hub])
  fix h assume "hub_ok h"
  then show "\<exists>a h'. map_option (Pair ()) (RemoveUserFromRoom u r h) = Some (a, h') \<and> hub_ok h' \<and> h_users h' = h_users h"
    by (rule RemoveUserFromRoom_ok [of h u r]) (simp add: same_maps_def)
qed simp

lemma steady_JoinRoom [steady_intros]:
  assumes "q \<noteq> None" and "x = q"
  shows "steady W L q (hub_JoinRoom x r)"
proof -
  obtain sub where q: "q = Some sub" using assms(1) by blast
  show ?thesis
    unfolding hub_JoinRoom_def assms(2) q option.case
proof (rule steady_hub)
  fix h assume "hub_ok h" "attached L (Some sub) h"
  then show "\<exists>a h'. map_option (Pair ()) (Some (JoinRoom sub r h)) = Some (a, h') \<and> hub_ok h' \<and> h_users h' = h_users h"
    using JoinRoom_ok [of h sub r] by (simp add: JoinRoom_def attached_def)
qed
qed

lemma steady_LeaveRoom [steady_intros]: "steady W L q (hub_LeaveRoom x r)"
proof (cases x)
  case None
  then show ?thesis
    by (simp add: hub_LeaveRoom_def steady_def safe_def session_state_def hub_clean_def)
next
  case (Some sub)
  have "steady W L q (hub_do (\<lambda>h. Some (LeaveRoom sub r h)))"
    by (rule steady_hub) (simp add: LeaveRoom_ok, simp add: LeaveRoom_def)
  with Some show ?thesis by (simp add: hub_LeaveRoom_def)
qed

section \<open>What the handlers rely on\<close>

text \<open>The index that navigation computes is one of the list.\<close>

lemma nav_idx_range: "its \<noteq> [] \<Longrightarrow> 0 \<le> i \<Longrightarrow> nav_idx m its i < i + int (length its) \<and> 0 \<le> nav_idx m its i"
proof (induction its arbitrary: i)
  case (Cons it its)
  then have "its \<noteq> [] \<Longrightarrow> nav_idx m its (i + 1) < i + 1 + int (length its) \<and> 0 \<le> nav_idx m its (i + 1)" by simp
  with Cons.prems show ?case by (cases "its = []") auto
qed simp

lemma go_rem_range: "0 \<le> a \<Longrightarrow> 0 < n \<Longrightarrow> 0 \<le> go_rem a n \<and> go_rem a n < n"
  by (cases "a = 0") (simp_all add: go_rem_def)

text \<open>Events as the package publishes them: a message event carries its message.\<close>

definition event_ok :: "Event \<Rightarrow> bool" where
  "event_ok ev \<longleftrightarrow> (Ev_Kind ev = room_msg \<or> Ev_Kind ev = dm_msg \<longrightarrow> Ev_Message ev \<noteq> None)"

text \<open>Messages as Bubble Tea and the package's commands deliver them.\<close>

definition msg_ok :: "msg \<Rightarrow> bool" where
  "msg_ok msg \<longleftrightarrow> (case msg of hubEventMsg ev \<Rightarrow> event_ok ev | _ \<Rightarrow> True)"

text \<open>
  A handler that returns a command either keeps the session attached, or returns \<open>QuitCmd\<close> with
  the session out of a hub that is still well-formed.
\<close>

definition outcome_ok :: "(world \<Rightarrow> bool) \<Rightarrow> Sub set \<Rightarrow> Sub \<Rightarrow> cmd \<Rightarrow> AppModel ui \<Rightarrow> bool" where
  "outcome_ok W L sub c s \<longleftrightarrow> session_state W L (Some sub) s \<or>
     (c = QuitCmd \<and> bystanders W L s \<and> a_hubSub (ui_model s) = None \<and> \<not> live (ui_hub s) sub)"

definition fine :: "(world \<Rightarrow> bool) \<Rightarrow> Sub set \<Rightarrow> Sub \<Rightarrow> (AppModel, cmd) handler \<Rightarrow> bool" where
  "fine W L sub h \<longleftrightarrow> (sub \<notin> L \<longrightarrow> safe W L (session_state W L (Some sub)) h (outcome_ok W L sub))"

text \<open>
  The store as the sessions see it: what they know of the database (\<open>W\<close>) is kept by every method.
  A handler calls the store in no other way.
\<close>

locale session_world =
  fixes W :: "world \<Rightarrow> bool"
  assumes method_keeps: "client_step w w' \<Longrightarrow> W w \<Longrightarrow> W w'"
begin

lemma methods_keep_world: "client_step\<^sup>*\<^sup>* w w' \<Longrightarrow> W w \<Longrightarrow> W w'"
  by (induction rule: rtranclp_induct) (auto intro: method_keeps)

lemma steady_store [steady_intros]:
  assumes "via_methods m"
  shows "steady W L q (store_op m)"
  using methods_keep_world [OF via_methodsD [OF assms]]
  by (auto simp: steady_def safe_def store_op_def session_state_def hub_clean_def split: prod.splits)

paragraph \<open>The handlers\<close>

lemma steady_refreshRooms [steady_intros]: "steady W L q refreshRooms"
  unfolding refreshRooms_def by (intro steady_intros via_intros) (simp_all add: history_ok_def)

lemma steady_cachedUser [steady_intros]: "steady W L q (cachedUser i)"
  unfolding cachedUser_def by (intro steady_intros via_intros) (simp_all add: history_ok_def)

lemma steady_add_peer [steady_intros]: "steady W L q (add_peer i)"
  unfolding add_peer_def by (intro steady_intros via_intros) (simp_all add: history_ok_def)

lemma steady_refreshDMPeers [steady_intros]: "steady W L q refreshDMPeers"
  unfolding refreshDMPeers_def by (intro steady_intros via_intros) (simp_all add: history_ok_def)

lemma steady_refreshBlocks [steady_intros]: "steady W L q refreshBlocks"
  unfolding refreshBlocks_def by (intro steady_intros via_intros) (simp_all add: history_ok_def)

lemma steady_refreshUnread [steady_intros]: "steady W L q refreshUnread"
  unfolding refreshUnread_def by (intro steady_intros via_intros) (simp_all add: history_ok_def)

lemma steady_refreshMembers [steady_intros]: "steady W L q (refreshMembers r)"
  unfolding refreshMembers_def by (intro steady_intros via_intros) (simp_all add: history_ok_def)

lemma steady_renderHistory [steady_intros]: "steady W L q (renderHistory X)"
  unfolding renderHistory_def by (intro steady_intros via_intros) (simp_all add: history_ok_def)

lemma steady_set_history [steady_intros]: "steady W L q (set_history r)"
  unfolding set_history_def by (intro steady_intros via_intros) (simp_all add: history_ok_def)

lemma steady_openRoom [steady_intros]: "steady W L q (openRoom X r)"
  unfolding openRoom_def by (intro steady_intros via_intros) (simp_all add: history_ok_def)

lemma steady_openDM [steady_intros]: "steady W L q (openDM X p)"
  unfolding openDM_def by (intro steady_intros via_intros) (simp_all add: history_ok_def)

lemma steady_activate_at: "0 \<le> i \<Longrightarrow> i < int (length its) \<Longrightarrow> steady W L q (activate_at X i its)"
  unfolding activate_at_def activate_def by (simp add: steady_openRoom steady_openDM)

lemma steady_navMove: "d = 1 \<or> d = - 1 \<Longrightarrow> steady W L q (navMove X d)"
  unfolding navMove_def
proof (intro steady_reading steady_case_prod steady_if steady_ok steady_activate_at)
  fix s items cur
  assume d: "d = 1 \<or> d = - 1" and eq: "(navItems (ui_model s), currentNavIdx (ui_model s)) = (items, cur)"
    and ne: "items \<noteq> []"
  let ?n = "int (length items)"
  have "0 \<le> cur" "0 < ?n" using eq ne nav_idx_range [of items 0] by (auto simp: currentNavIdx_def)
  with d have "0 \<le> cur + d + ?n" by linarith
  from go_rem_range [OF this \<open>0 < ?n\<close>] show "0 \<le> go_rem (cur + d + ?n) ?n" "go_rem (cur + d + ?n) ?n < ?n" by simp_all
qed

lemma steady_navActivate: "steady W L q (navActivate X)"
  unfolding navActivate_def
proof (intro steady_reading steady_case_prod steady_if steady_ok steady_activate_at)
  fix s items cur
  assume "(navItems (ui_model s), currentNavIdx (ui_model s)) = (items, cur)" and "items \<noteq> []"
  then show "0 \<le> cur" "cur < int (length items)"
    using nav_idx_range [of items 0] by (auto simp: currentNavIdx_def)
qed

lemma steady_updateNav [steady_intros]: "steady W L q (updateNav X key)"
  unfolding updateNav_def by (simp add: steady_seq steady_ok steady_navMove steady_navActivate)

paragraph \<open>Sending and events\<close>

lemma steady_send_to_room [steady_intros]: "steady W L q (send_to_room X body)"
  unfolding send_to_room_def by (intro steady_intros via_intros)

lemma steady_send_to_peer [steady_intros]: "steady W L q (send_to_peer X body)"
  unfolding send_to_peer_def by (intro steady_intros via_intros)

lemma steady_sendCurrent [steady_intros]: "steady W L q (sendCurrent X body)"
  unfolding sendCurrent_def by (intro steady_intros via_intros)

lemma steady_on_room_msg: "Ev_Message ev \<noteq> None \<Longrightarrow> steady W L q (on_room_msg X ev)"
  unfolding on_room_msg_def Let_def
  by (intro steady_intros via_intros) (simp_all add: history_ok_def append_message_def)

lemma steady_on_dm_msg: "Ev_Message ev \<noteq> None \<Longrightarrow> steady W L q (on_dm_msg X ev)"
  unfolding on_dm_msg_def Let_def
  by (intro steady_intros via_intros) (simp_all add: history_ok_def append_message_def)

lemma steady_on_msg_deleted [steady_intros]: "steady W L q (on_msg_deleted X)"
  unfolding on_msg_deleted_def by (intro steady_intros via_intros)

lemma steady_on_room_meta [steady_intros]: "steady W L q (on_room_meta ev)"
  unfolding on_room_meta_def by (intro steady_intros via_intros)

lemma steady_on_room_removed [steady_intros]: "steady W L q (on_room_removed X ev)"
  unfolding on_room_removed_def by (intro steady_intros via_intros) (simp_all add: history_ok_def)

lemma steady_on_presence [steady_intros]: "steady W L q (modify (on_presence ev))"
  by (rule steady_modify) (simp_all add: on_presence_def history_ok_def)

lemma steady_on_notify [steady_intros]: "steady W L q (modify (on_notify ev))"
  by (rule steady_modify) (simp_all add: on_notify_def history_ok_def split: option.splits)

lemma steady_handleHubEvent: "event_ok ev \<Longrightarrow> steady W L q (handleHubEvent X ev)"
  unfolding handleHubEvent_def event_ok_def
  by (cases "Ev_Kind ev")
     (simp_all add: steady_on_room_msg steady_on_dm_msg steady_on_msg_deleted
        steady_on_presence steady_on_notify steady_on_room_meta steady_on_room_removed)

paragraph \<open>Commands\<close>

lemma steady_publish_meta [steady_intros]: "steady W L q (publish_meta r)"
  unfolding publish_meta_def by (rule steady_PublishRoom)

lemma steady_my_role [steady_intros]: "(\<And>role. steady W L q (k role)) \<Longrightarrow> steady W L q (my_role r me k)"
  unfolding my_role_def by (intro steady_intros via_intros)

lemma steady_named_user [steady_intros]: "(\<And>h u. steady W L q (k h u)) \<Longrightarrow> steady W L q (named_user X arg k)"
  unfolding named_user_def by (intro steady_intros via_intros)

lemma steady_slash_join: "q \<noteq> None \<Longrightarrow> steady W L q (slash_join X args)"
  unfolding slash_join_def by (intro steady_intros via_intros) (simp_all add: session_state_def)

lemma steady_slash_create: "q \<noteq> None \<Longrightarrow> steady W L q (slash_create X args)"
  unfolding slash_create_def by (intro steady_intros via_intros) (simp_all add: session_state_def)

lemma steady_slash_leave: "steady W L q (slash_leave X)"
  unfolding slash_leave_def by (intro steady_intros via_intros) (simp_all add: history_ok_def)

lemma steady_slash_topic: "steady W L q (slash_topic rest)"
  unfolding slash_topic_def by (intro steady_intros via_intros)

lemma steady_slash_invite: "steady W L q (slash_invite X args)"
  unfolding slash_invite_def by (intro steady_intros via_intros)

lemma steady_slash_remove: "steady W L q (slash_remove X cmd args)"
  unfolding slash_remove_def by (intro steady_intros via_intros)

lemma steady_slash_msg: "steady W L q (slash_msg X args rest)"
  unfolding slash_msg_def by (intro steady_intros via_intros) (simp_all add: history_ok_def)

lemma steady_slash_whois: "steady W L q (slash_whois X args)"
  unfolding slash_whois_def by (intro steady_intros via_intros)

lemma steady_slash_block: "steady W L q (slash_block X args)"
  unfolding slash_block_def by (intro steady_intros via_intros)

lemma steady_slash_unblock: "steady W L q (slash_unblock X args)"
  unfolding slash_unblock_def by (intro steady_intros via_intros)

lemma steady_slash_report: "steady W L q (slash_report X args)"
  unfolding slash_report_def by (intro steady_intros via_intros)

lemma steady_slash_delete: "steady W L q (slash_delete X args)"
  unfolding slash_delete_def by (intro steady_intros via_intros)

lemma steady_slash_me: "steady W L q (slash_me X rest)"
  unfolding slash_me_def by (intro steady_intros via_intros)

lemma steady_slash_search: "steady W L q (slash_search X rest)"
  unfolding slash_search_def by (intro steady_intros via_intros)

lemma steady_slash_profile: "steady W L q (slash_profile X rest)"
  unfolding slash_profile_def
  by (intro steady_intros via_intros) (simp_all add: history_ok_def set_profile_def Let_def)

lemma steady_slash_addkey: "steady W L q (slash_addkey X rest)"
  unfolding slash_addkey_def by (intro steady_intros via_intros)

lemma steady_slash_keys: "steady W L q (slash_keys X)"
  unfolding slash_keys_def by (intro steady_intros via_intros)

lemma steady_slash_notifications: "steady W L q (slash_notifications X)"
  unfolding slash_notifications_def by (intro steady_intros via_intros)

lemmas steady_commands = steady_slash_join steady_slash_create steady_slash_leave steady_slash_topic
  steady_slash_invite steady_slash_remove steady_slash_msg steady_slash_whois steady_slash_block
  steady_slash_unblock steady_slash_report steady_slash_delete steady_slash_me steady_slash_search
  steady_slash_profile steady_slash_addkey steady_slash_keys steady_slash_notifications

paragraph \<open>Leaving, keys and messages\<close>

lemma fine_steady: "steady W L (Some sub) h \<Longrightarrow> fine W L sub h"
  unfolding steady_def fine_def by (intro impI) (erule safe_weaken; simp add: outcome_ok_def)

lemma fine_seq: "steady W L (Some sub) h \<Longrightarrow> (\<And>a. fine W L sub (f a)) \<Longrightarrow> fine W L sub (seq_act h f)"
  unfolding steady_def fine_def by (blast intro: safe_seq)

lemma fine_reading: "(\<And>s. session_state W L (Some sub) s \<Longrightarrow> fine W L sub (k (f s))) \<Longrightarrow> fine W L sub (reading f k)"
  unfolding fine_def by (blast intro: safe_reading)

lemma fine_quit: "fine W L sub quit"
  unfolding fine_def
proof (intro impI safeI)
  fix s assume L: "sub \<notin> L" and s: "session_state W L (Some sub) s"
  then have "hub_ok (ui_hub s)" "live (ui_hub s) sub" and others: "\<forall>x \<in> L. live (ui_hub s) x" and nil: "ui_nil s = []" and sub: "a_hubSub (ui_model s) = Some sub"
    and "W (ui_world s)"
    by (simp_all add: session_state_def hub_clean_def attached_def)
  then obtain h' where h': "Unsubscribe sub (ui_hub s) = Some h'" "hub_ok h'"
    "\<And>v. subs_at (h_users h') v = removeAll sub (subs_at (h_users (ui_hub s)) v)"
    using Unsubscribe_ok by metis
  then have "\<not> live h' sub" "\<forall>x \<in> L. live h' x" using L others by (auto simp: live_def)
  with h' nil sub \<open>W (ui_world s)\<close> show "case quit s of (Inl e, t) \<Rightarrow> e = BadSlice \<and> bystanders W L t | (Inr c, t) \<Rightarrow> outcome_ok W L sub c t"
    by (simp add: quit_def cleanup_def reading_def seq_act_def hub_Unsubscribe_def nil_free_def hub_op_def
        modify_def call_OnDisconnect_def ok_def outcome_ok_def hub_clean_def bystanders_def)
qed

lemma fine_run_command: "fine W L sub (run_command X cmd args rest)"
proof -
  have show_help: "steady W L (Some sub) (next_act (modify (\<lambda>m. m\<lparr>a_help := True\<rparr>)) (ok NoCmd))"
    by (intro steady_intros via_intros) (simp_all add: history_ok_def)
  show ?thesis
    unfolding run_command_def by (simp add: fine_quit fine_steady show_help steady_commands steady_ok)
qed

lemma fine_runSlash: "fine W L sub (runSlash X line)"
  unfolding runSlash_def Let_def
  by (cases "Fields line") (simp_all add: fine_run_command fine_steady steady_ok)

lemma steady_edit [steady_intros]: "steady W L q (edit X msg)"
  unfolding edit_def by (intro steady_intros via_intros) (simp_all add: history_ok_def)

lemma steady_recall:
  "session_state W L q s \<Longrightarrow> 0 \<le> a_cmdHistoryIdx (ui_model s) \<Longrightarrow>
   a_cmdHistoryIdx (ui_model s) < int (length (a_cmdHistory (ui_model s))) \<Longrightarrow>
   \<exists>t. recall X s = (Inr (), t) \<and> session_state W L q t"
  by (simp add: recall_def reading_def modify_def set_value_def session_state_def hub_clean_def history_ok_def)

lemma steady_key_up [steady_intros]: "steady W L q (key_up X)"
  unfolding steady_def
proof (rule safeI)
  fix s assume s: "session_state W L q s"
  show "case key_up X s of (Inl e, t) \<Rightarrow> e = BadSlice \<and> bystanders W L t | (Inr a, t) \<Rightarrow> session_state W L q t"
  proof (cases "ta_value (a_composer (ui_model s)) = [] \<and> a_cmdHistory (ui_model s) \<noteq> []")
    case True
    let ?f = "\<lambda>m. if a_cmdHistoryIdx m > 0 then m\<lparr>a_cmdHistoryIdx := a_cmdHistoryIdx m - 1\<rparr> else m"
    let ?t = "s\<lparr>ui_model := ?f (ui_model s)\<rparr>"
    have "session_state W L q ?t" using s by (simp add: session_state_def hub_clean_def history_ok_def)
    moreover have "0 \<le> a_cmdHistoryIdx (ui_model ?t)"
      "a_cmdHistoryIdx (ui_model ?t) < int (length (a_cmdHistory (ui_model ?t)))"
      using s True by (auto simp: session_state_def history_ok_def)
    ultimately obtain t where "recall X ?t = (Inr (), t)" "session_state W L q t" using steady_recall by blast
    with True show ?thesis by (simp add: key_up_def reading_def seq_act_def modify_def ok_def)
  next
    case False
    then have "key_up X s = edit X (KeyMsg ''up'') s" by (auto simp: key_up_def reading_def)
    with s steady_edit show ?thesis by (simp add: steady_def safe_def)
  qed
qed

lemma steady_key_down [steady_intros]: "steady W L q (key_down X)"
  unfolding steady_def
proof (rule safeI)
  fix s assume s: "session_state W L q s"
  let ?m = "ui_model s" and ?n = "int (length (a_cmdHistory (ui_model s)))"
  consider (edit) "ta_value (a_composer ?m) \<noteq> []" | (later) "ta_value (a_composer ?m) = []" "a_cmdHistoryIdx ?m < ?n - 1"
    | (bottom) "ta_value (a_composer ?m) = []" "\<not> a_cmdHistoryIdx ?m < ?n - 1"
    by blast
  then show "case key_down X s of (Inl e, t) \<Rightarrow> e = BadSlice \<and> bystanders W L t | (Inr a, t) \<Rightarrow> session_state W L q t"
  proof cases
    case edit
    then have "key_down X s = edit X (KeyMsg ''down'') s" by (simp add: key_down_def reading_def)
    with s steady_edit show ?thesis by (simp add: steady_def safe_def)
  next
    case later
    let ?t = "s\<lparr>ui_model := ?m\<lparr>a_cmdHistoryIdx := a_cmdHistoryIdx ?m + 1\<rparr>\<rparr>"
    have "session_state W L q ?t" using s later by (simp add: session_state_def hub_clean_def history_ok_def)
    moreover have "0 \<le> a_cmdHistoryIdx (ui_model ?t)"
      "a_cmdHistoryIdx (ui_model ?t) < int (length (a_cmdHistory (ui_model ?t)))"
      using s later by (simp_all add: session_state_def history_ok_def)
    ultimately obtain t where "recall X ?t = (Inr (), t)" "session_state W L q t" using steady_recall by blast
    with later show ?thesis by (simp add: key_down_def reading_def seq_act_def modify_def ok_def)
  next
    case bottom
    with s show ?thesis
      by (simp add: key_down_def reading_def seq_act_def modify_def ok_def set_value_def session_state_def
          hub_clean_def history_ok_def)
  qed
qed

lemma fine_key_enter: "fine W L sub (key_enter X)"
proof -
  have "steady W L (Some sub) (modify (set_value []))"
    by (rule steady_modify) (simp_all add: set_value_def history_ok_def)
  moreover have "steady W L (Some sub) (next_act (modify (\<lambda>m. m\<lparr>a_cmdHistory := a_cmdHistory m @ [l],
      a_cmdHistoryIdx := int (length (a_cmdHistory m) + 1)\<rparr>)) (sendCurrent X l))" for l
    by (intro steady_intros via_intros) (simp_all add: history_ok_def)
  ultimately show ?thesis
    unfolding key_enter_def
    by (intro fine_reading) (simp add: fine_steady [OF steady_ok] fine_seq fine_runSlash fine_steady)
qed

lemma fine_updateChat: "fine W L sub (updateChat X key)"
  unfolding updateChat_def
  by (simp add: fine_key_enter fine_steady [OF steady_key_up] fine_steady [OF steady_key_down] fine_steady [OF steady_edit])

text \<open>The keys that only change how the model is shown.\<close>

lemma steady_show_keys:
  "steady W L q (next_act (modify (\<lambda>m. m\<lparr>a_help := b\<rparr>)) (ok NoCmd))"
  "steady W L q (next_act (modify (set_focus b)) (ok NoCmd))"
  "steady W L q (next_act (modify (cycle_pane k)) (ok NoCmd))"
  by (intro steady_intros via_intros; simp add: set_focus_def cycle_pane_def Let_def history_ok_def)+

lemma fine_case_pane:
  "fine W L sub a \<Longrightarrow> fine W L sub b \<Longrightarrow> fine W L sub c \<Longrightarrow>
   fine W L sub (case p of paneNav \<Rightarrow> a | paneChat \<Rightarrow> b | paneMembers \<Rightarrow> c)"
  by (cases p) simp_all

lemma fine_if: "(b \<Longrightarrow> fine W L sub h) \<Longrightarrow> (\<not> b \<Longrightarrow> fine W L sub k) \<Longrightarrow> fine W L sub (if b then h else k)"
  by simp

lemma fine_update_key: "fine W L sub (update_key X key)"
  unfolding update_key_def prod.case
  by (intro fine_reading) (simp add: fine_quit fine_updateChat fine_case_pane fine_if
      fine_steady [OF steady_show_keys(1)] fine_steady [OF steady_show_keys(2)] fine_steady [OF steady_show_keys(3)]
      fine_steady [OF steady_ok] fine_steady [OF steady_updateNav])

lemma steady_after_switch [steady_intros]: "steady W L q (after_switch X msg cmds)"
  unfolding after_switch_def by (intro steady_intros via_intros)

lemma fine_Update: "msg_ok msg \<Longrightarrow> fine W L sub (Update X msg)"
proof (cases msg)
  case (hubEventMsg ev)
  assume "msg_ok msg"
  then have "steady W L (Some sub) (handleHubEvent X ev)"
    using hubEventMsg by (simp add: msg_ok_def steady_handleHubEvent)
  then show ?thesis
    unfolding Update_def hubEventMsg msg.case by (intro fine_steady steady_intros)
next
  case (WindowSizeMsg w h)
  show ?thesis
    unfolding Update_def WindowSizeMsg msg.case
    by (intro fine_steady steady_intros) (simp_all add: recalcLayout_def Let_def history_ok_def)
next
  case tickMsg
  show ?thesis
    unfolding Update_def tickMsg msg.case
    by (intro fine_steady steady_intros) (simp_all add: on_tick_def history_ok_def)
next
  case (infoMsg t b)
  show ?thesis
    unfolding Update_def infoMsg msg.case
    by (intro fine_steady steady_intros) (simp_all add: history_ok_def)
qed (simp_all add: Update_def fine_update_key fine_quit fine_steady [OF steady_after_switch])

paragraph \<open>Starting\<close>

lemma safe_Subscribe:
  "safe W L (session_state W L None) (hub_Subscribe u)
     (\<lambda>sub s. sub \<notin> L \<and> bystanders W L s \<and> live (ui_hub s) sub \<and> history_ok (ui_model s))"
proof (rule safeI)
  fix s :: "AppModel ui" assume s: "session_state W L None s"
  then have "hub_ok (ui_hub s)" "ui_nil s = []" and L: "\<forall>x \<in> L. live (ui_hub s) x"
    by (simp_all add: session_state_def hub_clean_def attached_def)
  obtain sub h' where h': "Subscribe u (ui_hub s) = Some (sub, h')" "hub_ok h'" "Sub_UserID sub = u"
    "sub \<notin> set (subs_at (h_users (ui_hub s)) u)"
    "\<And>v. subs_at (h_users h') v = (if v = u then sub # subs_at (h_users (ui_hub s)) u else subs_at (h_users (ui_hub s)) v)"
    using Subscribe_ok [OF \<open>hub_ok (ui_hub s)\<close>, of u] by metis
  then have "sub \<notin> L" "\<forall>x \<in> L. live h' x" using L by (auto simp: live_def)
  with h' s \<open>ui_nil s = []\<close> show "case hub_Subscribe u s of (Inl e, t) \<Rightarrow> e = BadSlice \<and> bystanders W L t
    | (Inr sub, t) \<Rightarrow> sub \<notin> L \<and> bystanders W L t \<and> live (ui_hub t) sub \<and> history_ok (ui_model t)"
    by (simp add: hub_Subscribe_def nil_free_def reading_def hub_op_def hub_clean_def live_def session_state_def
        bystanders_def)
qed

lemma safe_set_sub:
  "safe W L (\<lambda>s. sub \<notin> L \<and> bystanders W L s \<and> live (ui_hub s) sub \<and> history_ok (ui_model s)) (modify (\<lambda>m. m\<lparr>a_hubSub := Some sub\<rparr>))
     (\<lambda>_ s. sub \<notin> L \<and> session_state W L (Some sub) s)"
  by (simp add: safe_def modify_def session_state_def hub_clean_def attached_def history_ok_def bystanders_def)

lemma steady_join_all: "q \<noteq> None \<Longrightarrow> x = q \<Longrightarrow> steady W L q (for_all (\<lambda>r. hub_JoinRoom x (f r)) rs)"
  by (intro steady_for_all steady_JoinRoom)

lemma safe_Init: "safe W L (session_state W L None) (Init X) (\<lambda>_ s. \<exists>sub. sub \<notin> L \<and> session_state W L (Some sub) s)"
proof -
  note pre = steady_refreshRooms [of L None] steady_refreshDMPeers [of L None] steady_refreshBlocks [of L None]
    steady_refreshUnread [of L None]
  let ?Q = "\<lambda>_ s. \<exists>sub. sub \<notin> L \<and> session_state W L (Some sub) s"
  have rest: "safe W L (\<lambda>s. sub \<notin> L \<and> session_state W L (Some sub) s)
     (reading_model a_rooms (\<lambda>rs.
      next_act (for_all (\<lambda>r. hub_JoinRoom (Some sub) (Room_ID r)) rs) (
      reading (\<lambda>s. OnlineUserIDs (ui_hub s)) (\<lambda>ids.
      next_act (modify (\<lambda>m. m\<lparr>a_online := (\<lambda>i. i \<in> set ids \<or> a_online m i)\<rparr>)) (
      next_act (case rs of [] \<Rightarrow> ok () | r # _ \<Rightarrow> openRoom X (Room_ID r)) (
      next_act (modify recalcLayout) (
      reading_model (\<lambda>m. Batch [ListenHub (a_hubSub m), TickCmd, disconnectCmd m]) ok)))))))
     ?Q" (is "safe _ _ _ ?h _") for sub
  proof (cases "sub \<in> L")
    case False
    have "steady W L (Some sub) ?h"
      by (intro steady_intros via_intros steady_join_all) (simp_all add: history_ok_def recalcLayout_def Let_def)
    with False show ?thesis unfolding steady_def by - (erule safe_weaken; blast)
  qed (simp add: safe_def)
  show ?thesis
    unfolding Init_def
    by (intro safe_seq [OF pre(1) [unfolded steady_def]] safe_seq [OF pre(2) [unfolded steady_def]]
        safe_seq [OF pre(3) [unfolded steady_def]] safe_seq [OF pre(4) [unfolded steady_def]]
        safe_reading safe_seq [OF safe_Subscribe] safe_seq [OF safe_set_sub] rest)
qed

end

end
