(* ===== verification/TuiDraw.thy ===== *)
theory TuiDraw
  imports TuiSafe
begin

text \<open>
  Drawing: the \<open>View\<close> functions of \<^verbatim>\<open>tui/app.go\<close> and \<^verbatim>\<open>register.go\<close>. What lipgloss and bubbles make of their
  parts (boxes, joins, placing, the text area and the viewport) is the record \<open>lay\<close> of parameters; the
  texts, their order and the choice of styles are the code's. \<open>viewChat\<close> reads the store and fills the user
  cache, so drawing the main model is a handler.
\<close>

section \<open>Glyphs and layout\<close>

definition pointer :: string where
  "pointer = [CHR 0xE2, CHR 0x96, CHR 0xB8]"

definition caret :: string where
  "caret = [CHR 0xE2, CHR 0x80, CHR 0xBA]"

definition ring :: string where
  "ring = [CHR 0xE2, CHR 0x97, CHR 0x8B]"

definition disc :: string where
  "disc = [CHR 0xE2, CHR 0x97, CHR 0x8F]"

definition star :: string where
  "star = [CHR 0xE2, CHR 0x98, CHR 0x85]"

definition spark :: string where
  "spark = [CHR 0xE2, CHR 0x9C, CHR 0xA6]"

definition times_sign :: string where
  "times_sign = [CHR 0xC3, CHR 0x97]"

definition middot :: string where
  "middot = [CHR 0xC2, CHR 0xB7]"

definition both_ways :: string where
  "both_ways = [CHR 0xE2, CHR 0x86, CHR 0x94]"

definition arrow_up :: string where
  "arrow_up = [CHR 0xE2, CHR 0x86, CHR 0x91]"

definition arrow_down :: string where
  "arrow_down = [CHR 0xE2, CHR 0x86, CHR 0x93]"

text \<open>\<open>y_box st w h pad\<close> renders in a style with a width, a height and a padding where the code sets them.\<close>

record lay =
  y_box :: "style \<Rightarrow> int option \<Rightarrow> int option \<Rightarrow> (int \<times> int) option \<Rightarrow> string \<Rightarrow> string"
  y_place :: "int \<Rightarrow> int \<Rightarrow> string \<Rightarrow> string"
  y_rows :: "string list \<Rightarrow> string"
  y_columns :: "string list \<Rightarrow> string"
  y_viewport :: "Viewport \<Rightarrow> string"
  y_area :: "TextArea \<Rightarrow> string"
  y_input :: "TextArea \<Rightarrow> string"

definition paneBorder :: "bool \<Rightarrow> style" where
  "paneBorder active = (if active then stBorderActive else stBorder)"

definition lines_text :: "string list \<Rightarrow> string" where
  "lines_text ls = join ls [char_of (10::nat)]"

text \<open>The height \<open>NewAppModel\<close> sets for the text area.\<close>

definition composer_height :: int where
  "composer_height = 2"

definition side_height :: "AppModel \<Rightarrow> int" where
  "side_height m = vp_Height (a_vp m) + composer_height + 2"

section \<open>The panes\<close>

definition viewTitle :: "lay \<Rightarrow> AppModel \<Rightarrow> string" where
  "viewTitle Y m = y_box Y stTitleBar (Some (a_width m)) None None ''Terminal Social''"

text \<open>One line of a list: the marker, then the label in the style of the cursor or of the open item.\<close>

definition nav_label :: "ext \<Rightarrow> AppModel \<Rightarrow> int \<Rightarrow> bool \<Rightarrow> string \<Rightarrow> string" where
  "nav_label X m i is_open label =
     (if i = currentNavIdx m \<and> a_pane m = paneNav then x_style X stSelected (caret @ '' '' @ label)
      else if is_open then x_style X stAccent (''  '' @ label)
      else ''  '' @ label)"

definition nav_room_line :: "ext \<Rightarrow> AppModel \<Rightarrow> int \<times> chanItem \<Rightarrow> string" where
  "nav_room_line X m p =
     (case p of (i, it) \<Rightarrow>
        let marker = (if ci_mention it then x_style X stMention bullet else '' '');
            badge = (if ci_unread it > 0 then x_style X stMuted (CHR '' '' # show_int (ci_unread it)) else [])
        in marker @ nav_label X m i (ci_kind it = a_current m \<and> ci_roomID it = a_currentRoomID m) (ci_label it @ badge))"

definition nav_peer_line :: "ext \<Rightarrow> AppModel \<Rightarrow> int \<times> chanItem \<Rightarrow> string" where
  "nav_peer_line X m p =
     (case p of (i, it) \<Rightarrow>
        let marker = (if ci_online it then x_style X stOnlineDot disc else x_style X stOfflineDot ring);
            badge = (if ci_unread it > 0 then x_style X stMention (CHR '' '' # show_int (ci_unread it)) else [])
        in marker @ nav_label X m i (ci_kind it = a_current m \<and> ci_peerID it = a_currentPeerID m) (ci_label it @ badge))"

definition numbered :: "'a list \<Rightarrow> (int \<times> 'a) list" where
  "numbered xs = map (\<lambda>(i, x). (int i, x)) (enumerate 0 xs)"

definition viewNav :: "ext \<Rightarrow> lay \<Rightarrow> AppModel \<Rightarrow> string" where
  "viewNav X Y m =
     (let focused = (a_pane m = paneNav);
          header = (if focused then pointer @ '' Rooms'' else ''Rooms'');
          items = numbered (navItems m);
          rms = map (nav_room_line X m) (filter (\<lambda>p. ci_kind (snd p) = viewRoom) items);
          peers = map (nav_peer_line X m) (filter (\<lambda>p. ci_kind (snd p) = viewDM) items);
          body = lines_text (x_style X stTitle header # rms @ [[], x_style X stTitle ''Messages''] @ peers)
      in y_box Y (paneBorder focused) (Some 22) (Some (side_height m)) None body)"

definition chat_header :: "ext \<Rightarrow> (AppModel, string) handler" where
  "chat_header X =
     reading_model (\<lambda>m. (a_current m, a_currentRoomID m, a_currentPeerID m)) (\<lambda>(cur, rid, peer).
     case cur of
       viewRoom \<Rightarrow> seq_act (store_op (RoomByID rid)) (\<lambda>r.
         ok (case r of
           Inl _ \<Rightarrow> []
         | Inr r \<Rightarrow> x_style X stTitle (CHR ''#'' # Room_Name r) @ '' '' @ x_style X stMuted (emdash @ '' '' @ Room_Topic r)))
     | viewDM \<Rightarrow> seq_act (cachedUser peer) (\<lambda>r.
         reading_model a_online (\<lambda>online.
         ok (case r of
           Inl _ \<Rightarrow> []
         | Inr u \<Rightarrow> (if online (User_ID u) then x_style X stOnlineDot disc else x_style X stOfflineDot ring) @ '' ''
             @ x_style X stTitle (CHR ''@'' # User_Handle u))))
     | viewNone \<Rightarrow> ok (x_style X stMuted (''no channel selected '' @ emdash @ '' Tab to nav, Enter to pick'')))"

definition viewChat :: "ext \<Rightarrow> lay \<Rightarrow> (AppModel, string) handler" where
  "viewChat X Y =
     seq_act (chat_header X) (\<lambda>header.
     reading ui_model (\<lambda>m.
     let focused = (a_pane m = paneChat);
         header = (if focused then x_style X stAccent (pointer @ '' '') @ header else header);
         body = y_rows Y [header, y_viewport Y (a_vp m), y_area Y (a_composer m)]
     in ok (y_box Y (paneBorder focused) (Some (vp_Width (a_vp m))) None None body)))"

definition online_line :: "ext \<Rightarrow> Member \<Rightarrow> string" where
  "online_line X u =
     (let role = (if Member_Role u = RoleOwner then x_style X stMuted (CHR '' '' # star)
                  else if Member_Role u = RoleModerator then x_style X stMuted (CHR '' '' # spark) else [])
      in x_style X stOnlineDot disc @ '' '' @ Member_Handle u @ role)"

definition offline_line :: "ext \<Rightarrow> Member \<Rightarrow> string" where
  "offline_line X u = x_style X stOfflineDot ring @ '' '' @ x_style X stMuted (Member_Handle u)"

text \<open>Handles are unique in a room, so the unstable sort has one result.\<close>

definition member_lines :: "ext \<Rightarrow> AppModel \<Rightarrow> string list" where
  "member_lines X m =
     (let online = sort_key Member_Handle (filter Member_Online (a_members m));
          offline = sort_key Member_Handle (filter (\<lambda>u. \<not> Member_Online u) (a_members m));
          count = ''Members ('' @ show_int (int (length (a_members m))) @ '')'';
          header = (if a_pane m = paneMembers then pointer @ '' '' @ count else count)
      in x_style X stTitle header # map (online_line X) online @ map (offline_line X) offline)"

definition viewMembers :: "ext \<Rightarrow> lay \<Rightarrow> AppModel \<Rightarrow> string" where
  "viewMembers X Y m =
     (if a_current m \<noteq> viewRoom then []
      else y_box Y (paneBorder (a_pane m = paneMembers)) (Some 20) (Some (side_height m)) None (lines_text (member_lines X m)))"

definition viewStatus :: "ext \<Rightarrow> lay \<Rightarrow> int \<Rightarrow> AppModel \<Rightarrow> string" where
  "viewStatus X Y now m =
     (let paneName = (case a_pane m of paneNav \<Rightarrow> ''rooms'' | paneChat \<Rightarrow> ''chat'' | paneMembers \<Rightarrow> ''members'');
          left = ''online as @'' @ User_Handle (a_user m) @ ''  '' @ middot @ ''  pane: '' @ x_style X stAccent paneName;
          right = ''[tab] panes  [?] help  [/] cmd  [ctrl+c] quit'';
          flash = (if now < a_flashUntil m then ''  '' @ a_flashLine m else [])
      in y_box Y stStatusBar (Some (a_width m)) None None (left @ ''  |  '' @ right @ flash))"

definition help_lines :: "string list" where
  "help_lines =
    [''terminal-social '' @ emdash @ '' help'',
     [],
     ''Panes:'',
     ''  Tab / Shift+Tab    cycle Rooms '' @ both_ways @ '' Chat '' @ both_ways @ '' Members'',
     ''  In nav: j/k or '' @ arrow_up @ ''/'' @ arrow_down @ '' to move, Enter to open'',
     [],
     ''Composer:'',
     ''  Enter              send'',
     ''  '' @ arrow_up @ '' / '' @ arrow_down @ '' (empty)      recall previous sent'',
     ''  PgUp / PgDn        scroll history'',
     [],
     ''Slash commands:'',
     ''  /join <room>           join a public room'',
     ''  /leave                 leave current room'',
     ''  /create <room> [public|private]'',
     ''  /invite <handle>       invite to private room'',
     ''  /kick <handle>         (mod) remove from room'',
     ''  /ban  <handle> [reason]'',
     ''  /topic <text>          set room topic'',
     ''  /msg  <handle> <text>  start/append a DM'',
     ''  /whois <handle>'',
     ''  /block <handle>  /unblock <handle>'',
     ''  /report <message-id> <reason>'',
     ''  /me <text>'',
     ''  /search <query>        search current room'',
     ''  /addkey <pubkey-line>  attach another SSH public key to your account'',
     ''  /keys                  list keys on your account'',
     ''  /profile <name>|<bio>|<pronouns>  edit profile'',
     ''  /quit                  disconnect'',
     [],
     ''press any key to dismiss''
    ]"

definition viewHelp :: "lay \<Rightarrow> AppModel \<Rightarrow> string" where
  "viewHelp Y m = y_place Y (a_width m) (a_height m) (y_box Y stBorder None None (Some (1, 2)) (lines_text help_lines))"

definition View :: "ext \<Rightarrow> lay \<Rightarrow> (AppModel, string) handler" where
  "View X Y =
     reading ui_model (\<lambda>m.
     if a_help m then ok (viewHelp Y m)
     else if a_width m < 80 \<or> a_height m < 24
     then ok (y_place Y (a_width m) (a_height m)
       (x_style X stMuted (''please resize your terminal to at least 80'' @ times_sign @ ''24'')))
     else
       seq_act (viewChat X Y) (\<lambda>chat.
       seq_act clock (\<lambda>now.
       ok (y_rows Y [viewTitle Y m, y_columns Y [viewNav X Y m, chat, viewMembers X Y m], viewStatus X Y now m]))))"

section \<open>Registration and suspension\<close>

definition RegisterModel_View :: "ext \<Rightarrow> lay \<Rightarrow> RegisterModel \<Rightarrow> string" where
  "RegisterModel_View X Y m =
     (let body = y_rows Y [x_style X stTitle ''Welcome to terminal-social'', [],
            x_style X stMuted ''By connecting you agree to be excellent to each other.'',
            x_style X stMuted ''Your SSH key is your identity. Pick a handle to register.'',
            x_style X stMuted (''Handles: 3'' @ endash @ ''20 chars, lowercase letters/digits/_/-''), [],
            y_input Y (r_input m), []];
          body = (if r_err m \<noteq> [] then y_rows Y [body, x_style X stError (r_err m)] else body);
          body = y_rows Y [body, x_style X stMuted (''press enter to register '' @ middot @ '' ctrl+c to quit''),
            x_style X stMuted (''key fingerprint: '' @ Deps_ShortFP (r_deps m))];
          w = (if r_width m = 0 then 80 else r_width m);
          h = (if r_height m = 0 then 24 else r_height m)
      in y_place Y w h (y_box Y stBorder None None (Some (1, 2)) body))"

definition SuspendedModel_View :: "ext \<Rightarrow> string" where
  "SuspendedModel_View X = x_style X stError (lines_text
     [''Your account is suspended.'', ''Contact an admin.'', [], ''Press any key to disconnect.''])"

section \<open>What drawing does\<close>

text \<open>Every member is drawn on one line, those online first, each group in the order of the handles.\<close>

lemma members_drawn_once:
  "length (member_lines X m) = Suc (length (a_members m)) \<and>
   (\<exists>on off. tl (member_lines X m) = map (online_line X) on @ map (offline_line X) off \<and>
      sorted (map Member_Handle on) \<and> sorted (map Member_Handle off) \<and>
      set on = {u \<in> set (a_members m). Member_Online u} \<and> set off = {u \<in> set (a_members m). \<not> Member_Online u})"
proof -
  have "length (filter Member_Online xs) + length (filter (\<lambda>u. \<not> Member_Online u) xs) = length xs" for xs
    by (rule sum_length_filter_compl)
  then show ?thesis by (force simp: member_lines_def Let_def)
qed

text \<open>Drawing keeps the session's invariant, so it never panics, and changes nothing but the cache.\<close>

context session_world
begin

lemma steady_View: "steady W L q (View X Y)"
  unfolding View_def viewChat_def chat_header_def Let_def by (intro steady_intros via_intros)

end

definition but_cache :: "AppModel ui \<Rightarrow> AppModel \<times> (database \<times> database option \<times> int) \<times> Hub" where
  "but_cache s = ((ui_model s)\<lparr>a_userCache := Map.empty\<rparr>, core (ui_world s), ui_hub s)"

lemma frames_store: "frames core m \<Longrightarrow> frames but_cache (store_op m)"
  by (simp add: frames_def but_cache_def store_op_def split: prod.splits) (metis snd_conv)

lemma frames_reading [inv_intros]: "(\<And>x. frames v (k x)) \<Longrightarrow> frames v (reading f k)"
  by (simp add: frames_def reading_def)

lemma View_changes_only_the_cache: "frames but_cache (View X Y)"
proof -
  have "frames but_cache (cachedUser i)" for i
    unfolding cachedUser_def
    by (intro inv_intros frames_store reads_frame)
       (simp_all add: frames_def modify_def but_cache_def)
  moreover have "frames but_cache clock" by (simp add: frames_def clock_def)
  ultimately show ?thesis
    unfolding View_def viewChat_def chat_header_def Let_def
    by (auto intro!: inv_intros frames_store reads_frame split: viewKind.split)
qed

text \<open>Drawing has no way to panic: it is made of actions that return.\<close>

definition returns :: "('m, 'a) handler \<Rightarrow> bool" where
  "returns h \<longleftrightarrow> (\<forall>s. is_ok (fst (h s)))"

lemma returns_seq: "returns h \<Longrightarrow> (\<And>a. returns (f a)) \<Longrightarrow> returns (seq_act h f)"
  unfolding returns_def seq_act_def by (auto split: prod.split sum.split) (metis fst_conv is_ok_simps)

lemma returns_reading: "(\<And>x. returns (k x)) \<Longrightarrow> returns (reading f k)"
  by (simp add: returns_def reading_def)

lemma returns_basic: "returns (ok a)" "returns (store_op m)" "returns (modify g)" "returns clock"
  by (simp_all add: returns_def ok_def store_op_def modify_def clock_def split: prod.split)

lemma returns_cachedUser: "returns (cachedUser i)"
  unfolding cachedUser_def
  by (intro returns_reading) (auto intro!: returns_seq returns_basic split: option.split sum.split)

lemma View_returns: "returns (View X Y)"
  unfolding View_def viewChat_def chat_header_def Let_def
  by (auto intro!: returns_seq returns_reading returns_basic returns_cachedUser split: viewKind.split sum.split)

end
