(* ===== verification/Config.thy ===== *)
theory Config
  imports GoText
begin

text \<open>
  Package \<^verbatim>\<open>internal/config\<close>: the settings, from the environment and then from the command line. The
  environment is a map from names to values; the command line is the list of \<open>(flag, value)\<close> pairs that
  package flag reads from it, in order, and \<open>flag_int\<close> its reading of an integer value.
\<close>

record Config =
  Listen :: string
  HostKey :: string
  DB :: string
  LogLevel :: string
  MaxSessions :: int
  RateMsgPer10s :: int
  DefaultRoom :: string

type_synonym env = "string \<rightharpoonup> string"

definition envStr :: "env \<Rightarrow> string \<Rightarrow> string \<Rightarrow> string" where
  "envStr env k def = (case env k of Some v \<Rightarrow> v | None \<Rightarrow> def)"

text \<open>\<open>strconv.Atoi\<close> reads an \<open>int\<close> of 64 bits, as \<open>ParseInt\<close> in base ten does.\<close>

definition envInt :: "env \<Rightarrow> string \<Rightarrow> int \<Rightarrow> int" where
  "envInt env k def = (case env k of Some v \<Rightarrow> (case parse_int v of Some n \<Rightarrow> n | None \<Rightarrow> def) | None \<Rightarrow> def)"

definition env_config :: "env \<Rightarrow> Config" where
  "env_config env = \<lparr>
     Listen = envStr env ''TSOCIAL_LISTEN'' ''0.0.0.0:2222'',
     HostKey = envStr env ''TSOCIAL_HOST_KEY'' ''/var/lib/tsocial/host_key'',
     DB = envStr env ''TSOCIAL_DB'' ''/var/lib/tsocial/tsocial.db'',
     LogLevel = envStr env ''TSOCIAL_LOG_LEVEL'' ''info'',
     MaxSessions = envInt env ''TSOCIAL_MAX_SESSIONS'' 500,
     RateMsgPer10s = envInt env ''TSOCIAL_RATE_MSG_PER_10S'' 10,
     DefaultRoom = envStr env ''TSOCIAL_DEFAULT_ROOM'' ''general''\<rparr>"

text \<open>One flag: \<open>None\<close> is an unknown flag or a bad value, on which the program exits.\<close>

definition set_flag :: "(string \<Rightarrow> int option) \<Rightarrow> string \<times> string \<Rightarrow> Config \<Rightarrow> Config option" where
  "set_flag flag_int p c =
     (case p of (name, v) \<Rightarrow>
        if name = ''listen'' then Some (c\<lparr>Listen := v\<rparr>)
        else if name = ''host_key'' then Some (c\<lparr>HostKey := v\<rparr>)
        else if name = ''db'' then Some (c\<lparr>DB := v\<rparr>)
        else if name = ''log_level'' then Some (c\<lparr>LogLevel := v\<rparr>)
        else if name = ''max_sessions'' then map_option (\<lambda>n. c\<lparr>MaxSessions := n\<rparr>) (flag_int v)
        else if name = ''rate_msg_per_10s'' then map_option (\<lambda>n. c\<lparr>RateMsgPer10s := n\<rparr>) (flag_int v)
        else if name = ''default_room'' then Some (c\<lparr>DefaultRoom := v\<rparr>)
        else None)"

fun set_flags :: "(string \<Rightarrow> int option) \<Rightarrow> (string \<times> string) list \<Rightarrow> Config \<Rightarrow> Config option" where
  "set_flags flag_int [] c = Some c"
| "set_flags flag_int (p # ps) c =
     (case set_flag flag_int p c of None \<Rightarrow> None | Some c' \<Rightarrow> set_flags flag_int ps c')"

definition Load :: "(string \<Rightarrow> int option) \<Rightarrow> env \<Rightarrow> (string \<times> string) list \<Rightarrow> Config option" where
  "Load flag_int env flags = set_flags flag_int flags (env_config env)"

end
