(* ===== verification/Rate.thy ===== *)
theory Rate
  imports Prelude Complex_Main "HOL-Library.AList"
begin

text \<open>
  Package \<^verbatim>\<open>internal/rate\<close>: token buckets and the limiter that keeps one per key.

  A duration or a clock reading is an integer number of nanoseconds. The code computes in
  \<open>float64\<close>: every floating-point result goes through the rounding \<open>fl\<close>, a parameter, over
  exact rationals; what is used of it is stated by \<open>rounding\<close> (monotone, idempotent, exact at
  zero) and \<open>accurate\<close> (a relative error of at most 1/16 away from the underflow range; IEEE
  double precision has 2 to the power -53). Clock readings are arguments: the code reads the
  clock in the limiter (\<open>t1\<close>), in \<open>New\<close> (\<open>t2\<close>) and in \<open>Bucket.Allow\<close> (\<open>t3\<close>).
\<close>

section \<open>Floating point and durations\<close>

definition rounding :: "(rat \<Rightarrow> rat) \<Rightarrow> bool" where
  "rounding fl \<longleftrightarrow> mono fl \<and> (\<forall>x. fl (fl x) = fl x) \<and> fl 0 = 0"

definition accurate :: "(rat \<Rightarrow> rat) \<Rightarrow> bool" where
  "accurate fl \<longleftrightarrow>
     (\<forall>x. x = 0 \<or> 1 / 10 ^ 30 \<le> x \<longrightarrow> 15 / 16 * x \<le> fl x \<and> fl x \<le> 17 / 16 * x)"

text \<open>Go's integer division truncates towards zero.\<close>

definition quot :: "int \<Rightarrow> int \<Rightarrow> int" where
  "quot a b = sgn a * (\<bar>a\<bar> div b)"

text \<open>\<open>time.Duration.Seconds\<close>.\<close>

definition Seconds :: "(rat \<Rightarrow> rat) \<Rightarrow> int \<Rightarrow> rat" where
  "Seconds fl d =
     (let sec = quot d 1000000000; nsec = d - 1000000000 * sec in
      fl (fl (of_int sec) + fl (fl (of_int nsec) / 1000000000)))"

section \<open>Buckets\<close>

record Bucket =
  b_tokens :: rat
  b_cap :: rat
  b_refill :: rat
  b_last :: int

definition New :: "(rat \<Rightarrow> rat) \<Rightarrow> int \<Rightarrow> int \<Rightarrow> int \<Rightarrow> Bucket" where
  "New fl capacity per now =
     \<lparr>b_tokens = fl (of_int capacity),
      b_cap = fl (of_int capacity),
      b_refill = fl (fl (of_int capacity) / Seconds fl per),
      b_last = now\<rparr>"

definition Bucket_Allow :: "(rat \<Rightarrow> rat) \<Rightarrow> int \<Rightarrow> Bucket \<Rightarrow> bool \<times> Bucket" where
  "Bucket_Allow fl now b =
     (let elapsed = Seconds fl (now - b_last b);
          b = b\<lparr>b_last := now\<rparr>;
          b = b\<lparr>b_tokens := fl (b_tokens b + fl (elapsed * b_refill b))\<rparr>;
          b = (if b_tokens b > b_cap b then b\<lparr>b_tokens := b_cap b\<rparr> else b)
      in if b_tokens b \<ge> 1 then (True, b\<lparr>b_tokens := fl (b_tokens b - 1)\<rparr>)
         else (False, b))"

section \<open>The limiter\<close>

record Limiter =
  l_buckets :: "(string \<times> Bucket) list"
  l_cap :: int
  l_per :: int

definition NewLimiter :: "int \<Rightarrow> int \<Rightarrow> Limiter" where
  "NewLimiter capacity per = \<lparr>l_buckets = [], l_cap = capacity, l_per = per\<rparr>"

text \<open>
  The eviction sweep, the lookup or creation of the key's bucket, and the bucket's own
  \<open>Allow\<close>; the bucket is shared by pointer with the map, so its new state is the map's.
\<close>

definition evict :: "int \<Rightarrow> int \<Rightarrow> (string \<times> Bucket) list \<Rightarrow> (string \<times> Bucket) list" where
  "evict now per bs = filter (\<lambda>(k, b). \<not> (now - b_last b > 2 * per)) bs"

definition Limiter_Allow ::
  "(rat \<Rightarrow> rat) \<Rightarrow> string \<Rightarrow> int \<Rightarrow> int \<Rightarrow> int \<Rightarrow> Limiter \<Rightarrow> bool \<times> Limiter" where
  "Limiter_Allow fl key t1 t2 t3 l =
     (let bs = evict t1 (l_per l) (l_buckets l);
          b = (case map_of bs key of None \<Rightarrow> New fl (l_cap l) (l_per l) t2 | Some b \<Rightarrow> b);
          (r, b') = Bucket_Allow fl t3 b
      in (r, l\<lparr>l_buckets := AList.update key b' bs\<rparr>))"

section \<open>Durations\<close>

lemma quot_split:
  assumes "0 \<le> d"
  shows "0 \<le> quot d 1000000000" "0 \<le> d - 1000000000 * quot d 1000000000"
    "d - 1000000000 * quot d 1000000000 < 1000000000"
proof -
  have "quot d 1000000000 = d div 1000000000"
    using assms by (cases "d = 0") (simp_all add: quot_def sgn_if)
  then show "0 \<le> quot d 1000000000" "0 \<le> d - 1000000000 * quot d 1000000000"
    "d - 1000000000 * quot d 1000000000 < 1000000000"
    using assms by (simp_all add: minus_mult_div_eq_mod pos_imp_zdiv_nonneg_iff)
qed

lemma Seconds_exact: "Seconds (\<lambda>x. x) d = of_int d / 1000000000"
  by (simp add: Seconds_def Let_def field_simps)

lemma rounding_mono: "rounding fl \<Longrightarrow> x \<le> y \<Longrightarrow> fl x \<le> fl y"
  by (auto simp: rounding_def mono_def)

lemma rounding_nonneg: "rounding fl \<Longrightarrow> 0 \<le> x \<Longrightarrow> 0 \<le> fl x"
  using rounding_mono [of fl 0 x] by (simp add: rounding_def)

lemma rounding_idem: "rounding fl \<Longrightarrow> fl (fl x) = fl x"
  by (simp add: rounding_def)

lemma rounding_id: "rounding (\<lambda>x. x)" and accurate_id: "accurate (\<lambda>x. x)"
proof -
  show "rounding (\<lambda>x. x)" by (simp add: rounding_def mono_def)
  have "0 \<le> x" if "1 / 10 ^ 30 \<le> x" for x :: rat
    using that by (rule order_trans [rotated]) simp
  then show "accurate (\<lambda>x. x)" by (auto simp: accurate_def)
qed

lemma Seconds_nonneg: "rounding fl \<Longrightarrow> 0 \<le> d \<Longrightarrow> 0 \<le> Seconds fl d"
  using quot_split [of d]
  by (simp add: Seconds_def Let_def rounding_nonneg)

section \<open>The invariant of a bucket\<close>

definition bucket_ok :: "(rat \<Rightarrow> rat) \<Rightarrow> Bucket \<Rightarrow> bool" where
  "bucket_ok fl b \<longleftrightarrow>
     0 \<le> b_tokens b \<and> b_tokens b \<le> b_cap b \<and> 0 \<le> b_refill b \<and> fl (b_cap b) = b_cap b"

lemma New_ok: "rounding fl \<Longrightarrow> 0 \<le> c \<Longrightarrow> 0 \<le> per \<Longrightarrow> bucket_ok fl (New fl c per t)"
  by (simp add: bucket_ok_def New_def rounding_nonneg rounding_idem Seconds_nonneg)

text \<open>The tokens after the refill and before the request is charged.\<close>

definition refilled :: "(rat \<Rightarrow> rat) \<Rightarrow> int \<Rightarrow> Bucket \<Rightarrow> rat" where
  "refilled fl now b = min (b_cap b) (fl (b_tokens b + fl (Seconds fl (now - b_last b) * b_refill b)))"

lemma Bucket_Allow_refilled:
  "Bucket_Allow fl now b =
     (1 \<le> refilled fl now b,
      b\<lparr>b_last := now,
        b_tokens := (if 1 \<le> refilled fl now b then fl (refilled fl now b - 1) else refilled fl now b)\<rparr>)"
  by (simp add: Bucket_Allow_def refilled_def Let_def min_def)

lemma refilled_range:
  "rounding fl \<Longrightarrow> bucket_ok fl b \<Longrightarrow> b_last b \<le> now \<Longrightarrow> 0 \<le> refilled fl now b \<and> refilled fl now b \<le> b_cap b"
  by (simp add: refilled_def bucket_ok_def rounding_nonneg Seconds_nonneg)

lemma refilled_fixed:
  "rounding fl \<Longrightarrow> bucket_ok fl b \<Longrightarrow> fl (refilled fl now b) = refilled fl now b"
  by (simp add: refilled_def bucket_ok_def min_def rounding_idem)

text \<open>A bucket never goes below zero or above its capacity: for every monotone rounding, a new
  bucket is in range, and a request keeps it in range, whatever the time since the last one.\<close>

theorem Bucket_Allow_in_range:
  assumes "rounding fl" and "bucket_ok fl b" and "b_last b \<le> now"
  shows "bucket_ok fl (snd (Bucket_Allow fl now b)) \<and> b_cap (snd (Bucket_Allow fl now b)) = b_cap b
    \<and> (fst (Bucket_Allow fl now b) \<longrightarrow> 1 \<le> b_cap b)"
proof -
  note range = refilled_range [OF assms]
  have "1 \<le> refilled fl now b \<Longrightarrow> 0 \<le> fl (refilled fl now b - 1)"
    using assms by (simp add: rounding_nonneg)
  moreover have "fl (refilled fl now b - 1) \<le> refilled fl now b"
    using rounding_mono [OF assms(1), of "refilled fl now b - 1" "refilled fl now b"]
    by (simp add: refilled_fixed assms)
  ultimately show ?thesis
    using assms(2) range by (auto simp: Bucket_Allow_refilled bucket_ok_def)
qed

theorem Bucket_Allow_in_range_witness:
  "bucket_ok (\<lambda>x. x) (snd (Bucket_Allow (\<lambda>x. x) 5 (New (\<lambda>x. x) 10 10000000000 0)))
   \<and> b_cap (snd (Bucket_Allow (\<lambda>x. x) 5 (New (\<lambda>x. x) 10 10000000000 0))) = 10"
  using Bucket_Allow_in_range [OF rounding_id New_ok [OF rounding_id, of 10 10000000000 0], of 5]
  by (simp add: New_def)


section \<open>Throughput\<close>

text \<open>The requests a bucket admits among those made at the times \<open>ts\<close>.\<close>

fun admitted :: "(rat \<Rightarrow> rat) \<Rightarrow> int list \<Rightarrow> Bucket \<Rightarrow> nat" where
  "admitted fl [] b = 0"
| "admitted fl (t # ts) b =
     (case Bucket_Allow fl t b of (r, b') \<Rightarrow> (if r then 1 else 0) + admitted fl ts b')"

lemma admitted_le:
  "bucket_ok (\<lambda>x. x) b \<Longrightarrow> sorted (b_last b # ts) \<Longrightarrow>
   of_nat (admitted (\<lambda>x. x) ts b)
     \<le> b_tokens b + of_int (last (b_last b # ts) - b_last b) / 1000000000 * b_refill b"
proof (induction ts arbitrary: b)
  case Nil
  then show ?case by (simp add: bucket_ok_def)
next
  case (Cons t ts)
  let ?r = "refilled (\<lambda>x. x) t b" and ?b' = "snd (Bucket_Allow (\<lambda>x. x) t b)"
  have ok: "bucket_ok (\<lambda>x. x) ?b'"
    using Bucket_Allow_in_range [OF rounding_id Cons.prems(1), of t] Cons.prems(2) by simp
  have "of_nat (admitted (\<lambda>x. x) ts ?b')
      \<le> b_tokens ?b' + of_int (last (t # ts) - t) / 1000000000 * b_refill b"
    using Cons.IH [OF ok] Cons.prems(2) by (simp add: Bucket_Allow_refilled)
  moreover have "(of_nat (admitted (\<lambda>x. x) (t # ts) b) :: rat) = (if 1 \<le> ?r then 1 else 0) + of_nat (admitted (\<lambda>x. x) ts ?b')"
    by (simp add: Bucket_Allow_refilled)
  moreover have "b_tokens ?b' = ?r - (if 1 \<le> ?r then 1 else 0)"
    by (simp add: Bucket_Allow_refilled)
  moreover have "?r \<le> b_tokens b + of_int (t - b_last b) / 1000000000 * b_refill b"
    by (simp add: refilled_def Seconds_exact)
  moreover have "of_int (last (b_last b # t # ts) - b_last b) / 1000000000 * b_refill b
      = of_int (t - b_last b) / 1000000000 * b_refill b + of_int (last (t # ts) - t) / 1000000000 * b_refill b"
    by (simp add: field_simps)
  ultimately show ?case by linarith
qed

text \<open>The rate a limiter is configured with is the rate it enforces (computing exactly): a
  bucket of \<open>c\<close> tokens per \<open>per\<close> nanoseconds admits, of any sequence of requests, at most
  \<open>c\<close> plus \<open>c\<close> for every \<open>per\<close> that has passed since it was created.\<close>

theorem Bucket_throughput:
  assumes "0 \<le> c" and "0 < per" and "sorted (t0 # ts)"
  shows "of_nat (admitted (\<lambda>x. x) ts (New (\<lambda>x. x) c per t0))
    \<le> (of_int c + of_int c * of_int (last (t0 # ts) - t0) / of_int per :: rat)"
proof -
  let ?b = "New (\<lambda>x. x) c per t0"
  have "of_nat (admitted (\<lambda>x. x) ts ?b)
      \<le> b_tokens ?b + of_int (last (b_last ?b # ts) - b_last ?b) / 1000000000 * b_refill ?b"
    using assms by (intro admitted_le New_ok [OF rounding_id]) (auto simp: New_def)
  also have "\<dots> = of_int c + of_int c * of_int (last (t0 # ts) - t0) / of_int per"
    using assms(2) by (simp add: New_def Seconds_exact field_simps)
  finally show ?thesis .
qed

theorem Bucket_throughput_witness:
  "of_nat (admitted (\<lambda>x. x) [0, 0, 0] (New (\<lambda>x. x) 2 10 0)) \<le> (2 + 2 * of_int (0 - 0) / 10 :: rat)"
  using Bucket_throughput [of 2 10 0 "[0, 0, 0]"] by simp

section \<open>Eviction is unobservable\<close>

text \<open>
  The contract the limiter relies on: a bucket that has been idle for longer than the
  window answers like a new one. \<open>adm\<close> collects the conditions on the configuration.
\<close>

locale refilling_bucket =
  fixes adm :: bool
    and fresh :: "int \<Rightarrow> 'b"
    and allow :: "int \<Rightarrow> 'b \<Rightarrow> bool \<times> 'b"
    and last_use :: "'b \<Rightarrow> int"
    and wf :: "'b \<Rightarrow> bool"
    and window :: int
  assumes fresh_wf: "adm \<Longrightarrow> wf (fresh t)"
    and fresh_last: "last_use (fresh t) = t"
    and allow_wf: "adm \<Longrightarrow> wf b \<Longrightarrow> last_use b \<le> t \<Longrightarrow> wf (snd (allow t b))"
    and allow_last: "last_use (snd (allow t b)) = t"
    and idle_fresh: "adm \<Longrightarrow> wf b \<Longrightarrow> window < t1 - last_use b \<Longrightarrow> t1 \<le> t2 \<Longrightarrow> t2 \<le> t3 \<Longrightarrow>
      allow t3 b = allow t3 (fresh t2)"

text \<open>The specification: one bucket per key, created at the first use and kept for ever.\<close>

definition keyed_step ::
  "(int \<Rightarrow> 'b) \<Rightarrow> (int \<Rightarrow> 'b \<Rightarrow> bool \<times> 'b) \<Rightarrow> string \<Rightarrow> int \<Rightarrow> int \<Rightarrow> (string \<rightharpoonup> 'b) \<Rightarrow> bool \<times> (string \<rightharpoonup> 'b)" where
  "keyed_step fresh allow key t2 t3 m =
     (case allow t3 (case m key of None \<Rightarrow> fresh t2 | Some b \<Rightarrow> b) of (r, b') \<Rightarrow> (r, m(key \<mapsto> b')))"

definition evict_map :: "('b \<Rightarrow> int) \<Rightarrow> int \<Rightarrow> int \<Rightarrow> (string \<rightharpoonup> 'b) \<Rightarrow> (string \<rightharpoonup> 'b)" where
  "evict_map last_use window t m =
     (\<lambda>k. case m k of None \<Rightarrow> None | Some b \<Rightarrow> if window < t - last_use b then None else Some b)"

context refilling_bucket
begin

text \<open>\<open>m\<close> is \<open>s\<close> at time \<open>T\<close> but for buckets that have been idle for the window.\<close>

definition covers :: "int \<Rightarrow> (string \<rightharpoonup> 'b) \<Rightarrow> (string \<rightharpoonup> 'b) \<Rightarrow> bool" where
  "covers T m s \<longleftrightarrow>
     (\<forall>k b. s k = Some b \<longrightarrow> wf b \<and> last_use b \<le> T) \<and>
     (\<forall>k. m k = s k \<or> (m k = None \<and> (\<exists>b. s k = Some b \<and> window < T - last_use b)))"

lemma covers_evict:
  assumes "covers T m s" and "T \<le> t1"
  shows "covers t1 (evict_map last_use window t1 m) s"
  unfolding covers_def
proof (intro conjI allI impI)
  fix k b assume "s k = Some b"
  with assms show "wf b" "last_use b \<le> t1" by (force simp: covers_def)+
next
  fix k
  from assms have "m k = s k \<or> (m k = None \<and> (\<exists>b. s k = Some b \<and> window < T - last_use b))"
    by (auto simp: covers_def)
  then show "evict_map last_use window t1 m k = s k \<or>
      (evict_map last_use window t1 m k = None \<and> (\<exists>b. s k = Some b \<and> window < t1 - last_use b))"
  proof
    assume "m k = s k"
    then show ?thesis by (cases "s k") (simp_all add: evict_map_def)
  next
    assume "m k = None \<and> (\<exists>b. s k = Some b \<and> window < T - last_use b)"
    with assms(2) show ?thesis by (force simp: evict_map_def)
  qed
qed

lemma step_agrees:
  assumes "adm" and "covers T m s" and "T \<le> t1" and "t1 \<le> t2" and "t2 \<le> t3"
  shows "fst (keyed_step fresh allow key t2 t3 (evict_map last_use window t1 m))
       = fst (keyed_step fresh allow key t2 t3 s)"
    and "covers t3 (snd (keyed_step fresh allow key t2 t3 (evict_map last_use window t1 m)))
       (snd (keyed_step fresh allow key t2 t3 s))"
proof -
  let ?m = "evict_map last_use window t1 m"
  let ?bm = "case ?m key of None \<Rightarrow> fresh t2 | Some b \<Rightarrow> b" and ?bs = "case s key of None \<Rightarrow> fresh t2 | Some b \<Rightarrow> b"
  have c: "covers t1 ?m s" using assms(2,3) by (rule covers_evict)
  have "wf ?bs \<and> last_use ?bs \<le> t3"
  proof (cases "s key")
    case None
    with assms show ?thesis by (simp add: fresh_wf fresh_last)
  next
    case (Some b)
    with c have "wf b" "last_use b \<le> t1" by (auto simp: covers_def)
    with Some assms show ?thesis by simp
  qed
  then have wfs: "wf ?bs" "last_use ?bs \<le> t3" by auto
  have same: "allow t3 ?bm = allow t3 ?bs"
  proof (cases "?m key = s key")
    case False
    with c obtain b where "?m key = None" "s key = Some b" "window < t1 - last_use b" "wf b"
      by (auto simp: covers_def)
    with assms show ?thesis by (simp add: idle_fresh)
  qed simp
  then show "fst (keyed_step fresh allow key t2 t3 ?m) = fst (keyed_step fresh allow key t2 t3 s)"
    by (simp add: keyed_step_def split: prod.splits)
  have "covers t3 (?m(key \<mapsto> snd (allow t3 ?bs))) (s(key \<mapsto> snd (allow t3 ?bs)))"
    unfolding covers_def
  proof (intro conjI allI impI)
    fix k b assume "(s(key \<mapsto> snd (allow t3 ?bs))) k = Some b"
    with c show "wf b" "last_use b \<le> t3"
      using assms allow_wf [OF assms(1) wfs] allow_last [of t3 ?bs]
      by (force simp: covers_def split: if_splits)+
  next
    fix k
    from c have "?m k = s k \<or> (?m k = None \<and> (\<exists>b. s k = Some b \<and> window < t1 - last_use b))"
      by (auto simp: covers_def)
    then show "(?m(key \<mapsto> snd (allow t3 ?bs))) k = (s(key \<mapsto> snd (allow t3 ?bs))) k \<or>
        ((?m(key \<mapsto> snd (allow t3 ?bs))) k = None \<and>
         (\<exists>b. (s(key \<mapsto> snd (allow t3 ?bs))) k = Some b \<and> window < t3 - last_use b))"
      using assms by (cases "k = key") force+
  qed
  then show "covers t3 (snd (keyed_step fresh allow key t2 t3 ?m)) (snd (keyed_step fresh allow key t2 t3 s))"
    by (cases "allow t3 ?bs") (simp add: keyed_step_def same)
qed

end


subsection \<open>A bucket fills up within the window\<close>

lemma accurateD:
  "accurate fl \<Longrightarrow> x = 0 \<or> 1 / 10 ^ 30 \<le> x \<Longrightarrow> 15 / 16 * x \<le> fl x \<and> fl x \<le> 17 / 16 * x"
  unfolding accurate_def by blast

lemma fl_of_int:
  assumes "accurate fl" and "0 \<le> n"
  shows "15 / 16 * of_int n \<le> fl (of_int n) \<and> fl (of_int n) \<le> 17 / 16 * of_int n"
proof (rule accurateD [OF assms(1)])
  show "of_int n = 0 \<or> 1 / 10 ^ 30 \<le> (of_int n :: rat)"
  proof (cases "n = 0")
    case False
    with assms(2) have "(1 :: rat) \<le> of_int n" by simp
    then show ?thesis by simp
  qed simp
qed

text \<open>A duration in seconds is right within the third power of the relative error.\<close>

lemma Seconds_bounds:
  assumes "accurate fl" and "0 \<le> d"
  shows "(15 / 16) ^ 3 * (of_int d / 1000000000) \<le> Seconds fl d"
    and "Seconds fl d \<le> (17 / 16) ^ 3 * (of_int d / 1000000000)"
proof -
  obtain q r where q: "q = quot d 1000000000" and r: "r = d - 1000000000 * q" by blast
  have nn: "0 \<le> q" "0 \<le> r" using quot_split [OF assms(2)] by (simp_all add: q r)
  have d: "(of_int d / 1000000000 :: rat) = of_int q + of_int r / 1000000000"
    by (simp add: r field_simps)
  note fq = fl_of_int [OF assms(1) nn(1)] and fr = fl_of_int [OF assms(1) nn(2)]
  have pos: "0 \<le> fl (of_int q)" using fq nn(1) by (simp add: order_trans [rotated])
  have "fl (of_int r) / 1000000000 = 0 \<or> 1 / 10 ^ 30 \<le> fl (of_int r) / 1000000000"
  proof (cases "r = 0")
    case True
    with fr show ?thesis by simp
  next
    case False
    with nn(2) have "(1 :: rat) \<le> of_int r" by simp
    with fr have "15 / 16 \<le> fl (of_int r)" by linarith
    then show ?thesis by simp
  qed
  then have fr': "15 / 16 * (fl (of_int r) / 1000000000) \<le> fl (fl (of_int r) / 1000000000)
      \<and> fl (fl (of_int r) / 1000000000) \<le> 17 / 16 * (fl (of_int r) / 1000000000)"
    by (rule accurateD [OF assms(1)])
  let ?s = "fl (of_int q) + fl (fl (of_int r) / 1000000000)"
  have lo: "(15 / 16) ^ 2 * (of_int d / 1000000000) \<le> ?s" and hi: "?s \<le> (17 / 16) ^ 2 * (of_int d / 1000000000)"
    using fq fr fr' nn unfolding d by (simp_all add: power2_eq_square field_simps)
  have "?s = 0 \<or> 1 / 10 ^ 30 \<le> ?s"
  proof (cases "d = 0")
    case True
    with hi lo show ?thesis by simp
  next
    case False
    with assms(2) have "(1 :: rat) \<le> of_int d" by simp
    then have "(15 / 16) ^ 2 / 1000000000 \<le> (15 / 16) ^ 2 * (of_int d / 1000000000 :: rat)" by simp
    with lo have "(15 / 16) ^ 2 / 1000000000 \<le> ?s" by linarith
    then show ?thesis by (simp add: power2_eq_square)
  qed
  then have "15 / 16 * ?s \<le> fl ?s \<and> fl ?s \<le> 17 / 16 * ?s" by (rule accurateD [OF assms(1)])
  moreover have "Seconds fl d = fl ?s" by (simp add: Seconds_def Let_def q r)
  ultimately show "(15 / 16) ^ 3 * (of_int d / 1000000000) \<le> Seconds fl d"
    and "Seconds fl d \<le> (17 / 16) ^ 3 * (of_int d / 1000000000)"
    using lo hi by (simp_all add: power2_eq_square power3_eq_cube)
qed


text \<open>What is assumed of a limiter's configuration: a rounding, and a positive window that fits in
  an \<open>int64\<close> of nanoseconds.\<close>

definition limiter_config :: "(rat \<Rightarrow> rat) \<Rightarrow> int \<Rightarrow> int \<Rightarrow> bool" where
  "limiter_config fl c per \<longleftrightarrow>
     rounding fl \<and> accurate fl \<and> 0 \<le> c \<and> 0 < per \<and> per < 2 ^ 63"

definition bucket_of :: "(rat \<Rightarrow> rat) \<Rightarrow> int \<Rightarrow> int \<Rightarrow> Bucket \<Rightarrow> bool" where
  "bucket_of fl c per b \<longleftrightarrow> bucket_ok fl b \<and> b_cap b = b_cap (New fl c per 0) \<and> b_refill b = b_refill (New fl c per 0)"

lemma refill_lower:
  assumes cfg: "limiter_config fl c per" and c: "1 \<le> c"
  shows "15 / 16 * fl (of_int c) \<le> (17 / 16) ^ 3 * (of_int per / 1000000000) * fl (fl (of_int c) / Seconds fl per)"
    and "15 / 16 \<le> fl (of_int c)"
proof -
  let ?C = "fl (of_int c)" and ?sp = "Seconds fl per" and ?P = "of_int per / 1000000000 :: rat"
  from cfg have acc: "accurate fl" and per: "0 < per" "per < 2 ^ 63" by (auto simp: limiter_config_def)
  have "(1 :: rat) \<le> of_int c" using c by simp
  then show C: "15 / 16 \<le> ?C" using fl_of_int [OF acc, of c] c by linarith
  have P: "0 < ?P" "?P \<le> 10 ^ 10" using per by (simp_all add: field_simps)
  from Seconds_bounds [OF acc, of per] per P have sp: "0 < ?sp" "?sp \<le> (17 / 16) ^ 3 * ?P"
    by (simp_all add: power3_eq_cube)
  have "?sp \<le> 10 ^ 11" using sp(2) P(2) by (simp add: power3_eq_cube)
  then have "1 / 10 ^ 30 * ?sp \<le> ?C" using C by simp
  then have "1 / 10 ^ 30 \<le> ?C / ?sp" using sp(1) by (simp add: pos_le_divide_eq)
  then have r: "15 / 16 * (?C / ?sp) \<le> fl (?C / ?sp)" using accurateD [OF acc] by blast
  have "15 / 16 * ?C = ?sp * (15 / 16 * (?C / ?sp))" using sp(1) by simp
  also have "\<dots> \<le> ?sp * fl (?C / ?sp)" using r sp(1) by (intro mult_left_mono) auto
  also have "\<dots> \<le> (17 / 16) ^ 3 * ?P * fl (?C / ?sp)"
  proof (rule mult_right_mono [OF sp(2)])
    have "0 \<le> ?C / ?sp" using C sp(1) by simp
    with r show "0 \<le> fl (?C / ?sp)" by (simp add: order_trans [rotated])
  qed
  finally show "15 / 16 * ?C \<le> (17 / 16) ^ 3 * ?P * fl (?C / ?sp)" .
qed

lemma idle_refills:
  assumes cfg: "limiter_config fl c per" and b: "bucket_of fl c per b"
    and idle: "2 * per < t1 - b_last b" and t: "t1 \<le> t3"
  shows "refilled fl t3 b = b_cap b"
proof (cases "c = 0")
  case True
  then have "b_cap b = 0" using cfg b by (simp add: limiter_config_def rounding_def bucket_of_def New_def)
  moreover have "0 \<le> refilled fl t3 b \<and> refilled fl t3 b \<le> b_cap b"
    using cfg b idle t by (intro refilled_range) (auto simp: limiter_config_def bucket_of_def)
  ultimately show ?thesis by simp
next
  case False
  with cfg have c: "1 \<le> c" and acc: "accurate fl" and per: "0 < per" by (auto simp: limiter_config_def)
  let ?C = "fl (of_int c)" and ?P = "of_int per / 1000000000 :: rat" and ?E = "Seconds fl (t3 - b_last b)"
  have bc: "b_cap b = ?C" "b_refill b = fl (?C / Seconds fl per)" "0 \<le> b_tokens b"
    using b by (simp_all add: bucket_of_def New_def bucket_ok_def)
  note lower = refill_lower [OF cfg c, folded bc(2)]
  have "0 \<le> b_refill b" using b by (simp add: bucket_of_def bucket_ok_def)
  have "2 * ?P \<le> of_int (t3 - b_last b) / 1000000000" using idle t by (simp add: field_simps)
  moreover have "(15 / 16) ^ 3 * (of_int (t3 - b_last b) / 1000000000) \<le> ?E"
    using idle t per by (intro Seconds_bounds [OF acc]) linarith
  ultimately have "(15 / 16) ^ 3 * (2 * ?P) \<le> ?E" by (simp add: power3_eq_cube)
  then have "(15 / 16) ^ 3 * (2 * ?P) * b_refill b \<le> ?E * b_refill b"
    using \<open>0 \<le> b_refill b\<close> by (rule mult_right_mono)
  moreover have "(15 / 16) ^ 3 * (2 * ?P) * b_refill b
      = 2 * (15 / 17) ^ 3 * ((17 / 16) ^ 3 * ?P * b_refill b)" by (simp add: power3_eq_cube)
  ultimately have e: "2 * (15 / 17) ^ 3 * (15 / 16) * ?C \<le> ?E * b_refill b"
    using lower(1) by (simp add: power3_eq_cube)
  then have "1 / 10 ^ 30 \<le> ?E * b_refill b" using lower(2) by (simp add: power3_eq_cube)
  then have f: "15 / 16 * (?E * b_refill b) \<le> fl (?E * b_refill b)" using accurateD [OF acc] by blast
  let ?s = "b_tokens b + fl (?E * b_refill b)"
  have s: "16 / 15 * ?C \<le> ?s" using e f bc(3) lower(2) by (simp add: power3_eq_cube)
  then have "1 / 10 ^ 30 \<le> ?s" using lower(2) by simp
  then have f': "15 / 16 * ?s \<le> fl ?s" using accurateD [OF acc] by blast
  have "?C = 15 / 16 * (16 / 15 * ?C)" by simp
  also have "\<dots> \<le> 15 / 16 * ?s" using s by (rule mult_left_mono) simp
  finally have "?C \<le> fl ?s" using f' by (rule order_trans)
  then show ?thesis by (simp add: refilled_def bc(1))
qed

lemma fresh_full:
  assumes "limiter_config fl c per" and "t2 \<le> t3"
  shows "refilled fl t3 (New fl c per t2) = b_cap (New fl c per t2)"
proof -
  let ?b = "New fl c per t2"
  have r: "rounding fl" and ok: "bucket_ok fl ?b" using assms by (auto simp: limiter_config_def New_ok)
  have "0 \<le> fl (Seconds fl (t3 - t2) * b_refill ?b)"
    using assms(2) r ok by (simp add: rounding_nonneg Seconds_nonneg bucket_ok_def)
  then have "fl (b_cap ?b) \<le> fl (b_tokens ?b + fl (Seconds fl (t3 - t2) * b_refill ?b))"
    by (intro rounding_mono [OF r]) (simp add: New_def)
  then show ?thesis using ok by (simp add: refilled_def bucket_ok_def New_def)
qed

lemma full_same:
  assumes "refilled fl t b = b_cap b" and "refilled fl t b' = b_cap b'"
    and "b_cap b = b_cap b'" and "b_refill b = b_refill b'"
  shows "Bucket_Allow fl t b = Bucket_Allow fl t b'"
  using assms by (cases b; cases b') (simp add: Bucket_Allow_refilled)

lemma Bucket_Allow_last: "b_last (snd (Bucket_Allow fl t b)) = t"
  by (simp add: Bucket_Allow_refilled)

interpretation rb: refilling_bucket "limiter_config fl c per" "New fl c per" "Bucket_Allow fl" b_last
  "bucket_of fl c per" "2 * per" for fl c per
proof (unfold_locales, goal_cases)
  case (1 t)
  then show ?case by (simp add: bucket_of_def limiter_config_def New_ok) (simp add: New_def)
next
  case (2 t)
  then show ?case by (simp add: New_def)
next
  case (3 b t)
  then show ?case
    using Bucket_Allow_in_range [of fl b t]
    by (simp add: bucket_of_def limiter_config_def) (simp add: Bucket_Allow_refilled)
next
  case (4 t b)
  then show ?case by (rule Bucket_Allow_last)
next
  case (5 b t1 t2 t3)
  then show ?case
    by (intro full_same idle_refills fresh_full) (auto simp: bucket_of_def New_def)
qed


subsection \<open>The limiter refines one bucket per key\<close>

type_synonym call = "string \<times> int \<times> int \<times> int"

text \<open>A sequence of calls: the key, and the three clock readings, which never go back.\<close>

fun calls_from :: "int \<Rightarrow> call list \<Rightarrow> bool" where
  "calls_from T [] = True"
| "calls_from T ((key, t1, t2, t3) # cs) \<longleftrightarrow> T \<le> t1 \<and> t1 \<le> t2 \<and> t2 \<le> t3 \<and> calls_from t3 cs"

fun limiter_run :: "(rat \<Rightarrow> rat) \<Rightarrow> call list \<Rightarrow> Limiter \<Rightarrow> bool list" where
  "limiter_run fl [] l = []"
| "limiter_run fl ((key, t1, t2, t3) # cs) l =
     (case Limiter_Allow fl key t1 t2 t3 l of (r, l') \<Rightarrow> r # limiter_run fl cs l')"

text \<open>The specification run: \<open>keyed_step\<close> on buckets that are never evicted.\<close>

fun keyed_run :: "(rat \<Rightarrow> rat) \<Rightarrow> int \<Rightarrow> int \<Rightarrow> call list \<Rightarrow> (string \<rightharpoonup> Bucket) \<Rightarrow> bool list" where
  "keyed_run fl c per [] m = []"
| "keyed_run fl c per ((key, t1, t2, t3) # cs) m =
     (case keyed_step (New fl c per) (Bucket_Allow fl) key t2 t3 m of (r, m') \<Rightarrow> r # keyed_run fl c per cs m')"

lemma map_of_evict:
  "distinct (map fst bs) \<Longrightarrow> map_of (evict t per bs) = evict_map b_last (2 * per) t (map_of bs)"
proof (induction bs)
  case Nil
  then show ?case by (simp add: evict_def evict_map_def fun_eq_iff)
next
  case (Cons p bs)
  obtain k b where p: "p = (k, b)" by force
  have "map_of bs k = None" using Cons.prems by (simp add: p map_of_eq_None_iff)
  with Cons show ?case
    by (auto simp: evict_def evict_map_def fun_eq_iff p split: option.splits)
qed

lemma distinct_evict: "distinct (map fst bs) \<Longrightarrow> distinct (map fst (evict t per bs))"
  unfolding evict_def by (rule distinct_map_filter)

lemma Limiter_Allow_step:
  assumes "distinct (map fst (l_buckets l))"
  shows "fst (Limiter_Allow fl key t1 t2 t3 l) =
      fst (keyed_step (New fl (l_cap l) (l_per l)) (Bucket_Allow fl) key t2 t3
            (evict_map b_last (2 * l_per l) t1 (map_of (l_buckets l))))"
    and "map_of (l_buckets (snd (Limiter_Allow fl key t1 t2 t3 l))) =
      snd (keyed_step (New fl (l_cap l) (l_per l)) (Bucket_Allow fl) key t2 t3
            (evict_map b_last (2 * l_per l) t1 (map_of (l_buckets l))))"
    and "distinct (map fst (l_buckets (snd (Limiter_Allow fl key t1 t2 t3 l))))"
    and "l_cap (snd (Limiter_Allow fl key t1 t2 t3 l)) = l_cap l"
    and "l_per (snd (Limiter_Allow fl key t1 t2 t3 l)) = l_per l"
  using assms
  by (simp_all add: Limiter_Allow_def keyed_step_def map_of_evict update_conv' distinct_update
      distinct_evict Let_def split: prod.splits)

text \<open>C27. Evicting idle buckets is unobservable: from a new limiter, every sequence of calls gets the
  answers it would get from one bucket per key that is never evicted, under floating-point rounding.\<close>

theorem Limiter_refines_keyed:
  assumes "limiter_config fl c per" and "calls_from T cs"
  shows "limiter_run fl cs (NewLimiter c per) = keyed_run fl c per cs (\<lambda>_. None)"
proof -
  have run: "limiter_run fl cs l = keyed_run fl c per cs s"
    if "distinct (map fst (l_buckets l))" "l_cap l = c" "l_per l = per"
      "refilling_bucket.covers b_last (bucket_of fl c per) (2 * per) T (map_of (l_buckets l)) s"
      "calls_from T cs" for l s
    using that
  proof (induction cs arbitrary: T l s)
    case (Cons p cs)
    obtain key t1 t2 t3 where p: "p = (key, t1, t2, t3)" by (cases p) auto
    note steps = Limiter_Allow_step [OF Cons.prems(1), of fl key t1 t2 t3, unfolded Cons.prems(2,3)]
    note agrees = rb.step_agrees [OF assms(1) Cons.prems(4), of t1 t2 t3 key]
    let ?l = "snd (Limiter_Allow fl key t1 t2 t3 l)"
      and ?s = "snd (keyed_step (New fl c per) (Bucket_Allow fl) key t2 t3 s)"
    have "limiter_run fl cs ?l = keyed_run fl c per cs ?s"
      using Cons.prems steps agrees by (intro Cons.IH [of ?l t3 ?s]) (simp_all add: p)
    then show ?case
      using Cons.prems steps(1) agrees(1)
      by (cases "Limiter_Allow fl key t1 t2 t3 l";
          cases "keyed_step (New fl c per) (Bucket_Allow fl) key t2 t3 s") (simp add: p)
  qed simp
  have "rb.covers fl c per T Map.empty Map.empty" by (simp add: rb.covers_def)
  then show ?thesis using assms(2) by (intro run) (simp_all add: NewLimiter_def)
qed

theorem Limiter_refines_keyed_witness:
  "limiter_run (\<lambda>x. x) [(''a'', 1, 1, 1), (''a'', 30, 31, 31)] (NewLimiter 1 10)
   = keyed_run (\<lambda>x. x) 1 10 [(''a'', 1, 1, 1), (''a'', 30, 31, 31)] (\<lambda>_. None)"
  by (rule Limiter_refines_keyed [of _ _ _ 0])
     (simp_all add: limiter_config_def rounding_id accurate_id)

end
