(* ===== verification/SshServer.thy ===== *)
theory SshServer
  imports TuiUpdate Config Rate
begin

text \<open>
  Package \<^verbatim>\<open>internal/ssh\<close>: who may open a session, and which model it gets. \<open>teaHandler\<close> counts
  sessions in an atomic counter, gives each accepted session its dependencies and a hook that
  releases its place once, and picks the suspension notice, the main model or the registration form.
  The transport (wish and the ssh library) is what calls the two callbacks.
\<close>

section \<open>Addresses\<close>

text \<open>\<open>net.SplitHostPort\<close>; \<open>None\<close> is its error. \<open>last_index\<close> and \<open>first_index\<close> are the byte searches.\<close>

fun first_index :: "char \<Rightarrow> string \<Rightarrow> nat option" where
  "first_index c [] = None"
| "first_index c (x # xs) = (if x = c then Some 0 else map_option Suc (first_index c xs))"

fun last_index :: "char \<Rightarrow> string \<Rightarrow> nat option" where
  "last_index c [] = None"
| "last_index c (x # xs) =
     (case last_index c xs of Some i \<Rightarrow> Some (Suc i) | None \<Rightarrow> if x = c then Some 0 else None)"

definition SplitHostPort :: "string \<Rightarrow> (string \<times> string) option" where
  "SplitHostPort hp =
     (case last_index CHR '':'' hp of
        None \<Rightarrow> None
      | Some i \<Rightarrow>
          let hostpart =
            (if hp ! 0 = CHR ''['' then
               (case first_index CHR '']'' hp of
                  None \<Rightarrow> None
                | Some e \<Rightarrow> if e + 1 = i then Some (take (e - 1) (drop 1 hp), 1, e + 1) else None)
             else if CHR '':'' \<in> set (take i hp) then None
             else Some (take i hp, 0, 0))
          in case hostpart of
               None \<Rightarrow> None
             | Some (host, j, k) \<Rightarrow>
                 if CHR ''['' \<in> set (drop j hp) \<or> CHR '']'' \<in> set (drop k hp) then None
                 else Some (host, drop (i + 1) hp))"

text \<open>The address is an interface that may be nil, read through its \<open>String\<close>.\<close>

definition remoteIP :: "string option \<Rightarrow> string" where
  "remoteIP addr =
     (case addr of
        None \<Rightarrow> []
      | Some a \<Rightarrow> (case SplitHostPort a of Some (host, _) \<Rightarrow> host | None \<Rightarrow> a))"

section \<open>The server\<close>

record Server =
  sv_cfg :: Config
  sv_sessions :: int
  sv_connRate :: Limiter
  sv_msgRate :: Limiter
  sv_world :: world

definition NewServer :: "Config \<Rightarrow> world \<Rightarrow> Server" where
  "NewServer cfg w = \<lparr>sv_cfg = cfg, sv_sessions = 0, sv_connRate = NewLimiter 20 (60 * 10 ^ 9),
     sv_msgRate = NewLimiter (RateMsgPer10s cfg) (10 * 10 ^ 9), sv_world = w\<rparr>"

text \<open>What the handler reads of an \<open>ssh.Session\<close>; \<open>sn_pty\<close> is the window when a PTY is active.\<close>

record Session =
  sn_pty :: "(int \<times> int) option"
  sn_command :: "string list"
  sn_fingerprint :: "string option"
  sn_pubkey :: "PublicKey option"

text \<open>The public-key callback: the limiter on the address, then the values set on the context. The
  three clock readings are those of \<open>Limiter_Allow\<close>.\<close>

definition public_key_auth ::
  "(rat \<Rightarrow> rat) \<Rightarrow> (nat list \<Rightarrow> nat list) \<Rightarrow> int \<Rightarrow> int \<Rightarrow> int \<Rightarrow> string option \<Rightarrow> PublicKey \<Rightarrow>
   Session \<Rightarrow> Server \<Rightarrow> bool \<times> Session \<times> Server" where
  "public_key_auth fl sha t1 t2 t3 addr key sn s =
     (let ip = remoteIP addr;
          (allowed, l) = Limiter_Allow fl ip t1 t2 t3 (sv_connRate s);
          s = s\<lparr>sv_connRate := l\<rparr>
      in if \<not> allowed then (False, sn, s)
         else (True, sn\<lparr>sn_pubkey := Some key, sn_fingerprint := Some (Fingerprint sha key)\<rparr>, s))"

text \<open>
  What \<open>teaHandler\<close> returns: no model, with what it prints and exit status 1, or the model, the key of
  its rate hook and its release hook, not called yet.
\<close>

datatype outcome =
  Refused string
| Accepted session string

definition refuse :: "string \<Rightarrow> Server \<Rightarrow> (crash + outcome) \<times> Server" where
  "refuse text s = (Inr (Refused text), s\<lparr>sv_sessions := sv_sessions s - 1\<rparr>)"

definition pick_model :: "Deps \<Rightarrow> User option \<Rightarrow> session" where
  "pick_model d known =
     (case known of
        None \<Rightarrow> RegisterSession (NewRegisterModel d)
      | Some user \<Rightarrow>
          if User_IsSuspended user then SuspendedSession (NewSuspendedModel user d)
          else AppSession (NewAppModel d user))"

definition rate_key :: "string \<Rightarrow> User option \<Rightarrow> string" where
  "rate_key fp known = (case known of None \<Rightarrow> fp | Some user \<Rightarrow> ''u:'' @ show_int (User_ID user))"

definition teaHandler :: "ext \<Rightarrow> Session \<Rightarrow> (Server, crash, outcome) act" where
  "teaHandler X sn s0 =
     (let s = s0\<lparr>sv_sessions := sv_sessions s0 + 1\<rparr>; cur = sv_sessions s in
      if cur > MaxSessions (sv_cfg s) then refuse ''server is at capacity, please try again later'' s
      else case sn_pty sn of
        None \<Rightarrow> refuse ''this server requires a PTY (use a terminal SSH client)'' s
      | Some (width, height) \<Rightarrow>
          if sn_command sn \<noteq> [] then refuse ''exec not supported; this server is interactive-only'' s
          else
            let fp = (case sn_fingerprint sn of None \<Rightarrow> [] | Some f \<Rightarrow> f) in
            (case sn_pubkey sn of
               None \<Rightarrow> refuse [] s
             | Some pkey \<Rightarrow>
                 if fp = [] then refuse [] s
                 else
                   let (r, w) = UserByFingerprint fp (sv_world s);
                       known = (case r of Inl _ \<Rightarrow> None | Inr user \<Rightarrow> Some user);
                       w = (case known of None \<Rightarrow> w | Some user \<Rightarrow> snd (TouchLastSeen (User_ID user) w));
                       s = s\<lparr>sv_world := w\<rparr>
                   in case ShortFingerprint (x_lower X) (x_sha256 X) pkey of
                        None \<Rightarrow> (Inl OutOfRange, s)
                      | Some short \<Rightarrow>
                          let deps = \<lparr>Deps_Fingerprint = fp,
                                Deps_PublicKey = AuthorizedKey (x_marshal_key X) pkey, Deps_ShortFP = short,
                                Deps_DefaultRoom = DefaultRoom (sv_cfg s), Deps_RateMsg = True,
                                Deps_Width = width, Deps_Height = height, Deps_Done = True,
                                Deps_OnDisconnect = True\<rparr>
                          in (Inr (Accepted (pick_model deps known) (rate_key fp known)), s)))"

text \<open>The rate hook: \<open>s.msgRate.Allow(rateKey)\<close>.\<close>

definition msgAllow :: "(rat \<Rightarrow> rat) \<Rightarrow> string \<Rightarrow> int \<Rightarrow> int \<Rightarrow> int \<Rightarrow> Server \<Rightarrow> bool \<times> Server" where
  "msgAllow fl key t1 t2 t3 s =
     (let (r, l) = Limiter_Allow fl key t1 t2 t3 (sv_msgRate s) in (r, s\<lparr>sv_msgRate := l\<rparr>))"

text \<open>The release hook: \<open>cleanupOnce\<close> remembers whether it ran.\<close>

definition release_place :: "bool \<times> Server \<Rightarrow> bool \<times> Server" where
  "release_place p = (case p of (once, s) \<Rightarrow> if once then (once, s) else (True, s\<lparr>sv_sessions := sv_sessions s - 1\<rparr>))"

section \<open>Counting sessions concurrently\<close>

text \<open>
  Handlers of several connections run at the same time; what they share is the atomic counter.
  A connection is \<open>Counted\<close> after its \<open>Add(1)\<close> with the value it got, and then refused (its \<open>Add(-1)\<close>
  still to come), or accepted; an accepted session ends, and its hook may be called again and again.
\<close>

datatype phase = Outside | Counted int | Leaving | Live | Released

record gate =
  gt_max :: int
  gt_sessions :: int
  gt_phase :: "nat \<Rightarrow> phase"

definition set_phase :: "nat \<Rightarrow> phase \<Rightarrow> gate \<Rightarrow> gate" where
  "set_phase i p g = g\<lparr>gt_phase := (gt_phase g)(i := p)\<rparr>"

definition add_sessions :: "int \<Rightarrow> gate \<Rightarrow> gate" where
  "add_sessions k g = g\<lparr>gt_sessions := gt_sessions g + k\<rparr>"

text \<open>\<open>later\<close> stands for the checks after the capacity check, which may refuse too.\<close>

inductive gate_step :: "gate \<Rightarrow> gate \<Rightarrow> bool" where
  arrive: "gt_phase g i = Outside \<Longrightarrow>
    gate_step g (set_phase i (Counted (gt_sessions g + 1)) (add_sessions 1 g))"
| over: "gt_phase g i = Counted cur \<Longrightarrow> cur > gt_max g \<Longrightarrow> gate_step g (set_phase i Leaving g)"
| later: "gt_phase g i = Counted cur \<Longrightarrow> \<not> cur > gt_max g \<Longrightarrow> gate_step g (set_phase i Leaving g)"
| accept: "gt_phase g i = Counted cur \<Longrightarrow> \<not> cur > gt_max g \<Longrightarrow> gate_step g (set_phase i Live g)"
| leave: "gt_phase g i = Leaving \<Longrightarrow> gate_step g (set_phase i Outside (add_sessions (- 1) g))"
| hook: "gt_phase g i = Live \<Longrightarrow> gate_step g (set_phase i Released (add_sessions (- 1) g))"
| hook_again: "gt_phase g i = Released \<Longrightarrow> gate_step g g"

definition gate_start :: "int \<Rightarrow> gate" where
  "gate_start n = \<lparr>gt_max = n, gt_sessions = 0, gt_phase = (\<lambda>_. Outside)\<rparr>"

inductive gate_reach :: "int \<Rightarrow> gate \<Rightarrow> bool" for n :: int where
  start: "gate_reach n (gate_start n)"
| step: "gate_reach n g \<Longrightarrow> gate_step g g' \<Longrightarrow> gate_reach n g'"

text \<open>The connections that hold a place in the counter.\<close>

definition holders :: "gate \<Rightarrow> nat set" where
  "holders g = {i. gt_phase g i \<noteq> Outside \<and> gt_phase g i \<noteq> Released}"

end
