(* ===== verification/TuiSession.thy ===== *)
theory TuiSession
  imports TuiDraw SshServer
begin

text \<open>
  One session over the shared store and hub, whichever model it has: \<open>session_inv L\<close> is what holds between its
  handlers (the main model is subscribed, apart from the subscriptions \<open>L\<close> of the others), and \<open>session_post\<close>
  what a handler leaves. The facts on the handlers hold for any knowledge \<open>W\<close> of the database that
  the store's methods keep (locale \<open>session_world\<close>).
\<close>

section \<open>One session\<close>

text \<open>\<open>View\<close> of whichever model the session has.\<close>

definition session_View :: "ext \<Rightarrow> lay \<Rightarrow> (session, string) handler" where
  "session_View X Y = reading ui_model (\<lambda>v.
     case v of
       AppSession m \<Rightarrow> zoom AppSession m (View X Y)
     | RegisterSession m \<Rightarrow> ok (RegisterModel_View X Y m)
     | SuspendedSession _ \<Rightarrow> ok (SuspendedModel_View X))"

definition session_inv :: "(world \<Rightarrow> bool) \<Rightarrow> Sub set \<Rightarrow> session ui \<Rightarrow> bool" where
  "session_inv W L s \<longleftrightarrow> bystanders W L s \<and>
     (case ui_model s of
        AppSession m \<Rightarrow> \<exists>sub. sub \<notin> L \<and> a_hubSub m = Some sub \<and> live (ui_hub s) sub \<and> history_ok m
      | _ \<Rightarrow> True)"

definition session_post :: "(world \<Rightarrow> bool) \<Rightarrow> Sub set \<Rightarrow> cmd \<Rightarrow> session ui \<Rightarrow> bool" where
  "session_post W L c s \<longleftrightarrow> bystanders W L s \<and> (c = QuitCmd \<or> session_inv W L s)"

lemma with_model_id [simp]: "with_model (ui_model s) s = s"
  by (simp add: with_model_def)

lemma hub_clean_model [simp]: "hub_clean (with_model n s) = hub_clean s"
  by (simp add: hub_clean_def)

lemma bystanders_model [simp]: "bystanders W L (with_model n s) = bystanders W L s"
  by (simp add: bystanders_def hub_clean_def)

lemma session_state_with_model:
  "session_state W L q (with_model m s) \<longleftrightarrow>
     bystanders W L s \<and> a_hubSub m = q \<and> (case q of None \<Rightarrow> True | Some sub \<Rightarrow> live (ui_hub s) sub) \<and> history_ok m"
  by (auto simp: session_state_def bystanders_def hub_clean_def attached_def)

lemma session_state_inv:
  "sub \<notin> L \<Longrightarrow> session_state W L (Some sub) s \<Longrightarrow> session_inv W L (with_model (AppSession (ui_model s)) s)"
  by (auto simp: session_state_def session_inv_def bystanders_def hub_clean_def attached_def)

lemma safe_zoom:
  assumes "safe W L P h Q" and "P (with_model m s)"
    and "\<And>a t. Q a t \<Longrightarrow> R a (with_model (AppSession (ui_model t)) t)"
  shows "case zoom AppSession m h s of (Inl e, t) \<Rightarrow> e = BadSlice \<and> bystanders W L t | (Inr a, t) \<Rightarrow> R a t"
  using safeD [OF assms(1,2)] assms(3) by (auto simp: zoom_def split: prod.splits sum.splits)

lemma safe_release: "safe W L (bystanders W L) (release d) (session_post W L)"
  by (simp add: safe_def release_def seq_act_def call_OnDisconnect_def ok_def session_post_def bystanders_def hub_clean_def)

context session_world
begin

text \<open>The registration form: it touches the store, and the hub only through \<open>Init\<close>.\<close>

lemma safe_store:
  assumes "via_methods m"
  shows "safe W L (bystanders W L) (store_op m) (\<lambda>_. bystanders W L)"
  using methods_keep_world [OF via_methodsD [OF assms]]
  by (auto simp: safe_def store_op_def bystanders_def hub_clean_def split: prod.splits)

lemma safe_case_sum:
  "(\<And>e. safe W L P (f e) Q) \<Longrightarrow> (\<And>a. safe W L P (g a) Q) \<Longrightarrow> safe W L P (case r of Inl e \<Rightarrow> f e | Inr a \<Rightarrow> g a) Q"
  by (cases r) simp_all

lemma safe_if: "(b \<Longrightarrow> safe W L P h Q) \<Longrightarrow> (\<not> b \<Longrightarrow> safe W L P k Q) \<Longrightarrow> safe W L P (if b then h else k) Q"
  by simp

lemma safe_reject: "safe W L (bystanders W L) (reject m err) (session_post W L)"
  by (simp add: safe_def reject_def show_register_def seq_act_def modify_def ok_def session_post_def session_inv_def
      bystanders_def hub_clean_def)

lemma safe_show_register: "safe W L (bystanders W L) (next_act (show_register m) (ok EditorCmd)) (session_post W L)"
  by (simp add: safe_def show_register_def seq_act_def modify_def ok_def session_post_def session_inv_def
      bystanders_def hub_clean_def)

lemma safe_join_default: "safe W L (bystanders W L) (join_default_room name uid) (\<lambda>_. bystanders W L)"
  unfolding join_default_room_def
  by (intro safe_seq [OF safe_store] safe_seq [where h = "if _ then _ else _" and Q = "\<lambda>_. bystanders W L"]
      safe_case_sum safe_if safe_store safe_ok via_intros)

lemma safe_start:
  "safe W L (bystanders W L) (zoom AppSession (NewAppModel d u) (Init X)) (session_post W L)"
proof (rule safeI)
  fix s :: "session ui" assume "bystanders W L s"
  then have "session_state W L None (with_model (NewAppModel d u) s)"
    by (simp add: session_state_with_model NewAppModel_def history_ok_def)
  then show "case zoom AppSession (NewAppModel d u) (Init X) s of
      (Inl e, t) \<Rightarrow> e = BadSlice \<and> bystanders W L t | (Inr c, t) \<Rightarrow> session_post W L c t"
    by (rule safe_zoom [OF safe_Init])
       (auto simp: session_post_def dest: session_state_inv, simp add: session_state_def attached_def bystanders_def)
qed

lemma safe_register_enter: "safe W L (bystanders W L) (register_enter X m) (session_post W L)"
  unfolding register_enter_def Let_def
  by (intro safe_if safe_reject safe_seq [OF safe_store] safe_case_sum safe_seq [OF safe_join_default] safe_start via_intros) simp

lemma safe_RegisterModel_Update: "safe W L (bystanders W L) (RegisterModel_Update X msg m) (session_post W L)"
  unfolding RegisterModel_Update_def Let_def
  by (intro safe_if safe_release safe_register_enter safe_show_register)

lemma safe_session_Update:
  assumes "msg_ok msg"
  shows "safe W L (session_inv W L) (session_Update X msg) (session_post W L)"
proof (rule safeI)
  fix s assume s: "session_inv W L s"
  then have b: "bystanders W L s" by (simp add: session_inv_def)
  show "case session_Update X msg s of (Inl e, t) \<Rightarrow> e = BadSlice \<and> bystanders W L t | (Inr c, t) \<Rightarrow> session_post W L c t"
  proof (cases "ui_model s")
    case (AppSession m)
    with s obtain sub where sub: "sub \<notin> L" and st: "session_state W L (Some sub) (with_model m s)"
      by (auto simp: session_inv_def session_state_with_model)
    have up: "safe W L (session_state W L (Some sub)) (Update X msg) (outcome_ok W L sub)"
      using fine_Update [OF assms, of L sub X] sub by (simp add: fine_def)
    have "outcome_ok W L sub c t \<Longrightarrow> session_post W L c (with_model (AppSession (ui_model t)) t)" for c t
      using session_state_inv [OF sub, of W t]
      by (auto simp: outcome_ok_def session_post_def session_state_def attached_def bystanders_def)
    then have "case zoom AppSession m (Update X msg) s of (Inl e, t) \<Rightarrow> e = BadSlice \<and> bystanders W L t
        | (Inr c, t) \<Rightarrow> session_post W L c t"
      by (rule safe_zoom [OF up st])
    then show ?thesis by (simp add: session_Update_def reading_def AppSession)
  next
    case (RegisterSession m)
    then show ?thesis
      using safeD [OF safe_RegisterModel_Update b] by (simp add: session_Update_def reading_def)
  next
    case (SuspendedSession m)
    have "session_post W L NoCmd s" using s by (simp add: session_post_def session_inv_def)
    then show ?thesis
      using SuspendedSession safeD [OF safe_release b]
      by (cases msg) (simp_all add: session_Update_def reading_def SuspendedModel_Update_def ok_def)
  qed
qed

lemma safe_session_View: "safe W L (session_inv W L) (session_View X Y) (\<lambda>_. session_inv W L)"
proof (rule safeI)
  fix s assume s: "session_inv W L s"
  show "case session_View X Y s of (Inl e, t) \<Rightarrow> e = BadSlice \<and> bystanders W L t | (Inr c, t) \<Rightarrow> session_inv W L t"
  proof (cases "ui_model s")
    case (AppSession m)
    with s obtain sub where sub: "sub \<notin> L" and st: "session_state W L (Some sub) (with_model m s)"
      by (auto simp: session_inv_def session_state_with_model)
    have "case zoom AppSession m (View X Y) s of (Inl e, t) \<Rightarrow> e = BadSlice \<and> bystanders W L t
        | (Inr c, t) \<Rightarrow> session_inv W L t"
      by (rule safe_zoom [OF steady_View [of L "Some sub", unfolded steady_def] st]) (rule session_state_inv [OF sub])
    then show ?thesis by (simp add: session_View_def reading_def AppSession)
  qed (use s in \<open>simp_all add: session_View_def reading_def ok_def\<close>)
qed

lemma safe_session_Init:
  assumes "bystanders W L s" and "ui_model s = pick_model d known"
  shows "case session_Init X s of (Inl e, t) \<Rightarrow> e = BadSlice \<and> bystanders W L t | (Inr c, t) \<Rightarrow> session_post W L c t"
proof (cases known)
  case (Some u)
  then show ?thesis
    using assms safeD [OF safe_start assms(1), of d u X]
    by (auto simp: session_Init_def reading_def pick_model_def ok_def session_post_def session_inv_def)
next
  case None
  then show ?thesis
    using assms by (simp add: session_Init_def reading_def pick_model_def ok_def session_post_def session_inv_def)
qed

end

end
