(* ===== verification/AdminCmd.thy ===== *)
theory AdminCmd
  imports TuiState
begin

text \<open>
  The command \<^verbatim>\<open>cmd/tsocial-admin\<close>: \<open>main\<close> after the database is open, as an action on the store that
  ends with an exit status and what is printed on standard output. The texts on standard error are not
  modelled. \<open>flag_int\<close> is package flag's reading of an integer value.
\<close>

record exit =
  ex_code :: int
  ex_out :: string

definition exit_with :: "int \<Rightarrow> string \<Rightarrow> exit io" where
  "exit_with code out = ok \<lparr>ex_code = code, ex_out = out\<rparr>"

text \<open>\<open>need\<close> and \<open>check\<close> leave the program with status 2 and 1.\<close>

definition need :: "string list \<Rightarrow> nat \<Rightarrow> exit io \<Rightarrow> exit io" where
  "need args n k = (if length args < n then exit_with 2 [] else k)"

definition check :: "'a io \<Rightarrow> ('a \<Rightarrow> exit io) \<Rightarrow> exit io" where
  "check m k = seq_act (attempt m) (\<lambda>r. case r of Inl _ \<Rightarrow> exit_with 1 [] | Inr a \<Rightarrow> k a)"

definition newline :: string where
  "newline = [char_of (10::nat)]"

text \<open>
  \<open>FlagSet.Parse\<close> with the one flag of \<open>prune-deleted\<close>, from the value it has: the days, or the status
  the program exits with (0 for help, 2 for an error).
\<close>

definition split_eq :: "string \<Rightarrow> string \<times> string option" where
  "split_eq s = (case index_of (tl s) ''='' of
     None \<Rightarrow> (s, None)
   | Some i \<Rightarrow> (take (i + 1) s, Some (drop (i + 2) s)))"

fun parse_prune :: "(string \<Rightarrow> int option) \<Rightarrow> string list \<Rightarrow> int \<Rightarrow> int + int" where
  "parse_prune flag_int [] days = Inr days"
| "parse_prune flag_int (a # args) days =
     (if length a < 2 \<or> a ! 0 \<noteq> CHR ''-'' then Inr days
      else if a = ''--'' then Inr days
      else
        let body = (if a ! 1 = CHR ''-'' then drop 2 a else drop 1 a) in
        if body = [] \<or> body ! 0 = CHR ''-'' \<or> body ! 0 = CHR ''='' then Inl 2
        else
          (case split_eq body of (name, has_value) \<Rightarrow>
             if name \<noteq> ''older-than-days'' then Inl (if name = ''help'' \<or> name = ''h'' then 0 else 2)
             else case has_value of
               Some v \<Rightarrow> (case flag_int v of None \<Rightarrow> Inl 2 | Some n \<Rightarrow> parse_prune flag_int args n)
             | None \<Rightarrow> (case args of
                   [] \<Rightarrow> Inl 2
                 | v # rest \<Rightarrow> (case flag_int v of None \<Rightarrow> Inl 2 | Some n \<Rightarrow> parse_prune flag_int rest n))))"

text \<open>
  \<^verbatim>\<open>time.Duration(days) * 24 * time.Hour\<close> in \<open>int64\<close> nanoseconds, which wraps around; \<open>wrap64\<close> is the
  value of the low 64 bits. The store's clock has whole seconds: a duration that is none counts as
  the next one up.
\<close>

definition wrap64 :: "int \<Rightarrow> int" where
  "wrap64 x = (x + 2 ^ 63) mod 2 ^ 64 - 2 ^ 63"

definition days_duration :: "int \<Rightarrow> int" where
  "days_duration days = wrap64 (wrap64 (days * 24) * (3600 * 10 ^ 9))"

definition seconds_up :: "int \<Rightarrow> int" where
  "seconds_up ns = - ((- ns) div 10 ^ 9)"

text \<open>\<^verbatim>\<open>fmt.Println("ok")\<close> after the checks.\<close>

definition done_ok :: "exit io" where
  "done_ok = exit_with 0 (''ok'' @ newline)"

definition admin :: "(string \<Rightarrow> int option) \<Rightarrow> string list \<Rightarrow> exit io" where
  "admin flag_int os_args =
     (case os_args of
        _ # cmd # args \<Rightarrow>
          if cmd = ''make-admin'' then need args 1 (check (SetAdmin (args ! 0) True) (\<lambda>_. done_ok))
          else if cmd = ''unmake-admin'' then need args 1 (check (SetAdmin (args ! 0) False) (\<lambda>_. done_ok))
          else if cmd = ''suspend'' then need args 1 (check (SetSuspended (args ! 0) True) (\<lambda>_. done_ok))
          else if cmd = ''unsuspend'' then need args 1 (check (SetSuspended (args ! 0) False) (\<lambda>_. done_ok))
          else if cmd = ''delete-room'' then
            need args 1 (check (RoomByName (args ! 0)) (\<lambda>r. check (DeleteRoom (Room_ID r)) (\<lambda>_. done_ok)))
          else if cmd = ''prune-deleted'' then
            (case parse_prune flag_int args 30 of
               Inl code \<Rightarrow> exit_with code []
             | Inr days \<Rightarrow> check (PurgeDeletedOlderThan (seconds_up (days_duration days)))
                 (\<lambda>n. exit_with 0 (''purged '' @ show_int n @ '' messages'' @ newline)))
          else if cmd = ''stats'' then
            check Store_Stats (\<lambda>s. exit_with 0 (''users='' @ show_int (int (Stats_Users s)) @ '' rooms=''
              @ show_int (int (Stats_Rooms s)) @ '' messages='' @ show_int (int (Stats_Messages s)) @ newline))
          else exit_with 2 []
      | _ \<Rightarrow> exit_with 2 [])"

end
