(* ===== verification/TuiProcess.thy ===== *)
theory TuiProcess
  imports TuiSession AdminCmd
begin

text \<open>
  The process: any number of sessions over one store and one hub, each running its handlers one
  message at a time, in any interleaving, with connections opening and closing. The sessions are a
  map from connection numbers; \<open>process_step\<close> is one connection that \<open>teaHandler\<close> decides on, one handler, one
  drawing, one receive, one run of the admin command, or a change of the clock and of the coming
  faults. No handler panics, but for the slices of \<open>highlightMentions\<close>; a session whose program panicked is gone
  without having left the hub. Whatever happens, the database went through a run of the store's methods.
\<close>

section \<open>The store's other clients\<close>

lemma via_check [via_intros]: "via_methods m \<Longrightarrow> (\<And>a. via_methods (k a)) \<Longrightarrow> via_methods (check m k)"
  unfolding check_def exit_with_def by (intro via_intros)

lemma via_admin: "via_methods (admin flag_int args)"
proof (cases args)
  case (Cons prog rest)
  then show ?thesis
    unfolding admin_def need_def done_ok_def exit_with_def
    by (cases rest) (auto intro!: via_intros split: sum.split)
qed (simp add: admin_def exit_with_def via_ok)

text \<open>Deciding on a connection: two calls of the store, and one of three models.\<close>

lemma teaHandler_store: "teaHandler X sn sv = (r, sv') \<Longrightarrow> client_step\<^sup>*\<^sup>* (sv_world sv) (sv_world sv')"
proof -
  assume run: "teaHandler X sn sv = (r, sv')"
  let ?fp = "case sn_fingerprint sn of None \<Rightarrow> [] | Some f \<Rightarrow> f"
  obtain q w where q: "UserByFingerprint ?fp (sv_world sv) = (q, w)" by force
  then have w: "client_step\<^sup>*\<^sup>* (sv_world sv) w" by (rule via_methodsD [OF via_reads(1)])
  have touch: "client_step\<^sup>*\<^sup>* w (snd (TouchLastSeen i w))" for i
    using via_writes(3) by (simp add: via_methods_def)
  show ?thesis
    using run q w
    by (auto simp: teaHandler_def refuse_def Let_def split: if_splits option.splits sum.splits
        intro!: rtranclp_trans [OF w touch])
qed

lemma teaHandler_accepts:
  assumes "teaHandler X sn sv = (Inr (Accepted v key), sv')"
  obtains d known where "v = pick_model d known"
  using assms by (auto simp: teaHandler_def refuse_def Let_def split: if_splits option.splits prod.splits)

lemma toHex_ascii: "\<forall>b \<in> set bs. b < 256 \<Longrightarrow> ascii (toHex bs)"
proof (induction bs)
  case (Cons b bs)
  have digit: "n < 16 \<Longrightarrow> (of_char (hexDigits ! n) :: nat) < 128" for n
    using nth_mem [of n hexDigits] by (auto simp: hexDigits_def)
  from Cons show ?case using digit [of "b div 16"] digit [of "b mod 16"] by simp
qed simp

lemma ShortFingerprint_total:
  assumes "digest32 (x_sha256 X)"
  obtains short where "ShortFingerprint (x_lower X) (x_sha256 X) key = Some short"
proof -
  let ?hex = "toHex (x_sha256 X (Marshal key))"
  have "ascii ?hex" "length ?hex = 64" using assms by (auto simp: digest32_def length_toHex intro: toHex_ascii)
  then show thesis using that by (simp add: ShortFingerprint_def to_lower_ascii)
qed

section \<open>Any number of sessions\<close>

type_synonym process = "(nat \<Rightarrow> session option) ui"

definition set_session :: "nat \<Rightarrow> session option \<Rightarrow> process \<Rightarrow> 'm ui \<Rightarrow> process" where
  "set_session i v p s = with_model ((ui_model p)(i := v)) s"

inductive process_step :: "ext \<Rightarrow> process \<Rightarrow> process \<Rightarrow> bool" for X :: ext where
  connect: "ui_model p i = None \<Longrightarrow> sv_world sv = ui_world p \<Longrightarrow> teaHandler X sn sv = (Inr (Accepted v key), sv') \<Longrightarrow>
    session_Init X (with_model v (p\<lparr>ui_world := sv_world sv'\<rparr>)) = (Inr c, t) \<Longrightarrow>
    process_step X p (set_session i (Some (ui_model t)) p t)"
| connect_panics: "ui_model p i = None \<Longrightarrow> sv_world sv = ui_world p \<Longrightarrow> teaHandler X sn sv = (Inr (Accepted v key), sv') \<Longrightarrow>
    session_Init X (with_model v (p\<lparr>ui_world := sv_world sv'\<rparr>)) = (Inl e, t) \<Longrightarrow> process_step X p (set_session i None p t)"
| refused: "sv_world sv = ui_world p \<Longrightarrow> teaHandler X sn sv = (Inr (Refused said), sv') \<Longrightarrow>
    process_step X p (p\<lparr>ui_world := sv_world sv'\<rparr>)"
| handle: "ui_model p i = Some v \<Longrightarrow> msg_ok msg \<Longrightarrow> session_Update X msg (with_model v p) = (Inr c, t) \<Longrightarrow>
    c \<noteq> QuitCmd \<Longrightarrow> process_step X p (set_session i (Some (ui_model t)) p t)"
| quits: "ui_model p i = Some v \<Longrightarrow> msg_ok msg \<Longrightarrow> session_Update X msg (with_model v p) = (Inr QuitCmd, t) \<Longrightarrow>
    process_step X p (set_session i None p t)"
| panics: "ui_model p i = Some v \<Longrightarrow> msg_ok msg \<Longrightarrow> session_Update X msg (with_model v p) = (Inl e, t) \<Longrightarrow>
    process_step X p (set_session i None p t)"
| draws: "ui_model p i = Some v \<Longrightarrow> session_View X Y (with_model v p) = (Inr shown, t) \<Longrightarrow>
    process_step X p (set_session i (Some (ui_model t)) p t)"
| draw_panics: "ui_model p i = Some v \<Longrightarrow> session_View X Y (with_model v p) = (Inl e, t) \<Longrightarrow>
    process_step X p (set_session i None p t)"
| receives: "process_step X p (p\<lparr>ui_hub := receive sub (ui_hub p)\<rparr>)"
| admin_runs: "admin flag_int args (ui_world p) = (r, w) \<Longrightarrow> process_step X p (p\<lparr>ui_world := w\<rparr>)"
| environment: "process_step X p (p\<lparr>ui_world := (ui_world p)\<lparr>w_clock := now, w_faults := fs\<rparr>, ui_rate := rs\<rparr>)"

definition process_start :: "world \<Rightarrow> process" where
  "process_start w = \<lparr>ui_model = (\<lambda>_. None), ui_world = w, ui_hub = NewHub, ui_nil = [], ui_rate = [], ui_released = 0\<rparr>"

inductive process_reach :: "ext \<Rightarrow> world \<Rightarrow> process \<Rightarrow> bool" for X :: ext and w0 :: world where
  start: "process_reach X w0 (process_start w0)"
| step: "process_reach X w0 p \<Longrightarrow> process_step X p p' \<Longrightarrow> process_reach X w0 p'"

text \<open>The subscriptions the sessions hold, but for one of them.\<close>

definition held_by :: "(nat \<Rightarrow> session option) \<Rightarrow> nat \<Rightarrow> Sub \<Rightarrow> bool" where
  "held_by ss j sub \<longleftrightarrow> (\<exists>m. ss j = Some (AppSession m) \<and> a_hubSub m = Some sub)"

definition others_of :: "(nat \<Rightarrow> session option) \<Rightarrow> nat \<Rightarrow> Sub set" where
  "others_of ss i = {sub. \<exists>j. j \<noteq> i \<and> held_by ss j sub}"

definition process_ok :: "(world \<Rightarrow> bool) \<Rightarrow> process \<Rightarrow> bool" where
  "process_ok W p \<longleftrightarrow> hub_clean p \<and> W (ui_world p) \<and>
     (\<forall>i v. ui_model p i = Some v \<longrightarrow> session_inv W (others_of (ui_model p) i) (with_model v p))"

lemma others_of_upd [simp]: "others_of (ss(i := v)) i = others_of ss i"
  by (auto simp: others_of_def held_by_def)

lemma process_ok_bystanders:
  assumes "process_ok W p"
  shows "bystanders W (others_of (ui_model p) i) p"
proof -
  have "live (ui_hub p) sub" if held: "held_by (ui_model p) j sub" for j sub
  proof -
    from held obtain m where "ui_model p j = Some (AppSession m)" "a_hubSub m = Some sub" by (auto simp: held_by_def)
    moreover from assms this(1) have "session_inv W (others_of (ui_model p) j) (with_model (AppSession m) p)"
      by (simp add: process_ok_def)
    ultimately show ?thesis by (auto simp: session_inv_def)
  qed
  with assms show ?thesis by (auto simp: bystanders_def process_ok_def others_of_def)
qed

text \<open>The step of one session, seen from all of them.\<close>

lemma process_ok_set:
  assumes p: "process_ok W p" and b: "bystanders W (others_of (ui_model p) i) t"
    and v: "\<And>x. v = Some x \<Longrightarrow> session_inv W (others_of (ui_model p) i) (with_model x t)"
  shows "process_ok W (set_session i v p t)"
proof -
  let ?ss = "(ui_model p)(i := v)" and ?L = "others_of (ui_model p) i"
  have "session_inv W (others_of ?ss j) (with_model y t)" if y: "?ss j = Some y" for j y
  proof (cases "j = i")
    case True
    with y v show ?thesis by simp
  next
    case False
    with y p have old: "session_inv W (others_of (ui_model p) j) (with_model y p)" by (simp add: process_ok_def)
    have new: "live (ui_hub t) x \<and> x \<notin> ?L" if held: "v = Some (AppSession m)" "a_hubSub m = Some x" for m x
      using v [OF held(1)] held(2) by (auto simp: session_inv_def)
    have "live (ui_hub t) x" if "x \<in> others_of ?ss j" for x
    proof -
      from that obtain k where k: "k \<noteq> j" "held_by ?ss k x" by (auto simp: others_of_def)
      show ?thesis
      proof (cases "k = i")
        case True
        with k new show ?thesis by (auto simp: held_by_def)
      next
        case False
        with k have "x \<in> ?L" by (auto simp: others_of_def held_by_def)
        with b show ?thesis by (simp add: bystanders_def)
      qed
    qed
    then have by': "bystanders W (others_of ?ss j) (with_model y t)" using b by (simp add: bystanders_def)
    show ?thesis
    proof (cases y)
      case (AppSession m)
      with old obtain sub where sub: "sub \<notin> others_of (ui_model p) j" "a_hubSub m = Some sub" "history_ok m"
        by (auto simp: session_inv_def)
      have "held_by (ui_model p) j sub" using y False AppSession sub by (simp add: held_by_def)
      then have L: "sub \<in> ?L" using False by (auto simp: others_of_def)
      with b have "live (ui_hub t) sub" by (simp add: bystanders_def)
      moreover have "sub \<notin> others_of ?ss j"
      proof
        assume "sub \<in> others_of ?ss j"
        then obtain k where k: "k \<noteq> j" "held_by ?ss k sub" by (auto simp: others_of_def)
        show False
        proof (cases "k = i")
          case True
          with k new L show False by (auto simp: held_by_def)
        next
          case False
          with k sub(1) show False by (auto simp: others_of_def held_by_def)
        qed
      qed
      ultimately show ?thesis using by' sub by (simp add: session_inv_def AppSession)
    qed (use by' in \<open>simp_all add: session_inv_def\<close>)
  qed
  with b show ?thesis by (auto simp: process_ok_def set_session_def bystanders_def)
qed

lemma Init_no_quit:
  assumes "session_Init X (with_model (pick_model d known) p) = (Inr c, t)"
  shows "c \<noteq> QuitCmd"
proof (cases known)
  case (Some u)
  then show ?thesis
    using assms
    by (auto simp: pick_model_def session_Init_def reading_def ok_def registerDisconnectCmd_def zoom_def Init_def
        elim!: seq_actE split: if_splits prod.splits)
qed (use assms in \<open>auto simp: pick_model_def session_Init_def reading_def ok_def RegisterModel_Init_def\<close>)

lemma live_same_users: "h_users h' = h_users h \<Longrightarrow> live h' = live h"
  by (simp add: live_def fun_eq_iff)

lemma session_inv_frame:
  assumes "session_inv W L (with_model v s)" and "hub_clean s'" and "h_users (ui_hub s') = h_users (ui_hub s)"
    and "W (ui_world s')"
  shows "session_inv W L (with_model v s')"
  using assms live_same_users [OF assms(3)]
  by (cases v) (simp_all add: session_inv_def bystanders_def)

lemma process_ok_frame:
  assumes "process_ok W p" and "hub_clean p'" and "h_users (ui_hub p') = h_users (ui_hub p)"
    and "ui_model p' = ui_model p" and "W (ui_world p')"
  shows "process_ok W p'"
  using assms by (auto simp: process_ok_def intro: session_inv_frame [where W = W and s' = p' and s = p])

context session_world
begin

text \<open>What one session's handler does from an invariant state.\<close>

lemma process_ok_handler:
  assumes "process_ok W p" and "ui_model p i = Some v" and "msg_ok msg"
  shows "case session_Update X msg (with_model v p) of
     (Inl e, t) \<Rightarrow> e = BadSlice \<and> bystanders W (others_of (ui_model p) i) t
   | (Inr c, t) \<Rightarrow> session_post W (others_of (ui_model p) i) c t"
  using assms by (intro safeD [OF safe_session_Update]) (simp_all add: process_ok_def)

lemma process_ok_drawing:
  assumes "process_ok W p" and "ui_model p i = Some v"
  shows "case session_View X Y (with_model v p) of
     (Inl e, t) \<Rightarrow> e = BadSlice \<and> bystanders W (others_of (ui_model p) i) t
   | (Inr c, t) \<Rightarrow> session_inv W (others_of (ui_model p) i) t"
  using assms by (intro safeD [OF safe_session_View]) (simp_all add: process_ok_def)

lemma process_ok_connect:
  assumes "process_ok W p" and "sv_world sv = ui_world p" and "teaHandler X sn sv = (Inr (Accepted v key), sv')"
  shows "case session_Init X (with_model v (p\<lparr>ui_world := sv_world sv'\<rparr>)) of
     (Inl e, t) \<Rightarrow> e = BadSlice \<and> bystanders W (others_of (ui_model p) i) t
   | (Inr c, t) \<Rightarrow> session_post W (others_of (ui_model p) i) c t"
proof -
  obtain d known where v: "v = pick_model d known" using assms(3) by (rule teaHandler_accepts)
  have b: "bystanders W (others_of (ui_model p) i) p" using assms(1) by (rule process_ok_bystanders)
  then have "W (sv_world sv')"
    using methods_keep_world [OF teaHandler_store [OF assms(3)]] assms(2) by (simp add: bystanders_def)
  with b have "bystanders W (others_of (ui_model p) i) (with_model v (p\<lparr>ui_world := sv_world sv'\<rparr>))"
    by (simp add: bystanders_def hub_clean_def)
  then show ?thesis using v by (intro safe_session_Init) simp_all
qed

text \<open>A step that changes only the store.\<close>

lemma process_ok_store:
  assumes "process_ok W p" and "client_step\<^sup>*\<^sup>* (ui_world p) w"
  shows "process_ok W (p\<lparr>ui_world := w, ui_rate := rs\<rparr>)"
proof -
  have "W w" using methods_keep_world [OF assms(2)] assms(1) by (simp add: process_ok_def)
  with assms(1) show ?thesis
    by (intro process_ok_frame [OF assms(1)]) (simp_all add: process_ok_def hub_clean_def)
qed

lemma process_step_ok:
  assumes "process_step X p p'" and "process_ok W p"
  shows "process_ok W p'"
  using assms
proof (induction rule: process_step.induct)
  case (connect p i sv sn v key sv' c t)
  have "c \<noteq> QuitCmd" using connect(3,4) by (auto elim!: teaHandler_accepts dest: Init_no_quit)
  then show ?case
    using process_ok_connect [OF connect(5,2,3), of i] connect(4,5)
    by (intro process_ok_set) (auto simp: session_post_def)
next
  case (connect_panics p i sv sn v key sv' e t)
  then show ?case using process_ok_connect [OF connect_panics(5,2,3), of i] by (intro process_ok_set) auto
next
  case (refused sv p sn said sv')
  then show ?case
    using process_ok_store [OF refused(3), of "sv_world sv'" "ui_rate p"] teaHandler_store [OF refused(2)] by simp
next
  case (handle p i v msg c t)
  then show ?case
    using process_ok_handler [of p i v msg X] by (intro process_ok_set) (auto simp: session_post_def)
next
  case (quits p i v msg t)
  then show ?case
    using process_ok_handler [of p i v msg X] by (intro process_ok_set) (auto simp: session_post_def)
next
  case (panics p i v msg e t)
  then show ?case using process_ok_handler [of p i v msg X] by (intro process_ok_set) auto
next
  case (draws p i v Y shown t)
  then have "session_inv W (others_of (ui_model p) i) t" using process_ok_drawing [of p i v X Y] by auto
  moreover from this have "bystanders W (others_of (ui_model p) i) t" by (simp add: session_inv_def)
  ultimately show ?case using draws by (intro process_ok_set) auto
next
  case (draw_panics p i v Y e t)
  then show ?case using process_ok_drawing [of p i v X Y] by (intro process_ok_set) auto
next
  case (receives p sub)
  then have "hub_clean (p\<lparr>ui_hub := receive sub (ui_hub p)\<rparr>)" "W (ui_world p)"
    using receive_ok [of "ui_hub p" sub] by (simp_all add: process_ok_def hub_clean_def)
  then show ?case by (intro process_ok_frame [OF receives]) (simp_all add: receive_def Let_def)
next
  case (admin_runs args_int args p r w)
  then show ?case
    using process_ok_store [of p w "ui_rate p"] via_methodsD [OF via_admin admin_runs(1)] by simp
next
  case (environment p now fs rs)
  then show ?case by (rule process_ok_store) (rule r_into_rtranclp, rule env_client_step)
qed

lemma process_reach_ok: "process_reach X w p \<Longrightarrow> W w \<Longrightarrow> process_ok W p"
proof (induction rule: process_reach.induct)
  case start
  then show ?case by (simp add: process_ok_def process_start_def hub_clean_def NewHub_ok)
qed (blast intro: process_step_ok)

end


interpretation typed: session_world data_ok
  by unfold_locales (rule client_keeps_data)

interpretation traced: session_world "client_step\<^sup>*\<^sup>* w0" for w0
  by unfold_locales (rule rtranclp.rtrancl_into_rtrancl)



text \<open>A process with one session of the main model, over an empty database.\<close>

definition plain_ext :: ext where
  "plain_ext = \<lparr>x_lower = id, x_fold = (=), x_style = (\<lambda>_ t. t), x_time = (\<lambda>_ _. []), x_error = (\<lambda>_. ''error''),
     x_fts = (\<lambda>_. None), x_edit = (\<lambda>_ c. c), x_input = (\<lambda>_ c. c), x_set = id, x_parse_key = (\<lambda>_. Inl ''bad key''),
     x_marshal_key = (\<lambda>_. []), x_sha256 = (\<lambda>_. replicate 32 0)\<rparr>"

definition plain_deps :: Deps where
  "plain_deps = \<lparr>Deps_Fingerprint = ''SHA256:x'', Deps_PublicKey = ''ssh-ed25519 x'', Deps_ShortFP = ''00000000'',
     Deps_DefaultRoom = ''general'', Deps_RateMsg = True, Deps_Width = 100, Deps_Height = 40, Deps_Done = True,
     Deps_OnDisconnect = True\<rparr>"

definition plain_user :: User where
  "plain_user = \<lparr>User_ID = 1, User_Handle = ''ada'', User_DisplayName = [], User_Bio = [], User_Pronouns = [],
     User_IsAdmin = False, User_IsSuspended = False, User_CreatedAt = 0, User_LastSeenAt = None\<rparr>"

definition quiet_world :: "database \<Rightarrow> world" where
  "quiet_world d = \<lparr>w_db = d, w_tx = None, w_clock = 0, w_faults = []\<rparr>"

text \<open>A server of at most one session, and the connection of a registered user.\<close>

definition ada_world :: world where
  "ada_world = quiet_world (empty_db\<lparr>
     users := [\<lparr>u_id = 4, u_handle = ''ada'', u_display_name = [], u_bio = [], u_pronouns = [], u_is_admin = 0,
       u_is_suspended = 0, u_created_at = 0, u_last_seen_at = None\<rparr>],
     user_keys := [\<lparr>k_id = 1, k_user_id = 4, k_fingerprint = ''SHA256:x'', k_public_key = [], k_label = [], k_added_at = 0\<rparr>]\<rparr>)"

definition one_server :: Server where
  "one_server = NewServer ((env_config (\<lambda>_. None))\<lparr>MaxSessions := 1\<rparr>) ada_world"

definition ada_session :: Session where
  "ada_session = \<lparr>sn_pty = Some (100, 40), sn_command = [], sn_fingerprint = Some ''SHA256:x'', sn_pubkey = Some (PublicKey [1])\<rparr>"

text \<open>\<open>ada\<close> connects: the main model, after the store noted the time.\<close>

lemma ada_connects:
  assumes "w_faults w = []" and "users (w_db w) = users (w_db ada_world)" and "user_keys (w_db w) = user_keys (w_db ada_world)"
  obtains dp sv where "teaHandler plain_ext ada_session (one_server\<lparr>sv_world := w\<rparr>) =
      (Inr (Accepted (AppSession (NewAppModel dp (scanUser (hd (users (w_db ada_world)))))) ''u:4''), sv)"
    and "sv_world sv = snd (TouchLastSeen 4 w)"
proof -
  have "digest32 (x_sha256 plain_ext)" by (simp add: plain_ext_def digest32_def)
  then obtain short where "ShortFingerprint (x_lower plain_ext) (x_sha256 plain_ext) (PublicKey [1]) = Some short"
    by (rule ShortFingerprint_total)
  moreover have "UserByFingerprint ''SHA256:x'' w = (Inr (scanUser (hd (users (w_db ada_world)))), w)"
    using assms
    by (simp add: UserByFingerprint_def query_row_def query_def driver_def seq_act_def ok_def ada_world_def quiet_world_def
        first_row_def)
  moreover have "show_int 4 = ''4''" by (simp add: show_int_def show_nat.simps char_of_def bit_Suc_0_iff)
  ultimately show thesis
    using that assms
    by (simp add: teaHandler_def one_server_def NewServer_def ada_session_def pick_model_def rate_key_def
        ada_world_def quiet_world_def scanUser_def Let_def)
qed

lemma ada_quiet: "w_faults ada_world = []"
  by (simp add: ada_world_def quiet_world_def)

lemma Init_without_rooms:
  assumes "w_faults (ui_world s) = []" and "w_db (ui_world s) = d" and "rooms d = []" and "messages d = []"
    and "blocks d = []" and "notifications d = []" and "room_members d = []" and "ui_hub s = NewHub" and "ui_nil s = []"
  shows "is_ok (fst (session_Init X (with_model (AppSession (NewAppModel dp u)) s)))"
  using assms
  by (simp add: session_Init_def reading_def zoom_def Init_def seq_act_def
      refreshRooms_def store_op_def with_model_def NewAppModel_def
      ListUserRooms_def rooms_of_def scanRooms_def attempt_def query_def driver_def modify_def refreshDMPeers_def DMPeers_def dm_groups_def
      order_desc_def ok_def refreshBlocks_def BlockedIDs_def refreshUnread_def UnreadCounts_def
      hub_Subscribe_def nil_free_def hub_op_def Subscribe_def Let_def NewHub_def count_at_def broadcastPresence_def
      OnlineUserIDs_def)

definition joined :: "nat \<Rightarrow> session ui \<Rightarrow> process \<Rightarrow> process" where
  "joined i t p = set_session i (Some (ui_model t)) p t"

text \<open>The process with ada's session.\<close>

lemma ada_joined:
  obtains t where "process_reach plain_ext ada_world (joined 0 t (process_start ada_world))"
proof -
  let ?p = "process_start ada_world"
  have "one_server\<lparr>sv_world := ada_world\<rparr> = one_server" by (simp add: one_server_def NewServer_def)
  then obtain dp sv where tea: "teaHandler plain_ext ada_session one_server =
      (Inr (Accepted (AppSession (NewAppModel dp (scanUser (hd (users (w_db ada_world)))))) ''u:4''), sv)"
    and w: "sv_world sv = snd (TouchLastSeen 4 ada_world)"
    using ada_connects [OF ada_quiet refl refl] by metis
  let ?v = "AppSession (NewAppModel dp (scanUser (hd (users (w_db ada_world)))))"
  obtain r0 t where i: "session_Init plain_ext (with_model ?v (?p\<lparr>ui_world := sv_world sv\<rparr>)) = (r0, t)" by force
  have "is_ok (fst (session_Init plain_ext (with_model ?v (?p\<lparr>ui_world := sv_world sv\<rparr>))))"
    by (rule Init_without_rooms [where d = "w_db (sv_world sv)"])
       (simp_all add: w process_start_def TouchLastSeen_def now_unix_def seq_act_def attempt_def exec_stmt_def driver_def
        update_users_def ok_def ada_world_def quiet_world_def empty_db_def)
  with i have "is_ok r0" by simp
  then obtain c where c: "session_Init plain_ext (with_model ?v (?p\<lparr>ui_world := sv_world sv\<rparr>)) = (Inr c, t)"
    using i by (auto simp: is_ok_iff)
  have "ui_model ?p 0 = None" "sv_world one_server = ui_world ?p"
    by (simp_all add: process_start_def one_server_def NewServer_def)
  from process_step.connect [OF this tea c] have reach: "process_reach plain_ext ada_world (joined 0 t ?p)"
    using process_reach.start unfolding joined_def by (rule process_reach.step [rotated])
  then show thesis by (rule that)
qed


section \<open>The process and its database\<close>



text \<open>C2. The data of a running server: from a database whose data are as they should be (for example an empty
  one), every reachable process has one too. Keys, references and checks of the schema hold; every
  profile, topic, reason and message is free of terminal controls, no message is empty or longer than
  2000 bytes, and every handle is valid. Users, keys, rooms and reports are only ever added.\<close>

theorem process_keeps_data:
  assumes "process_reach X w p" and "data_ok w" and "idle w"
  shows "db_ok (w_db (ui_world p)) \<and> db_clean (w_db (ui_world p)) \<and>
    (\<forall>u \<in> set (users (w_db (ui_world p))). ValidHandle (u_handle u)) \<and> grew (w_db w) (w_db (ui_world p))"
proof -
  have "data_ok (ui_world p)" using typed.process_reach_ok [OF assms(1,2)] by (simp add: process_ok_def)
  moreover have "client_step\<^sup>*\<^sup>* w (ui_world p)" using traced.process_reach_ok [OF assms(1)] by (simp add: process_ok_def)
  ultimately show ?thesis
    using client_keeps_history assms(3) by (auto simp: data_ok_def world_inv_def world_handles_def)
qed

theorem process_keeps_data_witness:
  "\<exists>t. process_reach plain_ext ada_world (joined 0 t (process_start ada_world)) \<and> data_ok ada_world \<and> idle ada_world \<and>
     db_clean (w_db (ui_world t)) \<and> grew (w_db ada_world) (w_db (ui_world t))"
proof -
  obtain t where t: "process_reach plain_ext ada_world (joined 0 t (process_start ada_world))" by (rule ada_joined)
  have "db_ok (w_db ada_world)" by (simp add: ada_world_def quiet_world_def empty_db_def db_ok_defs serial_def key_fk_def user_exists_def)
  then have d: "data_ok ada_world" "idle ada_world"
    by (simp_all add: data_ok_def world_inv_def idle_def null_or_def db_clean_def clean_user_def world_handles_def
        ada_world_def quiet_world_def empty_db_def ValidHandle_def name_char_def name_byte_def)
  from process_keeps_data [OF t d] t d show ?thesis by (auto simp: joined_def set_session_def)
qed

end
