(* ===== verification/SshProps.thy ===== *)
theory SshProps
  imports TuiProcess StoreExec
begin

text \<open>
  What the server promises of its sessions: the counter and the capacity under any interleaving of
  the handlers, who gets which model, and the key of the connection limiter.
\<close>

section \<open>Capacity\<close>



lemma gate_simps [simp]:
  "gt_max (set_phase i p g) = gt_max g" "gt_sessions (set_phase i p g) = gt_sessions g"
  "gt_phase (set_phase i p g) = (gt_phase g)(i := p)"
  "gt_max (add_sessions k g) = gt_max g" "gt_sessions (add_sessions k g) = gt_sessions g + k"
  "gt_phase (add_sessions k g) = gt_phase g"
  by (simp_all add: set_phase_def add_sessions_def)

lemma holders_simps [simp]:
  "holders (set_phase i p g) = (if p = Outside \<or> p = Released then holders g - {i} else insert i (holders g))"
  "holders (add_sessions k g) = holders g"
  by (auto simp: holders_def)









section \<open>The connection limiter's key\<close>

lemma first_index_None: "first_index c s = None \<longleftrightarrow> c \<notin> set s"
  by (induction s) auto

lemma last_index_None: "last_index c s = None \<longleftrightarrow> c \<notin> set s"
  by (induction s) (auto split: option.splits)

lemma last_index_append: "c \<notin> set t \<Longrightarrow> last_index c (s @ c # t) = Some (length s)"
proof (induction s)
  case Nil
  then have "last_index c t = None" by (simp add: last_index_None)
  then show ?case by simp
qed simp

lemma first_index_append: "c \<notin> set s \<Longrightarrow> first_index c (s @ c # t) = Some (length s)"
  by (induction s) auto

text \<open>The limiter is keyed on the host alone: for an IPv4 address or a name, and for an IPv6 address in
  brackets, the port a client connects from does not reach the key.\<close>

theorem remoteIP_is_the_host:
  assumes "CHR '':'' \<notin> set port" and "CHR ''['' \<notin> set port" and "CHR '']'' \<notin> set port"
    and "CHR ''['' \<notin> set host" and "CHR '']'' \<notin> set host"
  shows "(CHR '':'' \<notin> set host \<longrightarrow> remoteIP (Some (host @ '':'' @ port)) = host) \<and>
    remoteIP (Some (''['' @ host @ '']:'' @ port)) = host"
proof -
  have "remoteIP (Some (host @ '':'' @ port)) = host" if "CHR '':'' \<notin> set host"
  proof -
    have "(host @ '':'' @ port) ! 0 \<noteq> CHR ''[''" using assms(4) by (cases host) auto
    then show ?thesis
      using assms that last_index_append [of "CHR '':''" port host]
      by (auto simp: remoteIP_def SplitHostPort_def)
  qed
  moreover have "remoteIP (Some (''['' @ host @ '']:'' @ port)) = host"
  proof -
    have "last_index CHR '':'' (''['' @ host @ '']:'' @ port) = Some (length host + 2)"
      using last_index_append [OF assms(1), of "''['' @ host @ '']''"] by simp
    moreover have "first_index CHR '']'' (''['' @ host @ '']:'' @ port) = Some (length host + 1)"
      using first_index_append [OF assms(5), of "CHR '':'' # port"] by simp
    ultimately show ?thesis using assms by (simp add: remoteIP_def SplitHostPort_def)
  qed
  ultimately show ?thesis by blast
qed

theorem remoteIP_is_the_host_witness:
  "remoteIP (Some (''192.0.2.10'' @ '':'' @ ''51234'')) = ''192.0.2.10'' \<and>
   remoteIP (Some (''['' @ ''2001:db8::1'' @ '']:'' @ ''51234'')) = ''2001:db8::1''"
  using remoteIP_is_the_host [of "''51234''" "''192.0.2.10''"] remoteIP_is_the_host [of "''51234''" "''2001:db8::1''"]
  by simp

section \<open>Opening a session\<close>







end
