(* ===== verification/AdminProps.thy ===== *)
theory AdminProps
  imports AdminCmd StoreExec
begin

text \<open>
  What \<^verbatim>\<open>tsocial-admin prune-deleted\<close> deletes: the messages soft-deleted more than the given number of
  days ago, as long as that number of days is a duration; beyond 106751 days the product wraps around.
\<close>

lemma wrap64_id: "- (2 ^ 63) \<le> x \<Longrightarrow> x < 2 ^ 63 \<Longrightarrow> wrap64 x = x"
  by (simp add: wrap64_def)

lemma wrap64_once: "2 ^ 63 \<le> x \<Longrightarrow> x < 2 ^ 63 + 2 ^ 64 \<Longrightarrow> wrap64 x = x - 2 ^ 64"
  using mod_pos_pos_trivial [of "x + 2 ^ 63 - 2 ^ 64" "2 ^ 64"] mod_diff_right_eq [of "x + 2 ^ 63" "2 ^ 64" "2 ^ 64"]
  by (simp add: wrap64_def)

lemma days_exact: "0 \<le> n \<Longrightarrow> n \<le> 106751 \<Longrightarrow> seconds_up (days_duration n) = n * 86400"
proof -
  assume n: "0 \<le> n" "n \<le> 106751"
  have "wrap64 (n * 24) = n * 24" using n by (intro wrap64_id) simp_all
  moreover have "wrap64 (n * 24 * (3600 * 10 ^ 9)) = n * 24 * (3600 * 10 ^ 9)" using n by (intro wrap64_id) simp_all
  ultimately have "days_duration n = (n * 86400) * 10 ^ 9" by (simp add: days_duration_def)
  moreover have "- ((- (a * 10 ^ 9)) div 10 ^ 9) = (a :: int)" for a
    by (metis add.inverse_inverse mult_minus_left nonzero_mult_div_cancel_right power_not_zero zero_neq_numeral)
  ultimately show ?thesis by (simp only: seconds_up_def)
qed

lemma days_negative: "106752 \<le> n \<Longrightarrow> n \<le> 213503 \<Longrightarrow> seconds_up (days_duration n) < 0"
proof -
  assume n: "106752 \<le> n" "n \<le> 213503"
  have "wrap64 (n * 24) = n * 24" using n by (intro wrap64_id) simp_all
  moreover have "wrap64 (n * 24 * (3600 * 10 ^ 9)) = n * 24 * (3600 * 10 ^ 9) - 2 ^ 64"
    using n by (intro wrap64_once) simp_all
  ultimately have "days_duration n = n * 24 * (3600 * 10 ^ 9) - 2 ^ 64" by (simp add: days_duration_def)
  with n have "days_duration n \<le> - (10 ^ 9)" by simp
  then have "10 ^ 9 div 10 ^ 9 \<le> (- days_duration n) div 10 ^ 9" by (intro zdiv_mono1) simp_all
  then show ?thesis by (simp add: seconds_up_def)
qed

definition prune_args :: "string \<Rightarrow> string list" where
  "prune_args v = [''tsocial-admin'', ''prune-deleted'', ''--older-than-days'', v]"

lemma parse_prune_args: "flag_int v = Some n \<Longrightarrow> parse_prune flag_int [''--older-than-days'', v] 30 = Inr n"
  by (simp add: split_eq_def has_prefix_def)

lemma admin_prune:
  assumes "flag_int v = Some n" and "w_faults w = []" and "admin flag_int (prune_args v) w = (r, w')"
  shows "is_ok r \<and> messages (w_db w') = filter (\<lambda>g. case g_deleted_at g of
      None \<Rightarrow> True
    | Some t \<Rightarrow> \<not> t < w_clock w - seconds_up (days_duration n)) (messages (w_db w))"
  using assms
  by (auto simp: admin_def prune_args_def parse_prune_args check_def PurgeDeletedOlderThan_def now_unix_def exec_stmt_def
      driver_def seq_act_def attempt_def purge_messages_def Let_def exit_with_def ok_def
      simp del: parse_prune.simps split: option.splits intro!: filter_cong)

text \<open>C34. \<^verbatim>\<open>prune-deleted --older-than-days n\<close> deletes exactly the messages soft-deleted more than \<open>n\<close> days
  ago, for every \<open>n\<close> up to 106751; from there to 213503 the duration wraps around to a negative one,
  the cutoff lies in the future, and every soft-deleted message is deleted, however recent.\<close>

theorem prune_deletes_older:
  assumes "flag_int v = Some n" and "w_faults w = []"
    and "\<forall>g \<in> set (messages (w_db w)). \<forall>t. g_deleted_at g = Some t \<longrightarrow> t \<le> w_clock w"
    and "admin flag_int (prune_args v) w = (r, w')" and "0 \<le> n" and "n \<le> 213503"
  shows "is_ok r \<and> messages (w_db w') = filter (\<lambda>g. case g_deleted_at g of
      None \<Rightarrow> True
    | Some t \<Rightarrow> n \<le> 106751 \<and> \<not> t < w_clock w - n * 86400) (messages (w_db w))"
proof -
  let ?cut = "w_clock w - seconds_up (days_duration n)"
  have "\<not> t < ?cut \<longleftrightarrow> n \<le> 106751 \<and> \<not> t < w_clock w - n * 86400"
    if "g \<in> set (messages (w_db w))" "g_deleted_at g = Some t" for g t
  proof (cases "n \<le> 106751")
    case True
    then show ?thesis using days_exact assms(5) by simp
  next
    case False
    then have "seconds_up (days_duration n) < 0" using assms(6) by (intro days_negative) simp_all
    moreover have "t \<le> w_clock w" using assms(3) that by blast
    ultimately show ?thesis using False by simp
  qed
  then show ?thesis
    using admin_prune [OF assms(1,2,4)] by (auto intro!: filter_cong split: option.splits)
qed

text \<open>A message deleted an hour ago, purged with a limit of 110000 days.\<close>

definition recent_world :: world where
  "recent_world = \<lparr>w_db = empty_db\<lparr>messages := [\<lparr>g_id = 1, g_kind = ''dm'', g_room_id = None, g_peer_a = Some 1,
     g_peer_b = Some 2, g_author_id = 1, g_body = ''hi'', g_created_at = 0, g_deleted_at = Some 5000,
     g_deleted_by = Some 1\<rparr>]\<rparr>, w_tx = None, w_clock = 8600, w_faults = []\<rparr>"

theorem prune_deletes_older_witness:
  "\<exists>r w'. admin parse_int (prune_args ''110000'') recent_world = (r, w') \<and> is_ok r \<and> messages (w_db w') = []"
proof -
  obtain r w' where run: "admin parse_int (prune_args ''110000'') recent_world = (r, w')" by force
  have "parse_int ''110000'' = Some 110000" by (simp add: parse_int_def parse_uint_def is_digit_def)
  from prune_deletes_older [OF this _ _ run] run show ?thesis by (simp add: recent_world_def)
qed

end
