(* ===== verification/TuiProps.thy ===== *)
theory TuiProps
  imports TuiProcess StoreReads
begin

text \<open>
  What the interface promises its users: which commands need a role, what an eviction does to the
  evicted session, how mentions are counted, and that the identifiers it shows are the ones it
  reads back. \<open>_D\<close> facts say what a handler's result tells, as those of the store do.
\<close>

section \<open>Executing handlers\<close>

lemma store_op_D:
  assumes "store_op m s = (r, t)"
  obtains q w where "m (ui_world s) = (q, w)" and "r = Inr q" and "t = s\<lparr>ui_world := w\<rparr>"
  using assms by (cases "m (ui_world s)") (simp add: store_op_def)

lemma store_op_run: "m (ui_world s) = (q, w) \<Longrightarrow> store_op m s = (Inr q, s\<lparr>ui_world := w\<rparr>)"
  by (simp add: store_op_def)

lemma reading_app [act_simps]: "reading f k s = k (f s) s"
  by (simp add: reading_def)

lemma modify_app [act_simps]: "modify f s = (Inr (), s\<lparr>ui_model := f (ui_model s)\<rparr>)"
  by (simp add: modify_def)

lemma modify_seq [act_simps]: "seq_act (modify f) k s = k () (s\<lparr>ui_model := f (ui_model s)\<rparr>)"
  by (simp add: seq_act_def modify_def)

lemma store_op_seq:
  "m (ui_world s) = (q, w) \<Longrightarrow> seq_act (store_op m) k s = k q (s\<lparr>ui_world := w\<rparr>)"
  by (simp add: seq_act_def store_op_def)

lemma hub_LeaveRoom_seq:
  "seq_act (hub_LeaveRoom (Some sub) rid) k s = k () (s\<lparr>ui_hub := LeaveRoom sub rid (ui_hub s)\<rparr>)"
  by (simp add: seq_act_def hub_LeaveRoom_def hub_op_def)

lemma refreshRooms_seq:
  "ListUserRooms (my_id (ui_model s)) (ui_world s) = (Inr (rs, None), w) \<Longrightarrow>
   seq_act refreshRooms k s = k () (s\<lparr>ui_world := w, ui_model := (ui_model s)\<lparr>a_rooms := rs\<rparr>\<rparr>)"
  by (simp add: seq_act_def refreshRooms_def reading_def store_op_def modify_def)

section \<open>Commands that need a role\<close>

text \<open>The commands of a room that only some members may give, and the roles that may.\<close>

definition guarded :: "string set \<Rightarrow> (AppModel, cmd) handler \<Rightarrow> bool" where
  "guarded rs h \<longleftrightarrow> (\<forall>s c t. h s = (Inr c, t) \<longrightarrow> a_current (ui_model s) = viewRoom \<longrightarrow> \<not> User_IsAdmin (a_user (ui_model s)) \<longrightarrow>
     (\<forall>role \<in> rs. member_role (a_currentRoomID (ui_model s)) (my_id (ui_model s)) (w_db (ui_world s)) \<noteq> Some role) \<longrightarrow>
     (\<exists>text. c = FlashCmd text True) \<and> w_db (ui_world t) = w_db (ui_world s) \<and> ui_hub t = ui_hub s \<and> ui_model t = ui_model s)"

text \<open>\<open>my_role\<close> hands on the role of the member, or none.\<close>

lemma my_role_run:
  obtains w role where "my_role rid me k s = k role (s\<lparr>ui_world := w\<rparr>)" and "w_db w = w_db (ui_world s)"
    and "role = [] \<or> member_role rid me (w_db (ui_world s)) = Some role"
proof -
  obtain q w where q: "IsMember rid me (ui_world s) = (q, w)" by force
  from IsMember_D [OF q] have "w_db w = w_db (ui_world s)" by (simp add: core_eq)
  moreover from IsMember_D [OF q] have
    "(case q of Inl _ \<Rightarrow> [] | Inr (_, role) \<Rightarrow> role) = [] \<or>
     member_role rid me (w_db (ui_world s)) = Some (case q of Inl _ \<Rightarrow> [] | Inr (_, role) \<Rightarrow> role)"
    by auto
  ultimately show thesis
    using that [of "case q of Inl _ \<Rightarrow> [] | Inr (_, role) \<Rightarrow> role" w]
    by (simp add: my_role_def seq_act_def store_op_def q)
qed

lemma guarded_role:
  assumes "\<And>s. a_current (ui_model s) = viewRoom \<Longrightarrow> \<not> User_IsAdmin (a_user (ui_model s)) \<Longrightarrow>
      (\<exists>text. h s = complain text s) \<or>
      (\<exists>k. h s = my_role (a_currentRoomID (ui_model s)) (my_id (ui_model s)) k s \<and>
           (\<forall>role s. role \<notin> rs \<longrightarrow> (\<exists>text. k role s = complain text s)))"
    and "[] \<notin> rs"
  shows "guarded rs h"
  unfolding guarded_def
proof (intro allI impI)
  fix s :: "AppModel ui" and c t
  let ?m = "ui_model s"
  assume h: "h s = (Inr c, t)" and "a_current ?m = viewRoom" "\<not> User_IsAdmin (a_user ?m)"
    and none: "\<forall>role \<in> rs. member_role (a_currentRoomID ?m) (my_id ?m) (w_db (ui_world s)) \<noteq> Some role"
  from assms(1) [OF this(2,3)] consider (refused) l where "h s = complain l s"
    | (role) k where "h s = my_role (a_currentRoomID ?m) (my_id ?m) k s"
        "\<forall>role s. role \<notin> rs \<longrightarrow> (\<exists>text. k role s = complain text s)"
    by blast
  then show "(\<exists>text. c = FlashCmd text True) \<and> w_db (ui_world t) = w_db (ui_world s) \<and> ui_hub t = ui_hub s \<and> ui_model t = ?m"
  proof cases
    case refused
    with h show ?thesis by (auto simp: ok_def flash_def)
  next
    case (role k)
    obtain w r where w: "my_role (a_currentRoomID ?m) (my_id ?m) k s = k r (s\<lparr>ui_world := w\<rparr>)"
      "w_db w = w_db (ui_world s)" "r = [] \<or> member_role (a_currentRoomID ?m) (my_id ?m) (w_db (ui_world s)) = Some r"
      by (rule my_role_run)
    then have "r \<notin> rs" using none assms(2) by blast
    with role(2) obtain l where "k r (s\<lparr>ui_world := w\<rparr>) = complain l (s\<lparr>ui_world := w\<rparr>)" by blast
    with h role(1) w show ?thesis by (auto simp: ok_def flash_def)
  qed
qed

text \<open>C11. \<^verbatim>\<open>/kick\<close>, \<^verbatim>\<open>/ban\<close> and \<^verbatim>\<open>/invite\<close> do nothing for a user who is neither an admin nor the owner or a
  moderator of the room, and \<^verbatim>\<open>/topic\<close> for one who is neither an admin nor the owner: the answer is a
  complaint, and the database, the hub and the session are as before, also when the role cannot be
  read.\<close>

theorem commands_need_role:
  "guarded {RoleOwner, RoleModerator} (slash_remove X cmd args) \<and>
   guarded {RoleOwner, RoleModerator} (slash_invite X args) \<and>
   guarded {RoleOwner} (slash_topic rest)"
proof (intro conjI)
  show "guarded {RoleOwner, RoleModerator} (slash_remove X cmd args)"
    by (rule guarded_role; cases args)
       (auto simp: slash_remove_def act_simps Role_defs intro!: exI)
  show "guarded {RoleOwner, RoleModerator} (slash_invite X args)"
    by (rule guarded_role; cases args)
       (auto simp: slash_invite_def act_simps Role_defs intro!: exI)
  show "guarded {RoleOwner} (slash_topic rest)"
    by (rule guarded_role) (auto simp: slash_topic_def act_simps Role_defs intro!: exI)
qed

section \<open>Identifiers\<close>

lemma digit_char: "n < 10 \<Longrightarrow> (of_char (char_of (48 + n :: nat) :: char) :: int) = 48 + int n"
proof -
  assume "n < 10"
  then have "(of_char (char_of (48 + n :: nat) :: char) :: nat) = 48 + n" by simp
  then show ?thesis by (metis of_nat_of_char of_nat_add of_nat_numeral)
qed

lemma show_nat_digits: "list_all is_digit (show_nat n)"
proof (induction n rule: show_nat.induct)
  case (1 n)
  then show ?case by (subst show_nat.simps) (auto simp: is_digit_def [of "char_of _"] digit_char)
qed

text \<open>Reading decimals appends digits.\<close>

lemma digits_val_append: "digits_val (s @ [c]) a = 10 * digits_val s a + (of_char c - 48)"
  by (induction s arbitrary: a) simp_all

lemma digits_val_show: "digits_val (show_nat n) 0 = int n"
proof (induction n rule: show_nat.induct)
  case (1 n)
  show ?case
  proof (cases "n < 10")
    case True
    then show ?thesis by (subst show_nat.simps) (simp add: digit_char)
  next
    case False
    then have "digits_val (show_nat n) 0 = 10 * int (n div 10) + int (n mod 10)"
      using 1 by (subst show_nat.simps) (simp add: digits_val_append digit_char)
    then show ?thesis by presburger
  qed
qed




lemma show_int_inj: "show_int i = show_int j \<longleftrightarrow> i = j"
proof
  have inj: "show_nat m = show_nat n \<Longrightarrow> m = n" for m n
    by (metis digits_val_show of_nat_eq_iff)
  have hd: "show_nat n \<noteq> CHR ''-'' # cs" for n cs using show_nat_digits [of n] by (auto simp: is_digit_def)
  assume eq: "show_int i = show_int j"
  consider (neg) "i < 0" "j < 0" | (pos) "\<not> i < 0" "\<not> j < 0" | (left) "i < 0" "\<not> j < 0" | (right) "\<not> i < 0" "j < 0"
    by blast
  then show "i = j"
  proof cases
    case neg
    then have "show_nat (nat (- i)) = show_nat (nat (- j))" using eq by (simp add: show_int_def)
    from inj [OF this] neg show ?thesis by simp
  next
    case pos
    then have "show_nat (nat i) = show_nat (nat j)" using eq by (simp add: show_int_def)
    from inj [OF this] pos show ?thesis by simp
  next
    case left
    then have "show_nat (nat j) = CHR ''-'' # show_nat (nat (- i))" using eq by (simp add: show_int_def)
    with hd show ?thesis by blast
  next
    case right
    then have "show_nat (nat i) = CHR ''-'' # show_nat (nat (- j))" using eq by (simp add: show_int_def)
    with hd show ?thesis by blast
  qed
qed simp

lemma room_key_eq [simp]: "room_key a = room_key b \<longleftrightarrow> a = b" "dm_key a = dm_key b \<longleftrightarrow> a = b"
  "room_key a \<noteq> dm_key b" "dm_key a \<noteq> room_key b"
  by (simp_all add: room_key_def dm_key_def show_int_inj)



section \<open>Eviction\<close>

text \<open>What opening a room leaves alone, and where it leads.\<close>

definition elsewhere :: "string \<Rightarrow> AppModel \<Rightarrow> Room list \<times> Sub option \<times> viewKind \<times> int \<times> (string \<Rightarrow> Message list)" where
  "elsewhere key m = (a_rooms m, a_hubSub m, a_current m, a_currentRoomID m, (a_messages m)(key := []))"

lemma store_op_frame: "frames (\<lambda>s. (ui_hub s, v (ui_model s))) (store_op m)"
  by (simp add: frames_def store_op_def split: prod.splits)

lemma modify_frame: "(\<And>m. v (f m) = v m) \<Longrightarrow> frames (\<lambda>s. (ui_hub s, v (ui_model s))) (modify f)"
  by (simp add: frames_def modify_def)

lemma reading_frame: "(\<And>x. frames v (k x)) \<Longrightarrow> frames v (reading f k)"
  by (simp add: frames_def reading_def)

lemma refreshMembers_frame: "frames (\<lambda>s. (ui_hub s, elsewhere key (ui_model s))) (refreshMembers r)"
  unfolding refreshMembers_def
  by (intro reading_frame inv_intros store_op_frame modify_frame) (simp add: elsewhere_def)

lemma renderHistory_frame: "frames (\<lambda>s. (ui_hub s, elsewhere key (ui_model s))) (renderHistory X)"
  unfolding renderHistory_def
  by (intro reading_frame inv_intros modify_frame) (simp add: elsewhere_def)

lemma openRoom_D:
  assumes "openRoom X r s = (q, t)"
  shows "ui_hub t = ui_hub s" and "a_rooms (ui_model t) = a_rooms (ui_model s)"
    and "a_current (ui_model t) = viewRoom" and "a_currentRoomID (ui_model t) = r"
    and "key \<noteq> room_key r \<Longrightarrow> a_messages (ui_model t) key = a_messages (ui_model s) key"
proof -
  let ?m1 = "(ui_model s)\<lparr>a_current := viewRoom, a_currentRoomID := r, a_currentPeerID := 0\<rparr>"
  let ?s1 = "s\<lparr>ui_model := ?m1\<rparr>" and ?me = "my_id (ui_model s)"
  obtain hist w where h: "RoomHistoryForUser ?me r 200 (ui_world ?s1) = (hist, w)" by force
  let ?m2 = "?m1\<lparr>a_messages := (a_messages ?m1)(room_key r := (case hist of Inl _ \<Rightarrow> [] | Inr l \<Rightarrow> l))\<rparr>"
  let ?s2 = "?s1\<lparr>ui_world := w, ui_model := ?m2\<rparr>"
  let ?rest = "next_act (refreshMembers r) (next_act (store_op (MarkRoomRead ?me r)) (
     next_act (modify (\<lambda>m. m\<lparr>a_unreadRoom := (a_unreadRoom m)(r := 0), a_mentionRoom := (a_mentionRoom m)(r := False)\<rparr>))
     (renderHistory X)))"
  have run: "openRoom X r s = ?rest ?s2"
    using h by (simp add: openRoom_def set_history_def curKey_def act_simps store_op_seq)
  have "frames (\<lambda>s. (ui_hub s, elsewhere (room_key r) (ui_model s))) ?rest"
    by (intro inv_intros refreshMembers_frame renderHistory_frame store_op_frame modify_frame) (simp add: elsewhere_def)
  from frames_pairD [OF this, of ?s2 q t] assms run have view:
    "ui_hub t = ui_hub s" "elsewhere (room_key r) (ui_model t) = elsewhere (room_key r) ?m2" by simp_all
  then show "ui_hub t = ui_hub s" "a_rooms (ui_model t) = a_rooms (ui_model s)"
    "a_current (ui_model t) = viewRoom" "a_currentRoomID (ui_model t) = r" by (simp_all add: elsewhere_def)
  from view(2) have eq: "(a_messages (ui_model t))(room_key r := []) = (a_messages ?m2)(room_key r := [])"
    by (simp add: elsewhere_def)
  show "a_messages (ui_model t) key = a_messages (ui_model s) key" if "key \<noteq> room_key r"
    using fun_cong [OF eq, of key] that by simp
qed

lemma listed_rooms:
  assumes "quiet w"
  obtains rs where "ListUserRooms me w = (Inr (rs, None), w)" and "\<forall>r \<in> set rs. member (w_db w) (Room_ID r) me"
proof -
  have "member (w_db w) (Room_ID r) me"
    if "r \<in> set (map scanRoom (rooms_of me (w_db w)))" for r
    using that by (auto simp: rooms_of_def member_def member_key_def scanRoom_def image_iff split: if_splits) metis
  with that show thesis using assms by (simp add: quiet_ListUserRooms)
qed

text \<open>C15. An eviction takes effect in the evicted session: after it handles the \<open>room_removed\<close> event of a room
  it is no longer a member of (and the database answered), its subscription is out of the room in the
  hub, the room is out of its list, the history it had is dropped, and it shows another room or none.\<close>

theorem eviction_leaves_room:
  assumes "a_hubSub (ui_model s) = Some sub" and "quiet (ui_world s)"
    and "\<not> member (w_db (ui_world s)) rid (my_id (ui_model s))"
    and "Ev_Kind ev = room_removed" and "Ev_RoomID ev = rid"
    and "handleHubEvent X ev s = (Inr (), t)"
  shows "sub \<notin> set (subs_at (h_rooms (ui_hub t)) rid) \<and> rid \<notin> Room_ID ` set (a_rooms (ui_model t)) \<and>
    a_messages (ui_model t) (room_key rid) = [] \<and>
    \<not> (a_current (ui_model t) = viewRoom \<and> a_currentRoomID (ui_model t) = rid)"
proof -
  let ?m = "ui_model s"
  obtain rs where rs: "ListUserRooms (my_id ?m) (ui_world s) = (Inr (rs, None), ui_world s)"
    "\<forall>r \<in> set rs. member (w_db (ui_world s)) (Room_ID r) (my_id ?m)"
    using listed_rooms [OF assms(2)] by blast
  then have out: "rid \<notin> Room_ID ` set rs" using assms(3) by auto
  let ?m1 = "?m\<lparr>a_rooms := rs, a_messages := (a_messages ?m)(room_key rid := [])\<rparr>"
  let ?s1 = "s\<lparr>ui_hub := LeaveRoom sub rid (ui_hub s), ui_model := ?m1\<rparr>"
  have left: "sub \<notin> set (subs_at (h_rooms (LeaveRoom sub rid (ui_hub s))) rid)" by (simp add: LeaveRoom_def)
  let ?rest = "if a_current ?m = viewRoom \<and> a_currentRoomID ?m = rid then
       (case rs of
          r # _ \<Rightarrow> openRoom X (Room_ID r)
        | [] \<Rightarrow> next_act (modify (\<lambda>m. m\<lparr>a_current := viewNone, a_currentRoomID := 0, a_members := []\<rparr>)) (renderHistory X))
     else ok ()"
  have run: "?rest ?s1 = (Inr (), t)"
    using assms rs(1)
    by (simp add: handleHubEvent_def on_room_removed_def act_simps hub_LeaveRoom_seq refreshRooms_seq)
  show ?thesis
  proof (cases "a_current ?m = viewRoom \<and> a_currentRoomID ?m = rid")
    case False
    with run left out show ?thesis by (auto simp: ok_def)
  next
    case True
    show ?thesis
    proof (cases rs)
      case (Cons r rest)
      with True run have open_run: "openRoom X (Room_ID r) ?s1 = (Inr (), t)" by simp
      have "Room_ID r \<noteq> rid" using out Cons by auto
      then show ?thesis
        using openRoom_D(1-4) [OF open_run] openRoom_D(5) [OF open_run, of "room_key rid"] left out by simp
    next
      case Nil
      let ?m2 = "?m1\<lparr>a_current := viewNone, a_currentRoomID := 0, a_members := []\<rparr>"
      from Nil True run have "renderHistory X (?s1\<lparr>ui_model := ?m2\<rparr>) = (Inr (), t)"
        by (simp add: seq_act_def modify_def)
      then have "ui_hub t = ui_hub ?s1" "elsewhere key (ui_model t) = elsewhere key ?m2" for key
        using frames_pairD [OF renderHistory_frame, of X "?s1\<lparr>ui_model := ?m2\<rparr>" "Inr ()" t key] by simp_all
      from this(1) this(2) [of "room_key rid @ ''x''"] left out Nil show ?thesis
        by (auto simp: elsewhere_def fun_eq_iff room_key_def split: if_splits)
    qed
  qed
qed

text \<open>A session in room 7 of a database that does not have it as a member.\<close>

definition seven :: "AppModel ui" where
  "seven = \<lparr>ui_model = (NewAppModel plain_deps plain_user)\<lparr>a_hubSub := Some hub_sub, a_current := viewRoom, a_currentRoomID := 7\<rparr>,
     ui_world = quiet_world empty_db, ui_hub = hub_one, ui_nil = [], ui_rate = [], ui_released = 0\<rparr>"

definition removed_from_seven :: Event where
  "removed_from_seven = (mk_event room_removed)\<lparr>Ev_RoomID := 7, Ev_UserID := 1\<rparr>"

theorem eviction_leaves_room_witness:
  "\<exists>t. handleHubEvent plain_ext removed_from_seven seven = (Inr (), t) \<and>
     hub_sub \<in> set (subs_at (h_rooms (ui_hub seven)) 7) \<and> hub_sub \<notin> set (subs_at (h_rooms (ui_hub t)) 7)"
proof -
  have world: "quiet (ui_world seven)" "\<not> member (w_db (ui_world seven)) 7 (my_id (ui_model seven))"
    by (simp_all add: seven_def quiet_world_def quiet_def member_def empty_db_def)
  have list: "ListUserRooms (my_id (ui_model seven)) (ui_world seven) = (Inr ([], None), ui_world seven)"
    using world(1) by (simp add: quiet_ListUserRooms) (simp add: rooms_of_def seven_def quiet_world_def empty_db_def)
  have sub: "a_hubSub (ui_model seven) = Some hub_sub" by (simp add: seven_def)
  have "\<exists>t. handleHubEvent plain_ext removed_from_seven seven = (Inr (), t)"
    using list sub
    by (simp add: handleHubEvent_def on_room_removed_def act_simps hub_LeaveRoom_seq refreshRooms_seq
        removed_from_seven_def mk_event_def renderHistory_def curKey_def)
       (simp add: seven_def NewAppModel_def act_simps)
  then obtain t where t: "handleHubEvent plain_ext removed_from_seven seven = (Inr (), t)" by blast
  have "hub_sub \<in> set (subs_at (h_rooms (ui_hub seven)) 7)"
    by (simp add: seven_def hub_one_eq hub_sub_def subs_at_def)
  with eviction_leaves_room [OF sub world _ _ t] t show ?thesis
    by (simp add: removed_from_seven_def mk_event_def)
qed

section \<open>Unread counts\<close>

text \<open>What a message posted to a room makes a session of one of its members handle: the message, and the
  notification when the message mentions him.\<close>

definition deliver :: "ext \<Rightarrow> int \<Rightarrow> Message \<Rightarrow> int list \<Rightarrow> int \<Rightarrow> (AppModel, unit) handler" where
  "deliver X rid msg notified me =
     next_act (handleHubEvent X (room_msg_event rid msg notified))
     (if me \<in> set notified then handleHubEvent X (notify_event rid me) else ok ())"

lemma deliver_eq:
  "deliver X rid msg notified me =
     next_act (on_room_msg X (room_msg_event rid msg notified))
     (if me \<in> set notified then modify (on_notify (notify_event rid me)) else ok ())"
  by (simp add: deliver_def handleHubEvent_def room_msg_event_def notify_event_def mk_event_def)

text \<open>What drawing the history leaves alone.\<close>

lemma renderHistory_D:
  "renderHistory X s = (q, t) \<Longrightarrow> \<exists>v. ui_model t = (ui_model s)\<lparr>a_vp := v\<rparr> \<and> ui_world t = ui_world s"
  by (auto simp: renderHistory_def act_simps split: option.splits)
     (metis AppModel.surjective AppModel.update_convs(12))

text \<open>C21. A message is counted once: in a session of a member that is not showing the room, one message
  raises the room's unread count by one, whether it mentions him (then the notification counts it, and
  marks the room) or not (then the message itself does). In a session that is showing the room the
  message counts for nothing, but the notification still raises the count and the mark of a room
  that was just marked read.\<close>

theorem mention_counted_once:
  assumes "my_id (ui_model s) = me" and "deliver X rid msg notified me s = (Inr (), t)"
  shows "a_unreadRoom (ui_model t) =
      (if a_current (ui_model s) = viewRoom \<and> a_currentRoomID (ui_model s) = rid \<and> me \<notin> set notified
       then a_unreadRoom (ui_model s)
       else (a_unreadRoom (ui_model s))(rid := a_unreadRoom (ui_model s) rid + 1)) \<and>
    a_mentionRoom (ui_model t) =
      (if me \<in> set notified then (a_mentionRoom (ui_model s))(rid := True) else a_mentionRoom (ui_model s))"
proof -
  let ?m = "append_message (room_key rid) msg (ui_model s)"
  have notif: "a_unreadRoom (on_notify (notify_event rid me) m) = (a_unreadRoom m)(rid := a_unreadRoom m rid + 1)"
    "a_mentionRoom (on_notify (notify_event rid me) m) = (a_mentionRoom m)(rid := True)" for m
    by (simp_all add: on_notify_def notify_event_def mention_notice_def)
  obtain q u where msg: "on_room_msg X (room_msg_event rid msg notified) s = (q, u)" by force
  have then_notify: "q = Inr ()" "ui_model t = (if me \<in> set notified then on_notify (notify_event rid me) (ui_model u) else ui_model u)"
    using assms(2) unfolding deliver_eq by (auto simp: seq_act_def msg modify_def ok_def split: sum.splits if_splits)
  show ?thesis
  proof (cases "a_current (ui_model s) = viewRoom \<and> a_currentRoomID (ui_model s) = rid")
    case True
    then have "next_act (renderHistory X) (next_act (store_op (MarkRoomRead me rid)) (ok ())) (s\<lparr>ui_model := ?m\<rparr>) = (Inr (), u)"
      using msg then_notify(1) assms(1)
      by (simp add: on_room_msg_def room_msg_event_def mk_event_def act_simps append_message_def)
    then obtain v where "ui_model u = ?m\<lparr>a_vp := v\<rparr>"
      by (elim seq_actE) (auto simp: ok_def dest!: renderHistory_D elim!: store_op_D)
    with True then_notify notif show ?thesis by (simp add: append_message_def)
  next
    case False
    then have "ui_model u = (if me \<notin> set notified then ?m\<lparr>a_unreadRoom := (a_unreadRoom ?m)(rid := a_unreadRoom ?m rid + 1)\<rparr> else ?m)"
      using msg then_notify(1) assms(1)
      by (auto simp: on_room_msg_def room_msg_event_def mk_event_def act_simps append_message_def ok_def split: if_splits)
    with False then_notify notif show ?thesis by (auto simp: append_message_def)
  qed
qed

text \<open>A mention in the room that the session is showing.\<close>

definition posted :: Message where
  "posted = \<lparr>Message_ID = 3, Message_Kind = ''room'', Message_RoomID = Some 7, Message_DMPeerA = None, Message_DMPeerB = None,
     Message_AuthorID = 2, Message_Author = ''bob'', Message_Body = ''hi'', Message_CreatedAt = 0, Message_Deleted = False\<rparr>"

theorem mention_counted_once_witness:
  "\<exists>t. deliver plain_ext 7 posted [1] 1 seven = (Inr (), t) \<and> a_unreadRoom (ui_model seven) 7 = 0 \<and>
     a_unreadRoom (ui_model t) 7 = 1 \<and> a_mentionRoom (ui_model t) 7"
proof -
  have me: "my_id (ui_model seven) = 1" by (simp add: seven_def NewAppModel_def plain_user_def)
  have "find_mentions ''hi'' = []" by simp
  moreover have "to_lower id ''hi'' = ''hi''"
    by (simp add: to_lower_def runes_def of_runes_def bytes_of_def str_of_def rune_lower_def encode_rune_def char_of_byte)
  ultimately have plain: "highlightMentions id (=) (\<lambda>t. t) (\<lambda>t. t) ''hi'' h = Some ''hi''" for h
    by (simp add: highlightMentions_def ParseMentions_def)
  have zero: "a_unreadRoom (ui_model seven) 7 = 0" by (simp add: seven_def NewAppModel_def)
  have "\<exists>t. deliver plain_ext 7 posted [1] 1 seven = (Inr (), t)"
    using plain
    by (simp add: deliver_eq on_room_msg_def room_msg_event_def mk_event_def act_simps append_message_def seven_def
        NewAppModel_def plain_user_def renderHistory_def curKey_def posted_def renderMessage_def plain_ext_def Let_def
        seq_act_def store_op_def quiet_world_def MarkRoomRead_def now_unix_def exec_stmt_def driver_def
        update_notifications_def)
  then obtain t where t: "deliver plain_ext 7 posted [1] 1 seven = (Inr (), t)" by blast
  from mention_counted_once [OF me t] t zero show ?thesis by auto
qed

section \<open>A message handled after quitting\<close>

lemma quit_clears_sub: "quit s = (Inr c, t) \<Longrightarrow> a_hubSub (ui_model t) = None"
  by (auto simp: quit_def cleanup_def reading_def seq_act_def ok_def modify_def call_OnDisconnect_def
      split: option.splits sum.splits prod.splits if_splits)

text \<open>C35. \<open>quit\<close> returns a command; keys that were already typed are still handled before it runs. A
  \<^verbatim>\<open>/join\<close> handled then puts the nil subscription of the session into the room's subscribers: the
  command itself panics when it publishes, and from then on every publication to that room, by any
  session, dereferences nil.\<close>

theorem join_after_quit_poisons:
  fixes u :: "'m ui"
  assumes "quit s0 = (Inr c, s)"
    and "ValidRoomName (arg_name X ''#'' arg)"
    and "RoomByName (arg_name X ''#'' arg) (ui_world s) = (Inr room, w1)" and "\<not> Room_IsPrivate room"
    and "Store_JoinRoom (Room_ID room) (my_id (ui_model s)) w1 = (Inr (), w2)"
    and "slash_join X (arg # args) s = (r, t)"
    and "ui_nil u = ui_nil t"
  shows "r = Inl NilDeref \<and> Room_ID room \<in> set (ui_nil t) \<and>
    fst (hub_PublishRoom (Room_ID room) ev u) = Inl NilDeref"
proof -
  have sub: "a_hubSub (ui_model s) = None" using assms(1) by (rule quit_clears_sub)
  let ?s2 = "s\<lparr>ui_world := w2\<rparr>"
  obtain rs w3 where list: "ListUserRooms (my_id (ui_model s)) w2 = (rs, w3)" by force
  obtain m where refresh: "refreshRooms ?s2 = (Inr (), ?s2\<lparr>ui_world := w3, ui_model := m\<rparr>)"
  proof (cases "checked rs")
    case (Inl e)
    then have "refreshRooms ?s2 = (Inr (), ?s2\<lparr>ui_world := w3, ui_model := ui_model s\<rparr>)"
      using list by (simp add: refreshRooms_def reading_def seq_act_def store_op_def ok_def)
    then show thesis by (rule that)
  next
    case (Inr l)
    then have "refreshRooms ?s2 = (Inr (), ?s2\<lparr>ui_world := w3, ui_model := (ui_model s)\<lparr>a_rooms := l\<rparr>\<rparr>)"
      using list by (simp add: refreshRooms_def reading_def seq_act_def store_op_def modify_def)
    then show thesis by (rule that)
  qed
  have "slash_join X (arg # args) s =
      (Inl NilDeref, s\<lparr>ui_world := w3, ui_model := m, ui_nil := List.insert (Room_ID room) (ui_nil s)\<rparr>)"
    using assms(2-5) sub refresh
    by (simp add: slash_join_def Let_def act_simps store_op_seq)
       (simp add: seq_act_def store_op_def ok_def hub_JoinRoom_def publish_meta_def hub_PublishRoom_def nil_free_def
          reading_def fail_def)
  with assms(6) have r: "r = Inl NilDeref" and t: "ui_nil t = List.insert (Room_ID room) (ui_nil s)" by auto
  then have "Room_ID room \<in> set (ui_nil t)" by simp
  with r assms(7) show ?thesis by (simp add: hub_PublishRoom_def nil_free_def reading_def fail_def)
qed

theorem join_after_quit_poisons_witness:
  "\<exists>c s t. quit (seven\<lparr>ui_world := lobby_world\<rparr>) = (Inr c, s) \<and>
     slash_join plain_ext [''lobby''] s = (Inl NilDeref, t) \<and> 1 \<in> set (ui_nil t) \<and>
     fst (hub_PublishRoom 1 (mk_event room_meta) (seven\<lparr>ui_nil := ui_nil t\<rparr>)) = Inl NilDeref"
proof -
  obtain h' where h': "Unsubscribe hub_sub hub_one = Some h'"
    using Unsubscribe_ok hub_reach_ok [OF hub_one_reach] hub_one_live by metis
  let ?s0 = "seven\<lparr>ui_world := lobby_world\<rparr>"
  have "fst (quit ?s0) = Inr QuitCmd \<and> ui_world (snd (quit ?s0)) = lobby_world \<and>
      my_id (ui_model (snd (quit ?s0))) = 1"
    using h'
    by (simp add: quit_def cleanup_def reading_def seq_act_def hub_Unsubscribe_def nil_free_def hub_op_def
        modify_def call_OnDisconnect_def ok_def seven_def NewAppModel_def plain_deps_def plain_user_def)
  then obtain s where quit: "quit ?s0 = (Inr QuitCmd, s)" and w: "ui_world s = lobby_world" "my_id (ui_model s) = 1"
    by (metis prod.collapse)
  obtain r t where join: "slash_join plain_ext [''lobby''] s = (r, t)" by force
  have low: "to_lower id ''lobby'' = ''lobby''"
    by (simp add: to_lower_def runes_def of_runes_def bytes_of_def str_of_def rune_lower_def encode_rune_def char_of_byte)
  then have name: "arg_name plain_ext ''#'' ''lobby'' = ''lobby''"
    by (simp add: arg_name_def plain_ext_def trim_prefix_def has_prefix_def)
  have valid: "ValidRoomName (arg_name plain_ext ''#'' ''lobby'')"
    unfolding name by (simp add: ValidRoomName_def name_char_def name_byte_def)
  have quiet: "quiet lobby_world" by (simp add: lobby_world_eq ann_world_eq empty_world_def quiet_def)
  have room: "RoomByName (arg_name plain_ext ''#'' ''lobby'') (ui_world s) =
      (Inr (scanRoom (lobby_row\<lparr>r_created_at := 0\<rparr>)), lobby_world)"
    unfolding name w using quiet
    by (simp add: RoomByName_def quiet_query_row) (simp add: lobby_world_eq lobby_row_def)
  have enter: "Store_JoinRoom (Room_ID (scanRoom (lobby_row\<lparr>r_created_at := 0\<rparr>))) (my_id (ui_model s)) lobby_world
      = (Inr (), lobby_world)"
    unfolding w using quiet
    by (simp add: Store_JoinRoom_def quiet_run)
       (simp add: lobby_world_eq ann_world_eq empty_db_def count_bans_def insert_member_or_ignore_def member_key_def
          scanRoom_def lobby_row_def)
  have public: "\<not> Room_IsPrivate (scanRoom (lobby_row\<lparr>r_created_at := 0\<rparr>))" by (simp add: scanRoom_def lobby_row_def)
  have one: "Room_ID (scanRoom (lobby_row\<lparr>r_created_at := 0\<rparr>)) = 1" by (simp add: scanRoom_def lobby_row_def)
  from join_after_quit_poisons [OF quit valid room public enter join, of "seven\<lparr>ui_nil := ui_nil t\<rparr>" "mk_event room_meta"]
  show ?thesis using quit join one by auto
qed

end
