(* ===== verification/Startup.thy ===== *)
theory Startup
  imports SshServer AdminCmd StoreInv
begin

text \<open>
  Starting the programs: \<^verbatim>\<open>store.Open\<close> and its migrations, \<^verbatim>\<open>Server.ListenAndServe\<close>, and the two \<^verbatim>\<open>main\<close>
  functions. The driver of database/sql, the embedded directory of migration scripts, the creation of
  directories and the ssh library are parameters: their answers, which the code passes on or acts upon.
  An error of theirs is its text.
\<close>

section \<open>Package path/filepath\<close>

fun split_slash :: "string \<Rightarrow> string list" where
  "split_slash [] = [[]]"
| "split_slash (c # cs) =
     (if c = CHR ''/'' then [] # split_slash cs
      else case split_slash cs of [] \<Rightarrow> [[c]] | p # ps \<Rightarrow> (c # p) # ps)"

text \<open>The elements kept so far are in reverse order.\<close>

fun clean_parts :: "bool \<Rightarrow> string list \<Rightarrow> string list \<Rightarrow> string list" where
  "clean_parts rooted out [] = rev out"
| "clean_parts rooted out (p # ps) =
     (if p = [] \<or> p = ''.'' then clean_parts rooted out ps
      else if p = ''..'' then
        (if out \<noteq> [] \<and> hd out \<noteq> ''..'' then clean_parts rooted (tl out) ps
         else if rooted then clean_parts rooted out ps
         else clean_parts rooted (''..'' # out) ps)
      else clean_parts rooted (p # out) ps)"

definition filepath_Clean :: "string \<Rightarrow> string" where
  "filepath_Clean path =
     (if path = [] then ''.''
      else
        let rooted = (hd path = CHR ''/''); body = join (clean_parts rooted [] (split_slash path)) ''/''
        in if rooted then CHR ''/'' # body else if body = [] then ''.'' else body)"

definition filepath_Dir :: "string \<Rightarrow> string" where
  "filepath_Dir path = filepath_Clean (case last_index CHR ''/'' path of None \<Rightarrow> [] | Some i \<Rightarrow> take (i + 1) path)"

section \<open>Opening the store\<close>

text \<open>A driver: opening a data source, reaching it, running a script, closing it.\<close>

record 'h sql =
  sq_Open :: "string \<Rightarrow> (world, string, 'h) act"
  sq_Ping :: "'h \<Rightarrow> (world, string, unit) act"
  sq_Exec :: "'h \<Rightarrow> string \<Rightarrow> (world, string, unit) act"
  sq_Close :: "'h \<Rightarrow> (world, string, unit) act"

text \<open>The embedded files; an entry of a directory is its name and whether it is a directory.\<close>

record embedFS =
  fs_ReadDir :: "string \<Rightarrow> string + (string \<times> bool) list"
  fs_ReadFile :: "string \<Rightarrow> string + string"

definition has_suffix :: "string \<Rightarrow> string \<Rightarrow> bool" where
  "has_suffix s suf \<longleftrightarrow> length suf \<le> length s \<and> drop (length s - length suf) s = suf"

text \<open>The names in the order of \<^verbatim>\<open>sort.Strings\<close>, which compares bytes.\<close>

definition migration_names :: "(string \<times> bool) list \<Rightarrow> string list" where
  "migration_names entries = sort [name. (name, is_dir) \<leftarrow> entries, \<not> is_dir \<and> has_suffix name ''.sql'']"

fun migrate_loop :: "'h sql \<Rightarrow> embedFS \<Rightarrow> 'h \<Rightarrow> string list \<Rightarrow> (world, string, unit) act" where
  "migrate_loop sql fs db [] = ok ()"
| "migrate_loop sql fs db (n # names) =
     (case fs_ReadFile fs (''migrations/'' @ n) of
        Inl err \<Rightarrow> fail err
      | Inr b \<Rightarrow> seq_act (attempt (sq_Exec sql db b)) (\<lambda>r.
          case r of
            Inl err \<Rightarrow> fail (''migration '' @ n @ '': '' @ err)
          | Inr _ \<Rightarrow> migrate_loop sql fs db names))"

definition migrate :: "'h sql \<Rightarrow> embedFS \<Rightarrow> 'h \<Rightarrow> (world, string, unit) act" where
  "migrate sql fs db =
     (case fs_ReadDir fs ''migrations'' of
        Inl err \<Rightarrow> fail err
      | Inr entries \<Rightarrow> migrate_loop sql fs db (migration_names entries))"

definition dsn :: "string \<Rightarrow> string" where
  "dsn path = ''file:'' @ path @ ''?_pragma=journal_mode(WAL)&_pragma=foreign_keys(1)&_pragma=busy_timeout(5000)''"

text \<open>The handle is all a \<open>Store\<close> has.\<close>

definition Store_Open :: "'h sql \<Rightarrow> embedFS \<Rightarrow> string \<Rightarrow> (world, string, 'h) act" where
  "Store_Open sql fs path =
     seq_act (sq_Open sql (dsn path)) (\<lambda>db.
     seq_act (sq_Ping sql db) (\<lambda>_.
     seq_act (migrate sql fs db) (\<lambda>_.
     ok db)))"


section \<open>Serving\<close>

text \<open>
  What the operating system and the ssh library answer: an error of \<^verbatim>\<open>MkdirAll\<close> is its text and whether it
  is \<^verbatim>\<open>os.ErrExist\<close>; \<open>os_NewServer\<close> gets the address and the path of the host key.
\<close>

record answers =
  os_MkdirAll :: "string \<Rightarrow> (string \<times> bool) option"
  os_NewServer :: "string \<Rightarrow> string \<Rightarrow> string option"

text \<open>A server ready to listen: the kinds of channels and the subsystems it has handlers for.\<close>

record listening =
  li_address :: string
  li_hostkey :: string
  li_channels :: "string list"
  li_subsystems :: "string list"

text \<open>\<open>ListenAndServe\<close> up to the library's own \<open>ListenAndServe\<close>.\<close>

definition server_setup :: "answers \<Rightarrow> Config \<Rightarrow> string + listening" where
  "server_setup os cfg =
     (case os_MkdirAll os (filepath_Dir (HostKey cfg)) of
        Some (err, False) \<Rightarrow> Inl err
      | _ \<Rightarrow>
          (case os_NewServer os (Listen cfg) (HostKey cfg) of
             Some err \<Rightarrow> Inl err
           | None \<Rightarrow> Inr \<lparr>li_address = Listen cfg, li_hostkey = HostKey cfg, li_channels = [''session''],
               li_subsystems = []\<rparr>))"

text \<open>The library's result: \<open>None\<close> is no error.\<close>

definition ListenAndServe :: "answers \<Rightarrow> (listening \<Rightarrow> string option) \<Rightarrow> Config \<Rightarrow> string option" where
  "ListenAndServe os serve cfg = (case server_setup os cfg of Inl err \<Rightarrow> Some err | Inr srv \<Rightarrow> serve srv)"

section \<open>The server program\<close>

datatype level = LevelDebug | LevelInfo | LevelWarn | LevelError

definition log_level :: "Config \<Rightarrow> level" where
  "log_level cfg =
     (if LogLevel cfg = ''debug'' then LevelDebug
      else if LogLevel cfg = ''warn'' then LevelWarn
      else if LogLevel cfg = ''error'' then LevelError
      else LevelInfo)"





section \<open>The admin program\<close>

text \<open>\<^verbatim>\<open>os.Getenv\<close> gives the empty string for a variable that is not set.\<close>

definition admin_db :: "env \<Rightarrow> string" where
  "admin_db env =
     (let dbPath = (case env ''TSOCIAL_DB'' of None \<Rightarrow> [] | Some v \<Rightarrow> v) in
      if dbPath = [] then ''/var/lib/tsocial/tsocial.db'' else dbPath)"

text \<open>\<open>admin\<close> is the rest of \<open>main\<close>; it always ends with an exit status.\<close>

definition admin_main ::
  "'h sql \<Rightarrow> embedFS \<Rightarrow> (string \<Rightarrow> int option) \<Rightarrow> env \<Rightarrow> string list \<Rightarrow> world \<Rightarrow> (db_error + exit) \<times> world" where
  "admin_main sql fs flag_int env os_args w =
     (if length os_args < 2 then exit_with 2 [] w
      else case Store_Open sql fs (admin_db env) w of
        (Inl err, w) \<Rightarrow> exit_with 1 [] w
      | (Inr db, w) \<Rightarrow> admin flag_int os_args w)"

section \<open>What starting promises\<close>











text \<open>The directories the defaults need.\<close>

lemma default_dirs:
  "filepath_Dir ''/var/lib/tsocial/tsocial.db'' = ''/var/lib/tsocial''" "filepath_Dir ''tsocial.db'' = ''.''"
  "filepath_Dir ''data/../tsocial.db'' = ''.''"
  by (simp_all add: filepath_Dir_def filepath_Clean_def)

end
