(* ===== verification/StoreTame.thy ===== *)
theory StoreTame
  imports StoreTrace StoreReads
begin

text \<open>
  Which methods of the store post messages, and which end memberships. A change of the world is \<open>tame\<close>
  when it does neither: the methods are tame but for \<open>InsertRoomMessage\<close> and \<open>InsertDM\<close>, which keep
  the members, and \<open>LeaveRoom\<close>, \<open>KickFromRoom\<close> and \<open>BanFromRoom\<close>, which post nothing and take out the
  one member they name.
\<close>

definition member_keys :: "database \<Rightarrow> (int \<times> int) set" where
  "member_keys d = member_key ` set (room_members d)"

definition posts :: "database \<Rightarrow> nat" where
  "posts d = length (messages d)"

lemma member_iff: "member d r u \<longleftrightarrow> (r, u) \<in> member_keys d"
  by (simp add: member_def member_keys_def)

definition tame_db :: "database \<Rightarrow> database \<Rightarrow> bool" where
  "tame_db d d' \<longleftrightarrow> posts d' \<le> posts d \<and> member_keys d \<subseteq> member_keys d'"

text \<open>Relations between the worlds before and after, with no transaction open.\<close>

definition through :: "(database \<Rightarrow> database \<Rightarrow> bool) \<Rightarrow> 'a io \<Rightarrow> bool" where
  "through D m \<longleftrightarrow> (\<forall>w. idle w \<longrightarrow> idle (snd (m w)) \<and> D (w_db w) (w_db (snd (m w))))"

named_theorems through_intros \<open>what the methods do to posts and members\<close>

lemma throughI:
  assumes "\<And>d. D d d" and "keeps idle m" and "\<And>d0. keeps (world_inv (D d0)) m"
  shows "through D m"
  unfolding through_def
proof (intro allI impI)
  fix w assume w: "idle w"
  then have "idle (snd (m w))" using assms(2) by (simp add: keeps_def)
  moreover have "world_inv (D (w_db w)) w" using w assms(1) by (simp add: world_inv_def idle_def null_or_def)
  then have "world_inv (D (w_db w)) (snd (m w))" using assms(3) by (simp add: keeps_def)
  ultimately show "idle (snd (m w)) \<and> D (w_db w) (w_db (snd (m w)))" by (simp add: world_inv_def)
qed

lemma through_runI:
  "keeps idle m \<Longrightarrow> (\<And>w r w'. m w = (r, w') \<Longrightarrow> D (w_db w) (w_db w')) \<Longrightarrow> through D m"
  unfolding through_def keeps_def by (metis prod.collapse)

lemma throughD: "through D m \<Longrightarrow> m w = (r, w') \<Longrightarrow> idle w \<Longrightarrow> idle w' \<and> D (w_db w) (w_db w')"
  unfolding through_def by (metis snd_conv)

lemma through_weaken: "through D m \<Longrightarrow> (\<And>d d'. D d d' \<Longrightarrow> E d d') \<Longrightarrow> through E m"
  by (simp add: through_def)

lemma tame_db_refl [simp]: "tame_db d d"
  by (simp add: tame_db_def)

lemma tame_read: "frames core m \<Longrightarrow> through tame_db m"
  unfolding through_def frames_def by (simp add: core_eq idle_def)

lemmas tame_reads [through_intros] = reads_frame [THEN tame_read] frames_IsMember [THEN tame_read]

lemma tame_stmt:
  assumes "\<And>d a d'. st d = Inr (a, d') \<Longrightarrow> posts d' \<le> posts d \<and> member_keys d \<subseteq> member_keys d'"
  shows "stmt_keeps (tame_db d0) st"
  using assms unfolding tame_db_def by (intro stmt_keepsI) fastforce

lemma tame_stmts:
  "stmt_keeps (tame_db d0) (\<lambda>d. update_notifications (Q d) now d)"
  "stmt_keeps (tame_db d0) (insert_block_or_ignore by_user target now)"
  "stmt_keeps (tame_db d0) (delete_block by_user target)"
  "stmt_keeps (tame_db d0) (insert_report reporter kind target reason now)"
  "stmt_keeps (tame_db d0) (soft_delete_message now by_user mid)"
  "stmt_keeps (tame_db d0) (update_rooms R g)"
  "stmt_keeps (tame_db d0) (update_users P f)"
  "stmt_keeps (tame_db d0) (insert_user h now)"
  "stmt_keeps (tame_db d0) (insert_key uid fp pub label now)"
  "stmt_keeps (tame_db d0) (insert_room name priv owner now)"
  "stmt_keeps (tame_db d0) (insert_member rid uid role now)"
  "stmt_keeps (tame_db d0) (insert_member_or_ignore rid uid role now)"
  by (rule tame_stmt; auto simp: posts_def member_keys_def update_notifications_def insert_block_or_ignore_def delete_block_def
      insert_report_def soft_delete_message_def update_rooms_def update_users_def insert_user_def insert_key_def
      insert_room_def insert_member_def insert_member_or_ignore_def Let_def split: if_splits)+

lemma tame_keeps:
  "keeps (world_inv (tame_db d0)) (CreateUser h fp pub)" "keeps (world_inv (tame_db d0)) (TouchLastSeen uid)"
  "keeps (world_inv (tame_db d0)) (MarkRoomRead uid rid)" "keeps (world_inv (tame_db d0)) (MarkDMRead uid peer)"
  "keeps (world_inv (tame_db d0)) (Block uid target)" "keeps (world_inv (tame_db d0)) (Unblock uid target)"
  "keeps (world_inv (tame_db d0)) (ReportMessageForUser uid mid reason)"
  "keeps (world_inv (tame_db d0)) (DeleteMessageForUser mid uid adm)"
  "keeps (world_inv (tame_db d0)) (SetTopic rid topic)" "keeps (world_inv (tame_db d0)) (AddKey uid fp pub label)"
  "keeps (world_inv (tame_db d0)) (UpdateProfile uid dn bio pr)" "keeps (world_inv (tame_db d0)) (Store_JoinRoom rid uid)"
  "keeps (world_inv (tame_db d0)) (CreateRoom name private owner)"
  unfolding CreateUser_def TouchLastSeen_def MarkRoomRead_def MarkDMRead_def Block_def Unblock_def
    ReportMessageForUser_def Report_def DeleteMessageForUser_def DeleteMessage_def SetTopic_def AddKey_def
    UpdateProfile_def Store_JoinRoom_def CreateRoom_def MessageByID_def MessageByIDForUser_def UserByID_def RoomByID_def
    canReadMessage_def require_member_def IsMember_def
  by (intro inv_intros tame_stmts)+

lemma tame_writes [through_intros]:
  "through tame_db (CreateUser h fp pub)" "through tame_db (TouchLastSeen uid)"
  "through tame_db (MarkRoomRead uid rid)" "through tame_db (MarkDMRead uid peer)" "through tame_db (Block uid target)"
  "through tame_db (Unblock uid target)" "through tame_db (ReportMessageForUser uid mid reason)"
  "through tame_db (DeleteMessageForUser mid uid adm)" "through tame_db (SetTopic rid topic)"
  "through tame_db (AddKey uid fp pub label)" "through tame_db (UpdateProfile uid dn bio pr)"
  "through tame_db (Store_JoinRoom rid uid)" "through tame_db (CreateRoom name private owner)"
  by (rule throughI, rule tame_db_refl, rule methods_idle, rule tame_keeps)+

lemma through_if [through_intros]: "through D m \<Longrightarrow> through D n \<Longrightarrow> through D (if b then m else n)"
  by simp

section \<open>Posting\<close>

definition keeps_members :: "database \<Rightarrow> database \<Rightarrow> bool" where
  "keeps_members d d' \<longleftrightarrow> member_keys d \<subseteq> member_keys d'"

lemma keeps_members_refl: "keeps_members d d"
  by (simp add: keeps_members_def)

lemma tame_keeps_members: "through tame_db m \<Longrightarrow> through keeps_members m"
  by (erule through_weaken) (simp add: tame_db_def keeps_members_def)

lemma same_members:
  assumes "\<And>d a d'. st d = Inr (a, d') \<Longrightarrow> room_members d' = room_members d"
  shows "stmt_keeps (keeps_members d0) st"
  using assms by (intro stmt_keepsI) (simp add: keeps_members_def member_keys_def)

interpretation posting: db_posts "keeps_members d0" for d0
  by unfold_locales
     (rule same_members, auto simp: insert_message_def soft_delete_message_def insert_mention_or_ignore_def
        insert_notification_def Let_def split: if_splits)+

lemma posting_through [through_intros]:
  "through keeps_members (InsertRoomMessage rid uid body ms)" "through keeps_members (InsertDM uid peer body)"
  by (rule throughI, rule keeps_members_refl, rule methods_idle, rule posting.messages_keep)+

text \<open>At most one message a call.\<close>

definition one_post :: "database \<Rightarrow> database \<Rightarrow> bool" where
  "one_post d d' \<longleftrightarrow> posts d' \<le> Suc (posts d)"

lemma InsertRoomMessage_posts:
  assumes "InsertRoomMessage rid uid body ms w = (r, w')"
  shows "one_post (w_db w) (w_db w')"
  using require_member_D [OF assms [unfolded InsertRoomMessage_def]]
  by (auto simp: one_post_def posts_def core_eq fail_def Let_def now_seq elim!: seq_actE
      dest!: query_D InsertRoomMessage_tx_D split: if_splits)

lemma MessageByID_same: "MessageByID mid w = (r, w') \<Longrightarrow> w_db w' = w_db w"
  using framesD [OF reads_frame(11), of mid w] by (simp add: core_eq)

lemma InsertDM_posts:
  assumes "InsertDM uid peer body w = (r, w')"
  shows "one_post (w_db w) (w_db w')"
  using assms unfolding InsertDM_def
  by (auto simp: one_post_def posts_def core_eq fail_def Let_def now_seq attempt_def elim!: seq_actE insert_message_Inr
      insert_notification_Inr dest!: UserByID_D IsBlocked_D two_stmt_tx MessageByID_same split: if_splits prod.splits)

lemma one_post_through [through_intros]:
  "through one_post (InsertRoomMessage rid uid body ms)" "through one_post (InsertDM uid peer body)"
  by (rule through_runI, rule methods_idle, erule InsertRoomMessage_posts InsertDM_posts)+

section \<open>Leaving\<close>

definition parts_with :: "int \<times> int \<Rightarrow> database \<Rightarrow> database \<Rightarrow> bool" where
  "parts_with k d d' \<longleftrightarrow> posts d' \<le> posts d \<and> member_keys d - {k} \<subseteq> member_keys d'"

lemma parts_refl: "parts_with k d d"
  by (auto simp: parts_with_def)

lemma parts_stmts:
  "stmt_keeps (parts_with (rid, uid) d0) (delete_member rid uid)"
  "stmt_keeps (parts_with k d0) (replace_ban rid uid by_user reason now)"
  by (rule stmt_keepsI; fastforce simp: parts_with_def posts_def member_keys_def delete_member_def replace_ban_def
      member_key_def split: if_splits)+

lemma parts_keeps:
  "keeps (world_inv (parts_with (rid, uid) d0)) (Store_LeaveRoom rid uid)"
  "keeps (world_inv (parts_with (rid, uid) d0)) (KickFromRoom rid uid)"
  "keeps (world_inv (parts_with (rid, uid) d0)) (BanFromRoom rid uid by_user reason)"
  unfolding Store_LeaveRoom_def KickFromRoom_def BanFromRoom_def
  by (intro inv_intros parts_stmts)+

lemma leaving_through [through_intros]:
  "through (parts_with (rid, uid)) (Store_LeaveRoom rid uid)"
  "through (parts_with (rid, uid)) (KickFromRoom rid uid)"
  "through (parts_with (rid, uid)) (BanFromRoom rid uid by_user reason)"
  by (rule throughI, rule parts_refl, rule methods_idle, rule parts_keeps)+

section \<open>Joining\<close>

text \<open>When \<open>JoinRoom\<close> or \<open>CreateRoom\<close> reports success, the user is a member.\<close>

lemma Store_JoinRoom_member:
  assumes "Store_JoinRoom rid uid w = (Inr a, w')"
  shows "member (w_db w') rid uid"
  using assms unfolding Store_JoinRoom_def
  by (auto simp: insert_member_or_ignore_def member_def fail_def elim!: seq_actE insert_member_Inr dest!: exec_stmt_Inr
      split: if_splits)

lemma CreateRoom_member:
  assumes "CreateRoom name private owner w = (Inr room, w')"
  shows "member (w_db w') (Room_ID room) owner"
  using CreateRoom_atomic [OF assms] by (auto simp: member_def scanRoom_def)

end
