(* ===== verification/TuiMoves.thy ===== *)
theory TuiMoves
  imports TuiUpdate StoreTame
begin

text \<open>
  Relations between the states before and after a handler, whether it returns or panics:
  \<open>moves R h\<close>. The interface \<open>session_relation\<close> asks of a relation what most of the handlers do: they change the
  model but for its user, hooks and subscription, make tame calls of the store, publish, and drop
  subscriptions to rooms. Its extension \<open>session_update\<close> adds the operations a relation has to look
  at, and gets \<open>Update\<close>.
\<close>

section \<open>Rules\<close>

definition moves :: "('m ui \<Rightarrow> 'm ui \<Rightarrow> bool) \<Rightarrow> ('m, 'a) handler \<Rightarrow> bool" where
  "moves R h \<longleftrightarrow> (\<forall>s. R s (snd (h s)))"

named_theorems moves_intros \<open>rules that a handler keeps to a relation\<close>

lemma movesI: "(\<And>s r t. h s = (r, t) \<Longrightarrow> R s t) \<Longrightarrow> moves R h"
  unfolding moves_def by (metis prod.collapse)

lemma movesD: "moves R h \<Longrightarrow> h s = (r, t) \<Longrightarrow> R s t"
  unfolding moves_def by (metis snd_conv)

lemma moves_reading [moves_intros]: "(\<And>x. moves R (k x)) \<Longrightarrow> moves R (reading f k)"
  by (simp add: moves_def reading_def)

lemma moves_if [moves_intros]: "(b \<Longrightarrow> moves R h) \<Longrightarrow> (\<not> b \<Longrightarrow> moves R k) \<Longrightarrow> moves R (if b then h else k)"
  by simp

lemma moves_case_sum [moves_intros]:
  "(\<And>e. moves R (f e)) \<Longrightarrow> (\<And>a. moves R (g a)) \<Longrightarrow> moves R (case r of Inl e \<Rightarrow> f e | Inr a \<Rightarrow> g a)"
  by (cases r) simp_all

lemma moves_case_option [moves_intros]:
  "moves R h \<Longrightarrow> (\<And>a. moves R (g a)) \<Longrightarrow> moves R (case r of None \<Rightarrow> h | Some a \<Rightarrow> g a)"
  by (cases r) simp_all

lemma moves_case_list [moves_intros]:
  "moves R h \<Longrightarrow> (\<And>y ys. moves R (g y ys)) \<Longrightarrow> moves R (case xs of [] \<Rightarrow> h | y # ys \<Rightarrow> g y ys)"
  by (cases xs) simp_all

lemma moves_case_prod [moves_intros]: "(\<And>a b. moves R (f a b)) \<Longrightarrow> moves R (case p of (a, b) \<Rightarrow> f a b)"
  by (cases p) simp

lemma moves_case_view [moves_intros]:
  "moves R h1 \<Longrightarrow> moves R h2 \<Longrightarrow> moves R h3 \<Longrightarrow>
   moves R (case v of viewRoom \<Rightarrow> h1 | viewDM \<Rightarrow> h2 | viewNone \<Rightarrow> h3)"
  by (cases v) simp_all

lemma moves_case_pane [moves_intros]:
  "moves R h1 \<Longrightarrow> moves R h2 \<Longrightarrow> moves R h3 \<Longrightarrow>
   moves R (case p of paneNav \<Rightarrow> h1 | paneChat \<Rightarrow> h2 | paneMembers \<Rightarrow> h3)"
  by (cases p) simp_all

lemma moves_let [moves_intros]: "(\<And>x. moves R (f x)) \<Longrightarrow> moves R (let x = t in f x)"
  by simp

section \<open>The interface\<close>

definition tame_world :: "world \<Rightarrow> world \<Rightarrow> bool" where
  "tame_world w w' \<longleftrightarrow> (idle w \<longrightarrow> idle w' \<and> tame_db (w_db w) (w_db w'))"

definition same_user :: "AppModel \<Rightarrow> AppModel \<Rightarrow> bool" where
  "same_user m m' \<longleftrightarrow> a_deps m' = a_deps m \<and> my_id m' = my_id m \<and> a_hubSub m' = a_hubSub m"

locale run_relation =
  fixes R :: "'m ui \<Rightarrow> 'm ui \<Rightarrow> bool"
  assumes refl: "R s s"
    and trans: "R s t \<Longrightarrow> R t u \<Longrightarrow> R s u"
begin

lemma moves_ok [moves_intros]: "moves R (ok a)"
  by (simp add: moves_def ok_def refl)

lemma moves_fail [moves_intros]: "moves R (fail e)"
  by (simp add: moves_def fail_def refl)

lemma moves_clock [moves_intros]: "moves R clock"
  by (simp add: moves_def clock_def refl)

lemma moves_seq [moves_intros]: "moves R h \<Longrightarrow> (\<And>a. moves R (f a)) \<Longrightarrow> moves R (seq_act h f)"
  by (rule movesI, erule seq_actE) (blast dest: movesD intro: trans)+

lemma moves_for_all [moves_intros]: "(\<And>x. x \<in> set xs \<Longrightarrow> moves R (f x)) \<Longrightarrow> moves R (for_all f xs)"
  by (induction xs) (simp_all add: moves_ok moves_seq)

end

locale session_relation = run_relation R for R :: "AppModel ui \<Rightarrow> AppModel ui \<Rightarrow> bool" +
  assumes model: "same_user (ui_model s) m \<Longrightarrow> R s (s\<lparr>ui_model := m\<rparr>)"
    and world: "tame_world (ui_world s) w \<Longrightarrow> R s (s\<lparr>ui_world := w\<rparr>)"
    and publish_room: "moves R (hub_PublishRoom rid ev)"
    and publish_user: "moves R (hub_PublishUser uid ev)"
    and leave_room: "moves R (hub_LeaveRoom sub rid)"
begin

lemma moves_modify [moves_intros]: "(\<And>m. same_user m (f m)) \<Longrightarrow> moves R (modify f)"
  by (simp add: moves_def modify_def model)

lemma moves_store [moves_intros]: "through tame_db m \<Longrightarrow> moves R (store_op m)"
  by (rule movesI) (auto simp: store_op_def tame_world_def intro!: world dest: throughD split: prod.splits)

lemmas moves_hub [moves_intros] = publish_room publish_user leave_room

paragraph \<open>Showing rooms and messages\<close>

lemma moves_refreshRooms [moves_intros]: "moves R refreshRooms"
  unfolding refreshRooms_def
  by (intro moves_intros through_intros) (simp_all add: same_user_def)

lemma moves_cachedUser [moves_intros]: "moves R (cachedUser i)"
  unfolding cachedUser_def
  by (intro moves_intros through_intros) (simp_all add: same_user_def)

lemma moves_add_peer [moves_intros]: "moves R (add_peer i)"
  unfolding add_peer_def
  by (intro moves_intros through_intros) (simp_all add: same_user_def)

lemma moves_refreshDMPeers [moves_intros]: "moves R refreshDMPeers"
  unfolding refreshDMPeers_def
  by (intro moves_intros through_intros) (simp_all add: same_user_def)

lemma moves_refreshBlocks [moves_intros]: "moves R refreshBlocks"
  unfolding refreshBlocks_def
  by (intro moves_intros through_intros) (simp_all add: same_user_def)

lemma moves_refreshUnread [moves_intros]: "moves R refreshUnread"
  unfolding refreshUnread_def
  by (intro moves_intros through_intros) (simp_all add: same_user_def)

lemma moves_refreshMembers [moves_intros]: "moves R (refreshMembers r)"
  unfolding refreshMembers_def
  by (intro moves_intros through_intros) (simp_all add: same_user_def)

lemma moves_renderHistory [moves_intros]: "moves R (renderHistory X)"
  unfolding renderHistory_def
  by (intro moves_intros through_intros) (simp_all add: same_user_def)

lemma moves_set_history [moves_intros]: "moves R (set_history r)"
  unfolding set_history_def
  by (intro moves_intros through_intros) (simp_all add: same_user_def)

lemma moves_openRoom [moves_intros]: "moves R (openRoom X r)"
  unfolding openRoom_def
  by (intro moves_intros through_intros) (simp_all add: same_user_def)

lemma moves_openDM [moves_intros]: "moves R (openDM X p)"
  unfolding openDM_def
  by (intro moves_intros through_intros) (simp_all add: same_user_def)

lemma moves_activate_at [moves_intros]: "moves R (activate_at X i its)"
  unfolding activate_at_def activate_def
  by (intro moves_intros through_intros)

lemma moves_navMove [moves_intros]: "moves R (navMove X d)"
  unfolding navMove_def
  by (intro moves_intros through_intros)

lemma moves_navActivate [moves_intros]: "moves R (navActivate X)"
  unfolding navActivate_def
  by (intro moves_intros through_intros)

lemma moves_updateNav [moves_intros]: "moves R (updateNav X key)"
  unfolding updateNav_def
  by (intro moves_intros through_intros)

paragraph \<open>Events\<close>

lemma moves_on_room_msg [moves_intros]: "moves R (on_room_msg X ev)"
  unfolding on_room_msg_def
  by (intro moves_intros through_intros) (simp_all add: same_user_def append_message_def)

lemma moves_on_dm_msg [moves_intros]: "moves R (on_dm_msg X ev)"
  unfolding on_dm_msg_def
  by (intro moves_intros through_intros) (simp_all add: same_user_def append_message_def)

lemma moves_on_msg_deleted [moves_intros]: "moves R (on_msg_deleted X)"
  unfolding on_msg_deleted_def
  by (intro moves_intros through_intros)

lemma moves_on_room_meta [moves_intros]: "moves R (on_room_meta ev)"
  unfolding on_room_meta_def
  by (intro moves_intros through_intros)

lemma moves_on_room_removed [moves_intros]: "moves R (on_room_removed X ev)"
  unfolding on_room_removed_def
  by (intro moves_intros through_intros) (simp_all add: same_user_def)

lemma moves_handleHubEvent [moves_intros]: "moves R (handleHubEvent X ev)"
proof -
  have "moves R (modify (on_presence ev))" "moves R (modify (on_notify ev))"
    by (rule moves_modify, simp add: same_user_def on_presence_def on_notify_def split: option.split)+
  then show ?thesis
    unfolding handleHubEvent_def
    by (cases "Ev_Kind ev") (simp_all add: moves_on_room_msg moves_on_dm_msg moves_on_msg_deleted moves_on_room_meta
        moves_on_room_removed)
qed

paragraph \<open>Commands\<close>

lemma moves_publish_meta [moves_intros]: "moves R (publish_meta r)"
  unfolding publish_meta_def by (rule publish_room)

lemma moves_my_role [moves_intros]: "(\<And>role. moves R (k role)) \<Longrightarrow> moves R (my_role r me k)"
  unfolding my_role_def by (intro moves_intros through_intros)

lemma moves_named_user [moves_intros]: "(\<And>h u. moves R (k h u)) \<Longrightarrow> moves R (named_user X arg k)"
  unfolding named_user_def by (intro moves_intros through_intros)

lemma moves_slash_topic [moves_intros]: "moves R (slash_topic rest)"
  unfolding slash_topic_def
  by (intro moves_intros through_intros)

lemma moves_slash_invite [moves_intros]: "moves R (slash_invite X args)"
  unfolding slash_invite_def
  by (intro moves_intros through_intros)

lemma moves_slash_whois [moves_intros]: "moves R (slash_whois X args)"
  unfolding slash_whois_def
  by (intro moves_intros through_intros)

lemma moves_slash_block [moves_intros]: "moves R (slash_block X args)"
  unfolding slash_block_def
  by (intro moves_intros through_intros)

lemma moves_slash_unblock [moves_intros]: "moves R (slash_unblock X args)"
  unfolding slash_unblock_def
  by (intro moves_intros through_intros)

lemma moves_slash_report [moves_intros]: "moves R (slash_report X args)"
  unfolding slash_report_def
  by (intro moves_intros through_intros)

lemma moves_slash_delete [moves_intros]: "moves R (slash_delete X args)"
  unfolding slash_delete_def
  by (intro moves_intros through_intros)

lemma moves_slash_search [moves_intros]: "moves R (slash_search X rest)"
  unfolding slash_search_def
  by (intro moves_intros through_intros)

lemma moves_slash_addkey [moves_intros]: "moves R (slash_addkey X rest)"
  unfolding slash_addkey_def
  by (intro moves_intros through_intros)

lemma moves_slash_keys [moves_intros]: "moves R (slash_keys X)"
  unfolding slash_keys_def
  by (intro moves_intros through_intros)

lemma moves_slash_notifications [moves_intros]: "moves R (slash_notifications X)"
  unfolding slash_notifications_def
  by (intro moves_intros through_intros)

lemma moves_slash_profile [moves_intros]: "moves R (slash_profile X rest)"
  unfolding slash_profile_def
  by (intro moves_intros through_intros) (simp_all add: same_user_def set_profile_def Let_def)

paragraph \<open>Keys\<close>

lemma moves_edit [moves_intros]: "moves R (edit X msg)"
  unfolding edit_def
  by (intro moves_intros through_intros) (simp_all add: same_user_def)

lemma moves_recall [moves_intros]: "moves R (recall X)"
  unfolding recall_def
  by (intro moves_intros through_intros) (simp_all add: same_user_def set_value_def)

lemma moves_key_up [moves_intros]: "moves R (key_up X)"
  unfolding key_up_def
  by (intro moves_intros through_intros) (simp_all add: same_user_def)

lemma moves_key_down [moves_intros]: "moves R (key_down X)"
  unfolding key_down_def
  by (intro moves_intros through_intros) (simp_all add: same_user_def set_value_def)

lemma moves_after_switch [moves_intros]: "moves R (after_switch X msg cmds)"
  unfolding after_switch_def
  by (intro moves_intros through_intros)

end

section \<open>Update\<close>

text \<open>
  With the operations that post, join, leave or quit. Quitting is the last thing a handler does: it
  may keep to a weaker relation \<open>E\<close>, that of the handlers that can end the session.
\<close>

locale session_update = session_relation R for R +
  fixes E :: "AppModel ui \<Rightarrow> AppModel ui \<Rightarrow> bool"
  assumes send: "moves R (sendCurrent X body)"
    and join_room: "moves R (slash_join X args)"
    and create_room: "moves R (slash_create X args)"
    and part: "moves R (slash_leave X)"
    and remove: "moves R (slash_remove X cmd args)"
    and stays: "R s t \<Longrightarrow> E s t"
    and ends: "R s t \<Longrightarrow> E t u \<Longrightarrow> E s u"
    and leave: "moves E quit"
begin

lemmas moves_assumed [moves_intros] = send join_room create_room part remove

lemma moves_slash_msg: "moves R (slash_msg X args rest)"
  unfolding slash_msg_def
  by (intro moves_intros through_intros) (simp_all add: same_user_def)

lemma moves_slash_me: "moves R (slash_me X rest)"
  unfolding slash_me_def
  by (intro moves_intros)

lemma exits_stays: "moves R h \<Longrightarrow> moves E h"
  by (simp add: moves_def stays)

lemma exits_seq: "moves R h \<Longrightarrow> (\<And>a. moves E (f a)) \<Longrightarrow> moves E (seq_act h f)"
  by (rule movesI, erule seq_actE) (blast dest: movesD intro: stays ends)+

lemma moves_show_help: "moves R (next_act (modify (\<lambda>m. m\<lparr>a_help := b\<rparr>)) (ok NoCmd))"
  by (intro moves_intros) (simp add: same_user_def)

lemmas moves_commands = moves_slash_msg moves_slash_me moves_slash_topic moves_slash_invite moves_slash_whois
  moves_slash_block moves_slash_unblock moves_slash_report moves_slash_delete moves_slash_search moves_slash_profile
  moves_slash_addkey moves_slash_keys moves_slash_notifications moves_assumed moves_ok moves_show_help

lemma exits_run_command: "moves E (run_command X cmd args rest)"
  unfolding run_command_def by (simp add: leave exits_stays moves_commands)

lemma exits_runSlash: "moves E (runSlash X line)"
  unfolding runSlash_def Let_def
  by (cases "Fields line") (simp_all add: exits_run_command exits_stays moves_ok)

lemma exits_key_enter: "moves E (key_enter X)"
proof -
  have "moves R (modify (set_value v))" for v by (rule moves_modify) (simp add: same_user_def set_value_def)
  moreover have "moves R (modify (\<lambda>m. m\<lparr>a_cmdHistory := f m, a_cmdHistoryIdx := g m\<rparr>))" for f g
    by (rule moves_modify) (simp add: same_user_def)
  ultimately show ?thesis
    unfolding key_enter_def by (intro moves_reading) (simp add: exits_stays moves_ok exits_seq exits_runSlash send)
qed

lemma exits_updateChat: "moves E (updateChat X key)"
  unfolding updateChat_def
  by (simp add: exits_key_enter exits_stays moves_key_up moves_key_down moves_edit)

lemma moves_show_keys:
  "moves R (next_act (modify (set_focus b)) (ok NoCmd))" "moves R (next_act (modify (cycle_pane k)) (ok NoCmd))"
  by (intro moves_intros; simp add: same_user_def set_focus_def cycle_pane_def Let_def)+

lemma exits_update_key: "moves E (update_key X key)"
  unfolding update_key_def prod.case
  by (intro moves_reading moves_case_prod)
     (simp add: leave exits_stays moves_show_help moves_show_keys moves_ok moves_updateNav exits_updateChat moves_case_pane)

lemma exits_Update: "moves E (Update X msg)"
proof (cases msg)
  case (KeyMsg key)
  then show ?thesis by (simp add: Update_def exits_update_key)
next
  case disconnectMsg
  then show ?thesis by (simp add: Update_def leave)
qed (simp only: Update_def msg.case; intro exits_stays moves_intros;
     simp add: same_user_def recalcLayout_def on_tick_def Let_def)+

end

end
