(* ===== verification/SessionRate.thy ===== *)
theory SessionRate
  imports TuiProps TuiMoves Rate
begin

text \<open>
  The rate limit holds for everything a session does: every message it posts has been let through by the
  limiter. \<open>paid\<close> is the relation all the handlers keep to, an interpretation of \<open>session_update\<close>; the answers
  of the limiter are those of its bucket (Rate).
\<close>

section \<open>Rate limiting\<close>

text \<open>With the hook set, asking it for nothing and posting at most \<open>k\<close> messages.\<close>

definition hooked :: "AppModel ui \<Rightarrow> bool" where
  "hooked s \<longleftrightarrow> Deps_RateMsg (a_deps (ui_model s)) \<and> idle (ui_world s)"

definition posts_of :: "'m ui \<Rightarrow> nat" where
  "posts_of s = posts (w_db (ui_world s))"

definition spends :: "nat \<Rightarrow> AppModel ui \<Rightarrow> AppModel ui \<Rightarrow> bool" where
  "spends k s t \<longleftrightarrow> (hooked s \<longrightarrow> hooked t \<and> ui_rate t = ui_rate s \<and> posts_of t \<le> posts_of s + k)"

text \<open>
  Taking answers off the front of the coming ones, and posting at most one message for each \<open>True\<close> taken,
  unless they are all used up.
\<close>

definition paid :: "AppModel ui \<Rightarrow> AppModel ui \<Rightarrow> bool" where
  "paid s t \<longleftrightarrow> (hooked s \<longrightarrow> hooked t \<and> (\<exists>used. ui_rate s = used @ ui_rate t \<and>
     (ui_rate t = [] \<or> posts_of t \<le> posts_of s + count_list used True)))"

lemma spends_paid: "spends 0 s t \<Longrightarrow> paid s t"
  by (auto simp: spends_def paid_def)

lemma paid_trans:
  assumes "paid s t" and "paid t u"
  shows "paid s u"
  unfolding paid_def
proof
  assume s: "hooked s"
  with assms(1) obtain a where a: "hooked t" "ui_rate s = a @ ui_rate t"
    "ui_rate t = [] \<or> posts_of t \<le> posts_of s + count_list a True"
    by (auto simp: paid_def)
  with assms(2) obtain b where b: "hooked u" "ui_rate t = b @ ui_rate u"
    "ui_rate u = [] \<or> posts_of u \<le> posts_of t + count_list b True"
    by (auto simp: paid_def)
  have "ui_rate u = [] \<or> posts_of u \<le> posts_of s + count_list (a @ b) True" using a b by auto
  with a b show "hooked u \<and> (\<exists>used. ui_rate s = used @ ui_rate u \<and>
      (ui_rate u = [] \<or> posts_of u \<le> posts_of s + count_list used True))"
    by (intro conjI exI [of _ "a @ b"]) simp_all
qed

lemma spends_hub: "moves (spends 0) (hub_op f)"
  by (rule movesI) (auto simp: hub_op_def spends_def hooked_def posts_of_def split: option.splits prod.splits)

lemma spends_fail: "moves (spends k) (fail e)"
  by (simp add: moves_def fail_def spends_def)

lemma spends_hub_calls:
  "moves (spends 0) (hub_PublishRoom r ev)" "moves (spends 0) (hub_PublishUser u ev)"
  "moves (spends 0) (hub_RemoveUserFromRoom u r)" "moves (spends 0) (hub_Unsubscribe x)"
  unfolding hub_PublishRoom_def hub_PublishUser_def hub_RemoveUserFromRoom_def hub_Unsubscribe_def nil_free_def
  by (intro moves_reading moves_if spends_fail spends_hub)+

lemma spends_nil: "moves (spends 0) (\<lambda>s. (Inr (), s\<lparr>ui_nil := f (ui_nil s)\<rparr>))"
  by (simp add: moves_def spends_def hooked_def posts_of_def)

lemma spends_membership:
  "moves (spends 0) (hub_LeaveRoom sub r)" "moves (spends 0) (hub_JoinRoom sub r)"
  by (cases sub; simp add: hub_LeaveRoom_def hub_JoinRoom_def spends_nil spends_hub)+

lemma spends_refl: "spends k s s"
  by (simp add: spends_def)

lemma spends_trans: "spends 0 s t \<Longrightarrow> spends 0 t u \<Longrightarrow> spends 0 s u"
  by (auto simp: spends_def)

interpretation thrifty: session_relation "spends 0"
proof unfold_locales
  show "spends 0 s (s\<lparr>ui_model := m\<rparr>)" if "same_user (ui_model s) m" for s m
    using that by (simp add: same_user_def spends_def hooked_def posts_of_def)
  show "spends 0 s (s\<lparr>ui_world := w\<rparr>)" if "tame_world (ui_world s) w" for s w
    using that by (simp add: tame_world_def tame_db_def spends_def hooked_def posts_of_def)
qed (auto intro: spends_trans spends_refl spends_hub_calls spends_membership)

text \<open>Leaving, kicking and banning post nothing; sending posts one message.\<close>

lemma spends_store:
  assumes "through D m" and "\<And>d d'. D d d' \<Longrightarrow> posts d' \<le> posts d + k"
  shows "moves (spends k) (store_op m)"
  using assms(2)
  by (intro movesI) (auto simp: store_op_def spends_def hooked_def posts_of_def dest: throughD [OF assms(1)] split: prod.splits)

lemma spends_parting: "through (parts_with k) m \<Longrightarrow> moves (spends 0) (store_op m)"
  by (erule spends_store) (simp add: parts_with_def)

lemma spends_seq:
  "moves (spends k) h \<Longrightarrow> (\<And>a. moves (spends 0) (f a)) \<Longrightarrow> moves (spends k) (seq_act h f)"
  "moves (spends 0) h \<Longrightarrow> (\<And>a. moves (spends k) (f a)) \<Longrightarrow> moves (spends k) (seq_act h f)"
  by (rule movesI, erule seq_actE; fastforce simp: spends_def dest: movesD)+

lemma spends_more: "moves (spends 0) h \<Longrightarrow> moves (spends k) h"
  unfolding moves_def spends_def by fastforce

lemma spends_sending:
  "moves (spends 1) (store_op (InsertRoomMessage rid uid body ms))" "moves (spends 1) (store_op (InsertDM uid peer body))"
  by (rule spends_store, rule one_post_through, simp add: one_post_def)+

lemma spends_send:
  "moves (spends 1) (send_to_room X body)" "moves (spends 1) (send_to_peer X body)"
proof -
  have read: "moves (spends 0) (store_op m)" if "through tame_db m" for m
    using that by (rule thrifty.moves_store)
  have quiet: "moves (spends 1) (ok a)" for a by (rule spends_more) (rule thrifty.moves_ok)
  show "moves (spends 1) (send_to_room X body)"
    unfolding send_to_room_def
    by (intro moves_reading moves_case_prod moves_case_sum moves_if quiet spends_seq(2) [OF read] tame_reads
        spends_seq(1) [OF spends_sending(1)] thrifty.moves_ok thrifty.moves_seq spends_hub_calls thrifty.moves_for_all)
  show "moves (spends 1) (send_to_peer X body)"
    unfolding send_to_peer_def
    by (intro moves_reading moves_case_prod moves_case_sum moves_if quiet spends_seq(2) [OF read] tame_reads
        spends_seq(1) [OF spends_sending(2)] thrifty.moves_ok thrifty.moves_seq spends_hub_calls)
qed

text \<open>\<open>sendCurrent\<close> asks the hook first.\<close>

lemma paid_sendCurrent: "moves paid (sendCurrent X body)"
proof (rule movesI)
  fix s r t assume run: "sendCurrent X body s = (r, t)"
  let ?send = "case a_current (ui_model s) of viewRoom \<Rightarrow> send_to_room X (truncated body)
    | viewDM \<Rightarrow> send_to_peer X (truncated body) | viewNone \<Rightarrow> ok NoCmd"
  have send: "moves (spends 1) ?send"
    by (intro moves_case_view spends_send spends_more [OF thrifty.moves_ok])
  show "paid s t"
    unfolding paid_def
  proof
    assume h: "hooked s"
    show "hooked t \<and> (\<exists>used. ui_rate s = used @ ui_rate t \<and> (ui_rate t = [] \<or> posts_of t \<le> posts_of s + count_list used True))"
    proof (cases "ui_rate s")
      case Nil
      then have "?send s = (r, t)"
        using run h by (simp add: sendCurrent_def reading_def seq_act_def call_RateMsg_def hooked_def Let_def)
      from movesD [OF send this] h Nil show ?thesis by (simp add: spends_def)
    next
      case (Cons b bs)
      let ?s = "s\<lparr>ui_rate := bs\<rparr>"
      have s: "hooked ?s" "posts_of ?s = posts_of s" using h by (simp_all add: hooked_def posts_of_def)
      show ?thesis
      proof (cases b)
        case True
        then have "?send ?s = (r, t)"
          using run h Cons by (simp add: sendCurrent_def reading_def seq_act_def call_RateMsg_def hooked_def Let_def)
        from movesD [OF send this] s Cons True show ?thesis
          by (intro conjI exI [of _ "[True]"]) (simp_all add: spends_def)
      next
        case False
        then have "t = ?s"
          using run h Cons by (simp add: sendCurrent_def reading_def seq_act_def call_RateMsg_def hooked_def ok_def)
        with s Cons False show ?thesis by (intro conjI exI [of _ "[False]"]) simp_all
      qed
    qed
  qed
qed

lemma spends_moves: "moves (spends 0) h \<Longrightarrow> moves paid h"
  by (simp add: moves_def spends_paid)

lemma thrifty_rooms:
  "moves (spends 0) (slash_join X args)" "moves (spends 0) (slash_create X args)" "moves (spends 0) (slash_leave X)"
  "moves (spends 0) (slash_remove X cmd args)" "moves (spends 0) quit"
proof -
  note free = spends_membership spends_hub_calls spends_parting
  show "moves (spends 0) (slash_join X args)"
    unfolding slash_join_def by (intro moves_intros through_intros free)
  show "moves (spends 0) (slash_create X args)"
    unfolding slash_create_def by (intro moves_intros through_intros free)
  show "moves (spends 0) (slash_leave X)"
    unfolding slash_leave_def
    by (intro moves_reading moves_case_prod moves_if thrifty.moves_ok thrifty.moves_seq [OF spends_parting [OF leaving_through(1)]])
       (intro moves_intros free; simp add: same_user_def)
  have gone: "moves (spends 0) (store_op (if b then BanFromRoom rid uid me reason else KickFromRoom rid uid))" for b rid uid me reason
    by (rule spends_parting [where k = "(rid, uid)"]) (intro through_if leaving_through)
  show "moves (spends 0) (slash_remove X cmd args)"
    unfolding slash_remove_def
    by (intro moves_reading moves_case_prod moves_if moves_let moves_case_list thrifty.moves_ok thrifty.moves_my_role
        thrifty.moves_named_user thrifty.moves_seq [OF gone]) (intro moves_intros free)+
  have q: "moves (spends 0) (modify (\<lambda>m. m\<lparr>a_hubSub := None\<rparr>))" "moves (spends 0) call_OnDisconnect"
    by (simp_all add: moves_def modify_def call_OnDisconnect_def spends_def hooked_def posts_of_def)
  show "moves (spends 0) quit"
    unfolding quit_def cleanup_def
    by (intro moves_reading moves_case_option moves_if thrifty.moves_ok thrifty.moves_seq free q)
qed

interpretation rated: session_update paid paid
proof unfold_locales
  show "paid s (s\<lparr>ui_model := m\<rparr>)" if "same_user (ui_model s) m" for s m
    using thrifty.model [OF that] by (rule spends_paid)
  show "paid s (s\<lparr>ui_world := w\<rparr>)" if "tame_world (ui_world s) w" for s w
    using thrifty.world [OF that] by (rule spends_paid)
qed (auto intro: paid_trans spends_moves spends_paid [OF spends_refl] spends_hub_calls spends_membership paid_sendCurrent
      thrifty_rooms)

text \<open>A session that handles one message after another.\<close>

fun updates :: "ext \<Rightarrow> msg list \<Rightarrow> AppModel ui \<Rightarrow> AppModel ui" where
  "updates X [] s = s"
| "updates X (msg # msgs) s = updates X msgs (snd (Update X msg s))"

lemma paid_updates: "paid s (updates X msgs s)"
proof (induction msgs arbitrary: s)
  case Nil
  then show ?case by (simp add: spends_paid spends_refl)
next
  case (Cons msg msgs)
  have "paid s (snd (Update X msg s))" using rated.exits_Update by (simp add: moves_def)
  from paid_trans [OF this Cons.IH] show ?case by simp
qed

text \<open>The answers of a bucket to calls at the given times.\<close>

fun answers :: "(rat \<Rightarrow> rat) \<Rightarrow> int list \<Rightarrow> Bucket \<Rightarrow> bool list" where
  "answers fl [] b = []"
| "answers fl (t # ts) b = (case Bucket_Allow fl t b of (r, b') \<Rightarrow> r # answers fl ts b')"

lemma length_answers [simp]: "length (answers fl ts b) = length ts"
  by (induction ts arbitrary: b) (simp_all split: prod.split)

lemma take_answers: "take n (answers fl ts b) = answers fl (take n ts) b"
  by (induction ts arbitrary: b n) (simp_all add: take_Cons' split: prod.split)

lemma count_answers: "count_list (answers fl ts b) True = admitted fl ts b"
  by (induction ts arbitrary: b) (auto split: prod.split)

text \<open>C5. The rate limit holds for everything a session does: from any state, whatever messages, keys and
  events it handles, one after another, it posts at most \<open>c\<close> messages plus \<open>c\<close> for
  every \<open>per\<close> that passes until the last time its limiter was asked, when the limiter's bucket (computing exactly) holds
  \<open>c\<close> tokens per \<open>per\<close> nanoseconds.\<close>

theorem session_posts_are_rated:
  assumes "hooked s" and "0 \<le> c" and "0 < per" and "sorted (t0 # ts)"
    and "ui_rate s = answers (\<lambda>x. x) ts (New (\<lambda>x. x) c per t0)"
    and "updates X msgs s = t" and "ui_rate t \<noteq> []"
  shows "of_nat (posts_of t) \<le> of_nat (posts_of s) +
    (of_int c + of_int c * of_int (last (t0 # take (length ts - length (ui_rate t)) ts) - t0) / of_int per :: rat)"
proof -
  obtain used where u: "ui_rate s = used @ ui_rate t" "posts_of t \<le> posts_of s + count_list used True"
    using paid_updates [of s X msgs] assms(1,6,7) by (auto simp: paid_def)
  let ?n = "length ts - length (ui_rate t)"
  have len: "length (ui_rate s) = length ts" using assms(5) by simp
  then have "length used = ?n" using arg_cong [OF u(1), of length] by simp
  then have "used = answers (\<lambda>x. x) (take ?n ts) (New (\<lambda>x. x) c per t0)"
    using u(1) assms(5) by (simp add: take_answers [symmetric])
  then have used: "count_list used True = admitted (\<lambda>x. x) (take ?n ts) (New (\<lambda>x. x) c per t0)"
    by (simp add: count_answers)
  have "sorted (t0 # take ?n ts)" using assms(4) by (auto dest: in_set_takeD)
  from Bucket_throughput [OF assms(2,3) this] have "of_nat (count_list used True)
      \<le> (of_int c + of_int c * of_int (last (t0 # take ?n ts) - t0) / of_int per :: rat)"
    unfolding used .
  moreover have "(of_nat (posts_of t) :: rat) \<le> of_nat (posts_of s) + of_nat (count_list used True)"
    using u(2) by (metis of_nat_add of_nat_mono)
  ultimately show ?thesis by linarith
qed

text \<open>A user typed \<open>hi\<close> into a direct message; the bucket has two tokens.\<close>

definition hi_session :: "AppModel ui" where
  "hi_session = \<lparr>ui_model = (NewAppModel plain_deps plain_user)\<lparr>a_current := viewDM, a_currentPeerID := 2,
       a_composer := \<lparr>ta_value = ''hi'', ta_focused = True, ta_width = 80\<rparr>\<rparr>,
     ui_world = demo, ui_hub = NewHub, ui_nil = [], ui_rate = answers (\<lambda>x. x) [1, 2, 3] (New (\<lambda>x. x) 2 10000000000 0),
     ui_released = 0\<rparr>"

lemma hi_rate: "ui_rate hi_session = [True, True, False]"
  by (simp add: hi_session_def New_def Bucket_Allow_def Seconds_def quot_def Let_def)

lemma hi_sent: "ui_rate (updates plain_ext [KeyMsg ''enter''] hi_session) = [True, False]"
proof -
  have "trim_space ''hi'' = ''hi''"
    by (simp add: trim_space_def seg_space_def bytes_of_def is_space_def str_of_def char_of_byte decode_rune_ascii)
  then have typed: "SanitizeUserText (trim_space ''hi'') = ''hi''" by (simp add: sanitize_hi)
  obtain m where m: "Update plain_ext (KeyMsg ''enter'') hi_session = sendCurrent plain_ext ''hi'' (hi_session\<lparr>ui_model := m\<rparr>)"
    and d: "Deps_RateMsg (a_deps m)" "a_current m = viewDM"
    using typed
    by (simp add: Update_def update_key_def updateChat_def key_enter_def reading_def seq_act_def modify_def set_value_def
        hi_session_def NewAppModel_def plain_deps_def has_prefix_def)
  let ?s = "hi_session\<lparr>ui_model := m, ui_rate := [True, False]\<rparr>"
  obtain r t where rt: "send_to_peer plain_ext (truncated ''hi'') ?s = (r, t)" by force
  have "sendCurrent plain_ext ''hi'' (hi_session\<lparr>ui_model := m\<rparr>) = (r, t)"
    using d rt hi_rate by (simp add: sendCurrent_def reading_def seq_act_def call_RateMsg_def Let_def)
  moreover have "ui_rate t = [True, False]"
    using movesD [OF spends_send(2) rt] d by (simp add: spends_def hooked_def idle_def hi_session_def)
  ultimately show ?thesis using m by simp
qed

theorem session_posts_are_rated_witness:
  "\<exists>t. updates plain_ext [KeyMsg ''enter''] hi_session = t \<and> ui_rate t \<noteq> [] \<and>
     of_nat (posts_of t) \<le> (of_nat (posts_of hi_session) + (2 + 2 * of_int (1 - 0) / 10000000000) :: rat)"
proof -
  let ?t = "updates plain_ext [KeyMsg ''enter''] hi_session"
  have rest: "ui_rate ?t = [True, False]" by (rule hi_sent)
  have h: "hooked hi_session"
    by (simp add: hooked_def idle_def hi_session_def NewAppModel_def plain_deps_def)
  have a: "ui_rate hi_session = answers (\<lambda>x. x) [1, 2, 3] (New (\<lambda>x. x) 2 10000000000 0)" by (simp add: hi_session_def)
  have "of_nat (posts_of ?t) \<le> (of_nat (posts_of hi_session) + (of_int 2 + of_int 2 *
      of_int (last (0 # take (length [1 :: int, 2, 3] - length (ui_rate ?t)) [1, 2, 3]) - 0) / of_int 10000000000) :: rat)"
    by (rule session_posts_are_rated [OF h _ _ _ a refl]) (simp_all add: rest del: updates.simps)
  then show ?thesis using rest by (intro exI [of _ ?t]) (simp add: rest del: updates.simps)
qed

end
