(* ===== verification/TuiAudience.thy ===== *)
theory TuiAudience
  imports TuiProps TuiMoves
begin

text \<open>
  The audience of a room: whoever the hub sends a room's live events to is a member of the room in the
  database. \<open>stays b M q i\<close> is the relation the handlers of a session keep to when \<open>q\<close> is the only subscription
  of its user \<open>i\<close>: the audience stays right, and so do the memberships \<open>M\<close>.
\<close>

section \<open>The relation\<close>

definition audience :: "Hub \<Rightarrow> database \<Rightarrow> bool" where
  "audience h d \<longleftrightarrow> (\<forall>r x. x \<in> set (subs_at (h_rooms h) r) \<longrightarrow> (r, Sub_UserID x) \<in> member_keys d)"

definition attended :: "'m ui \<Rightarrow> bool" where
  "attended s \<longleftrightarrow> hub_clean s \<and> idle (ui_world s) \<and> audience (ui_hub s) (w_db (ui_world s))"

definition sole :: "bool \<Rightarrow> (int \<times> int) set \<Rightarrow> Sub \<Rightarrow> int \<Rightarrow> AppModel ui \<Rightarrow> bool" where
  "sole b M q i s \<longleftrightarrow> attended s \<and> M \<subseteq> member_keys (w_db (ui_world s)) \<and> a_hubSub (ui_model s) = Some q \<and>
     my_id (ui_model s) = i \<and> q \<in> set (subs_at (h_users (ui_hub s)) i) \<and> (b \<longrightarrow> subs_at (h_users (ui_hub s)) i = [q])"

definition stays :: "bool \<Rightarrow> (int \<times> int) set \<Rightarrow> Sub \<Rightarrow> int \<Rightarrow> AppModel ui \<Rightarrow> AppModel ui \<Rightarrow> bool" where
  "stays b M q i s t \<longleftrightarrow> (sole b M q i s \<longrightarrow> sole b M q i t)"

definition stays_or_quits :: "Sub \<Rightarrow> int \<Rightarrow> AppModel ui \<Rightarrow> AppModel ui \<Rightarrow> bool" where
  "stays_or_quits q i s t \<longleftrightarrow> (sole True {} q i s \<longrightarrow> sole True {} q i t \<or>
     (attended t \<and> a_hubSub (ui_model t) = None \<and> subs_at (h_users (ui_hub t)) i = []))"

lemma audience_rooms:
  "audience h d \<Longrightarrow> (\<And>r. set (subs_at (h_rooms h') r) \<subseteq> set (subs_at (h_rooms h) r)) \<Longrightarrow> member_keys d \<subseteq> member_keys d' \<Longrightarrow>
   audience h' d'"
  unfolding audience_def by blast

lemma stays_trans: "stays b M q i s t \<Longrightarrow> stays b M q i t u \<Longrightarrow> stays b M q i s u"
  by (simp add: stays_def)

text \<open>An operation of the hub that only takes subscriptions out of rooms.\<close>

lemma stays_hub:
  assumes "\<And>h. hub_ok h \<Longrightarrow> \<exists>a h'. f h = Some (a, h') \<and> hub_ok h' \<and> h_users h' = h_users h \<and>
    (\<forall>r. set (subs_at (h_rooms h') r) \<subseteq> set (subs_at (h_rooms h) r))"
  shows "moves (stays b M q i) (hub_op f)"
proof (rule movesI)
  fix s t :: "AppModel ui" and r assume run: "hub_op f s = (r, t)"
  show "stays b M q i s t"
    unfolding stays_def
  proof
    assume s: "sole b M q i s"
    then have "hub_ok (ui_hub s)" by (simp add: sole_def attended_def hub_clean_def)
    then obtain a h' where h': "f (ui_hub s) = Some (a, h')" "hub_ok h'" "h_users h' = h_users (ui_hub s)"
      "\<forall>r. set (subs_at (h_rooms h') r) \<subseteq> set (subs_at (h_rooms (ui_hub s)) r)"
      using assms by blast
    then have "t = s\<lparr>ui_hub := h'\<rparr>" using run by (simp add: hub_op_def)
    with s h' show "sole b M q i t"
      by (auto simp: sole_def attended_def hub_clean_def intro: audience_rooms)
  qed
qed

lemma stays_nil_free: "(\<And>h. \<not> touched [] h) \<Longrightarrow> moves (stays b M q i) h \<Longrightarrow> moves (stays b M q i) (nil_free touched h)"
  by (auto simp: moves_def nil_free_def reading_def stays_def sole_def attended_def hub_clean_def fail_def)

lemma stays_publish:
  "moves (stays b M q i) (hub_PublishRoom r ev)" "moves (stays b M q i) (hub_PublishUser u ev)"
proof -
  have "hub_ok h \<Longrightarrow> \<exists>h'. PublishRoom r ev h = Some h' \<and> hub_ok h' \<and> same_maps h h'" for h
    by (rule PublishRoom_ok) auto
  then have "hub_ok h \<Longrightarrow> \<exists>a h'. map_option (Pair ()) (PublishRoom r ev h) = Some (a, h') \<and> hub_ok h' \<and> h_users h' = h_users h \<and>
      (\<forall>r. set (subs_at (h_rooms h') r) \<subseteq> set (subs_at (h_rooms h) r))" for h
    by (fastforce simp: same_maps_def)
  then show "moves (stays b M q i) (hub_PublishRoom r ev)"
    unfolding hub_PublishRoom_def by (intro stays_nil_free stays_hub) simp_all
  have "hub_ok h \<Longrightarrow> \<exists>h'. PublishUser u ev h = Some h' \<and> hub_ok h' \<and> same_maps h h'" for h
    by (rule PublishUser_ok) auto
  then have "hub_ok h \<Longrightarrow> \<exists>a h'. map_option (Pair ()) (PublishUser u ev h) = Some (a, h') \<and> hub_ok h' \<and> h_users h' = h_users h \<and>
      (\<forall>r. set (subs_at (h_rooms h') r) \<subseteq> set (subs_at (h_rooms h) r))" for h
    by (fastforce simp: same_maps_def)
  then show "moves (stays b M q i) (hub_PublishUser u ev)"
    unfolding hub_PublishUser_def by (intro stays_hub) simp_all
qed

lemma stays_LeaveRoom: "moves (stays b M q i) (hub_LeaveRoom sub r)"
proof (cases sub)
  case None
  then show ?thesis
    by (simp add: hub_LeaveRoom_def moves_def stays_def sole_def attended_def hub_clean_def)
next
  case (Some x)
  have "hub_ok (LeaveRoom x r h) \<and> h_users (LeaveRoom x r h) = h_users h \<and>
      (\<forall>j. set (subs_at (h_rooms (LeaveRoom x r h)) j) \<subseteq> set (subs_at (h_rooms h) j))" if "hub_ok h" for h
    using LeaveRoom_ok [OF that] by (auto simp: LeaveRoom_def)
  then show ?thesis
    unfolding Some hub_LeaveRoom_def option.case by (intro stays_hub) simp
qed

lemma stays_world:
  assumes "sole b M q i s" and "idle w" and "member_keys (w_db (ui_world s)) \<subseteq> member_keys (w_db w)"
  shows "sole b M q i (s\<lparr>ui_world := w\<rparr>)"
  using assms by (auto simp: sole_def attended_def hub_clean_def audience_def)

interpretation audience: session_relation "stays b M q i" for b M q i
proof unfold_locales
  show "stays b M q i s (s\<lparr>ui_model := m\<rparr>)" if "same_user (ui_model s) m" for b M q i s m
    using that by (simp add: same_user_def stays_def sole_def attended_def hub_clean_def)
  show "stays b M q i s (s\<lparr>ui_world := w\<rparr>)" if "tame_world (ui_world s) w" for b M q i s w
    using that unfolding stays_def tame_world_def tame_db_def
    by (intro impI stays_world) (auto simp: sole_def attended_def)
qed (auto simp: stays_publish stays_LeaveRoom, auto simp: stays_def)

section \<open>Posting, joining, leaving\<close>

lemma stays_store:
  assumes "through keeps_members m"
  shows "moves (stays b M q i) (store_op m)"
proof (rule movesI)
  fix s t :: "AppModel ui" and r assume run: "store_op m s = (r, t)"
  obtain a w where m: "m (ui_world s) = (a, w)" by force
  with run have t: "t = s\<lparr>ui_world := w\<rparr>" by (simp add: store_op_def)
  show "stays b M q i s t"
    using throughD [OF assms m] unfolding stays_def t keeps_members_def
    by (intro impI stays_world) (simp_all add: sole_def attended_def)
qed

lemma stays_sendCurrent: "moves (stays b M q i) (sendCurrent X body)"
proof -
  have "moves (stays b M q i) call_RateMsg"
    by (rule movesI) (auto simp: call_RateMsg_def stays_def sole_def attended_def hub_clean_def split: list.splits)
  then show ?thesis
    unfolding sendCurrent_def send_to_room_def send_to_peer_def
    by (intro moves_intros stays_store through_intros tame_keeps_members)
qed

text \<open>What a handler reads of the model, and what a successful call has established.\<close>

lemma stays_reading:
  "(\<And>s. sole b M q i s \<Longrightarrow> moves (stays b M q i) (k (f s))) \<Longrightarrow> moves (stays b M q i) (reading f k)"
  unfolding moves_def reading_def stays_def by blast

lemma sole_reads: "sole b M q i s \<Longrightarrow> a_hubSub (ui_model s) = Some q \<and> my_id (ui_model s) = i"
  by (simp add: sole_def)

lemma stays_then:
  assumes "moves (stays b M q i) (store_op m)"
    and "\<And>a w w'. m w = (Inr a, w') \<Longrightarrow> member (w_db w') (r a) i"
    and "\<And>e. moves (stays b M q i) (f (Inl e))"
    and "\<And>a. moves (stays b (insert (r a, i) M) q i) (f (Inr a))"
  shows "moves (stays b M q i) (seq_act (store_op m) f)"
proof (rule movesI, erule seq_actE)
  fix s t :: "AppModel ui" and x s' c assume run: "store_op m s = (Inr x, s')" "f x s' = (c, t)"
  show "stays b M q i s t"
    unfolding stays_def
  proof
    assume s: "sole b M q i s"
    have s': "sole b M q i s'" using movesD [OF assms(1) run(1)] s by (simp add: stays_def)
    show "sole b M q i t"
    proof (cases x)
      case (Inl e)
      with s' run(2) movesD [OF assms(3)] show ?thesis by (auto simp: stays_def)
    next
      case (Inr a)
      then have "m (ui_world s) = (Inr a, ui_world s')" using run(1) by (auto simp: store_op_def split: prod.splits)
      then have "sole b (insert (r a, i) M) q i s'" using s' assms(2) by (auto simp: sole_def member_iff)
      with Inr run(2) movesD [OF assms(4)] have "sole b (insert (r a, i) M) q i t" by (auto simp: stays_def)
      then show ?thesis by (simp add: sole_def)
    qed
  qed
qed (auto simp: store_op_def split: prod.splits)

lemma stays_JoinRoom:
  assumes "(r, i) \<in> M"
  shows "moves (stays b M q i) (hub_JoinRoom (Some q) r)"
proof (rule movesI)
  fix s t :: "AppModel ui" and c assume run: "hub_JoinRoom (Some q) r s = (c, t)"
  then have t: "t = s\<lparr>ui_hub := JoinRoom q r (ui_hub s)\<rparr>" by (simp add: hub_JoinRoom_def hub_op_def)
  show "stays b M q i s t"
    unfolding stays_def
  proof
    assume s: "sole b M q i s"
    then have ok: "hub_ok (ui_hub s)" and q: "q \<in> set (subs_at (h_users (ui_hub s)) i)"
      by (simp_all add: sole_def attended_def hub_clean_def)
    then have q': "live (ui_hub s) q" "Sub_UserID q = i" using users_live [of "ui_hub s" q i] by (simp_all add: hub_ok_def)
    have "audience (JoinRoom q r (ui_hub s)) (w_db (ui_world s))"
      using s assms q' by (auto simp: sole_def attended_def audience_def JoinRoom_def)
    with s JoinRoom_ok [OF ok q'(1)] show "sole b M q i t"
      by (simp add: t sole_def attended_def hub_clean_def) (simp add: JoinRoom_def)
  qed
qed

lemma stays_reading_me:
  "moves (stays b M q i) (k i (Some q)) \<Longrightarrow>
   moves (stays b M q i) (reading_model (\<lambda>m. (my_id m, a_hubSub m)) (\<lambda>(me, sub). k me sub))"
  by (rule stays_reading) (simp add: sole_reads)

lemma stays_join: "moves (stays b M q i) (slash_join X args)"
proof -
  have enter: "moves (stays b M q i) (seq_act (store_op (Store_JoinRoom rid i)) (\<lambda>r.
      case r of Inl e \<Rightarrow> complain (Error X e)
      | Inr _ \<Rightarrow> next_act refreshRooms (next_act (hub_JoinRoom (Some q) rid) (next_act (publish_meta rid)
          (next_act (openRoom X rid) (say said))))))" for rid said
  proof (rule stays_then [where r = "\<lambda>_. rid"])
    show "moves (stays b (insert (rid, i) M) q i) (case Inr a of Inl e \<Rightarrow> complain (Error X e)
      | Inr _ \<Rightarrow> next_act refreshRooms (next_act (hub_JoinRoom (Some q) rid) (next_act (publish_meta rid)
          (next_act (openRoom X rid) (say said)))))" for a :: unit
      by (simp, intro moves_intros stays_JoinRoom insertI1)
  qed (simp_all add: Store_JoinRoom_member audience.moves_ok audience.moves_store tame_writes)
  show ?thesis
    unfolding slash_join_def Let_def
    by (intro moves_case_list moves_if audience.moves_ok audience.moves_seq audience.moves_store tame_reads moves_case_sum
        stays_reading_me enter)
qed

lemma stays_create: "moves (stays b M q i) (slash_create X args)"
proof -
  have enter: "moves (stays b M q i) (seq_act (store_op (CreateRoom name priv i)) (\<lambda>r.
      case r of Inl e \<Rightarrow> complain (Error X e)
      | Inr room \<Rightarrow> next_act refreshRooms (next_act (hub_JoinRoom (Some q) (Room_ID room))
          (next_act (openRoom X (Room_ID room)) (say said)))))" for name priv said
  proof (rule stays_then [where r = Room_ID])
    show "moves (stays b (insert (Room_ID a, i) M) q i) (case Inr a of Inl e \<Rightarrow> complain (Error X e)
      | Inr room \<Rightarrow> next_act refreshRooms (next_act (hub_JoinRoom (Some q) (Room_ID room))
          (next_act (openRoom X (Room_ID room)) (say said))))" for a
      by (simp, intro moves_intros stays_JoinRoom insertI1)
  qed (simp_all add: CreateRoom_member audience.moves_ok audience.moves_store tame_writes)
  show ?thesis
    unfolding slash_create_def Let_def
    by (intro moves_case_list moves_if audience.moves_ok audience.moves_seq audience.moves_store tame_reads moves_case_sum
        stays_reading_me enter)
qed

text \<open>
  A call that takes \<open>u\<close> out of the room \<open>rid\<close>, followed by an operation of the hub that takes all of \<open>u\<close>'s
  subscriptions out of it.
\<close>

lemma stays_drop:
  assumes m: "through (parts_with (rid, u)) m"
    and hop: "\<And>s. hub_clean s \<Longrightarrow> subs_at (h_users (ui_hub s)) i = [q] \<Longrightarrow>
      \<exists>h. hop s = (Inr (), s\<lparr>ui_hub := h\<rparr>) \<and> hub_ok h \<and> h_users h = h_users (ui_hub s) \<and>
        (\<forall>j. set (subs_at (h_rooms h) j) \<subseteq> set (subs_at (h_rooms (ui_hub s)) j)) \<and>
        (\<forall>x \<in> set (subs_at (h_rooms h) rid). Sub_UserID x \<noteq> u)"
    and k: "moves (stays True {} q i) k"
  shows "moves (stays True {} q i) (next_act (store_op m) (next_act hop k))"
proof (rule movesI)
  fix s t :: "AppModel ui" and r assume run: "next_act (store_op m) (next_act hop k) s = (r, t)"
  show "stays True {} q i s t"
    unfolding stays_def
  proof
    assume s: "sole True {} q i s"
    obtain a w where mw: "m (ui_world s) = (a, w)" by force
    let ?s = "s\<lparr>ui_world := w\<rparr>"
    have w: "idle w" "member_keys (w_db (ui_world s)) - {(rid, u)} \<subseteq> member_keys (w_db w)"
      using throughD [OF m mw] s by (simp_all add: sole_def attended_def parts_with_def)
    obtain h where h: "hop ?s = (Inr (), ?s\<lparr>ui_hub := h\<rparr>)" "hub_ok h" "h_users h = h_users (ui_hub s)"
      "\<forall>j. set (subs_at (h_rooms h) j) \<subseteq> set (subs_at (h_rooms (ui_hub s)) j)"
      "\<forall>x \<in> set (subs_at (h_rooms h) rid). Sub_UserID x \<noteq> u"
      using hop [of ?s] s by (auto simp: sole_def attended_def hub_clean_def)
    have "audience h (w_db w)"
      unfolding audience_def
    proof (intro allI impI)
      fix j x assume x: "x \<in> set (subs_at (h_rooms h) j)"
      then have "(j, Sub_UserID x) \<in> member_keys (w_db (ui_world s))"
        using h(4) s by (auto simp: sole_def attended_def audience_def)
      moreover have "(j, Sub_UserID x) \<noteq> (rid, u)" using x h(5) by auto
      ultimately show "(j, Sub_UserID x) \<in> member_keys (w_db w)" using w(2) by blast
    qed
    then have "sole True {} q i (?s\<lparr>ui_hub := h\<rparr>)"
      using s w(1) h(2,3) by (simp add: sole_def attended_def hub_clean_def)
    moreover have "k (?s\<lparr>ui_hub := h\<rparr>) = (r, t)"
      using run mw h(1) by (simp add: seq_act_def store_op_def)
    ultimately show "sole True {} q i t" using movesD [OF k] by (auto simp: stays_def)
  qed
qed

text \<open>The user's own leaving: its only subscription leaves the room.\<close>

lemma stays_leave: "moves (stays True {} q i) (slash_leave X)"
proof -
  have drop: "\<exists>h. hub_LeaveRoom (Some q) rid s = (Inr (), s\<lparr>ui_hub := h\<rparr>) \<and> hub_ok h \<and> h_users h = h_users (ui_hub s) \<and>
        (\<forall>j. set (subs_at (h_rooms h) j) \<subseteq> set (subs_at (h_rooms (ui_hub s)) j)) \<and>
        (\<forall>x \<in> set (subs_at (h_rooms h) rid). Sub_UserID x \<noteq> i)"
    if s: "hub_clean s" "subs_at (h_users (ui_hub s)) i = [q]" for s :: "AppModel ui" and rid
  proof -
    have ok: "hub_ok (ui_hub s)" using s by (simp add: hub_clean_def)
    have "x = q" if "x \<in> set (subs_at (h_rooms (ui_hub s)) rid)" "Sub_UserID x = i" for x
      using rooms_live [of "ui_hub s" x rid] ok that s(2) by (auto simp: hub_ok_def live_def)
    then have "\<forall>x \<in> set (subs_at (h_rooms (LeaveRoom q rid (ui_hub s))) rid). Sub_UserID x \<noteq> i"
      by (auto simp: LeaveRoom_def)
    with LeaveRoom_ok [OF ok] show ?thesis
      by (intro exI [of _ "LeaveRoom q rid (ui_hub s)"]) (auto simp: hub_LeaveRoom_def hub_op_def LeaveRoom_def)
  qed
  have rest: "moves (stays True {} q i) (next_act refreshRooms (reading_model a_rooms (\<lambda>rs.
       next_act (case rs of r # _ \<Rightarrow> openRoom X (Room_ID r) | [] \<Rightarrow> modify (\<lambda>m. m\<lparr>a_current := viewNone\<rparr>)) (
       next_act (publish_meta rid) (say ''left room'')))))" for rid
    by (intro moves_intros) (simp_all add: same_user_def)
  show ?thesis
    unfolding slash_leave_def
  proof (rule stays_reading)
    fix s assume "sole True {} q i s"
    then have me: "my_id (ui_model s) = i" "a_hubSub (ui_model s) = Some q" by (simp_all add: sole_reads)
    show "moves (stays True {} q i) (case (a_current (ui_model s), a_currentRoomID (ui_model s), my_id (ui_model s), a_hubSub (ui_model s)) of
       (cur, rid, me, sub) \<Rightarrow> if cur \<noteq> viewRoom then complain ''not in a room''
       else next_act (store_op (Store_LeaveRoom rid me)) (next_act (hub_LeaveRoom sub rid) (next_act refreshRooms (
         reading_model a_rooms (\<lambda>rs.
         next_act (case rs of r # _ \<Rightarrow> openRoom X (Room_ID r) | [] \<Rightarrow> modify (\<lambda>m. m\<lparr>a_current := viewNone\<rparr>)) (
         next_act (publish_meta rid) (say ''left room'')))))))"
      unfolding me prod.case
      by (intro moves_if audience.moves_ok stays_drop [OF leaving_through(1) drop rest])
  qed
qed

lemma stays_remove: "moves (stays True {} q i) (slash_remove X cmd args)"
proof -
  have drop: "\<exists>h. hub_RemoveUserFromRoom u rid s = (Inr (), s\<lparr>ui_hub := h\<rparr>) \<and> hub_ok h \<and> h_users h = h_users (ui_hub s) \<and>
        (\<forall>j. set (subs_at (h_rooms h) j) \<subseteq> set (subs_at (h_rooms (ui_hub s)) j)) \<and>
        (\<forall>x \<in> set (subs_at (h_rooms h) rid). Sub_UserID x \<noteq> u)"
    if s: "hub_clean s" for s :: "AppModel ui" and u rid
  proof -
    obtain h where "RemoveUserFromRoom u rid (ui_hub s) = Some h" "hub_ok h" "h_users h = h_users (ui_hub s)"
      "\<And>j. subs_at (h_rooms h) j = (if j = rid then filter (\<lambda>x. Sub_UserID x \<noteq> u) (subs_at (h_rooms (ui_hub s)) rid)
         else subs_at (h_rooms (ui_hub s)) j)"
      using s by (auto simp: hub_clean_def intro: RemoveUserFromRoom_ok)
    with s show ?thesis
      by (intro exI [of _ h]) (auto simp: hub_RemoveUserFromRoom_def nil_free_def reading_def hub_op_def hub_clean_def)
  qed
  have gone: "through (parts_with (rid, u)) (if k then BanFromRoom rid u me reason else KickFromRoom rid u)" for k rid u me reason
    by (intro through_if leaving_through)
  show ?thesis
    unfolding slash_remove_def Let_def
    by (intro moves_reading moves_case_prod moves_if moves_case_list audience.moves_ok audience.moves_my_role
        audience.moves_named_user stays_drop [OF gone drop] audience.moves_seq audience.moves_publish_meta)
qed

lemma quits: "moves (stays_or_quits q i) quit"
proof (rule movesI)
  fix s t and r assume run: "quit s = (r, t)"
  show "stays_or_quits q i s t"
    unfolding stays_or_quits_def
  proof
    assume s: "sole True {} q i s"
    then have ok: "hub_ok (ui_hub s)" and q: "q \<in> set (subs_at (h_users (ui_hub s)) i)"
      by (simp_all add: sole_def attended_def hub_clean_def)
    then have "live (ui_hub s) q" using users_live [of "ui_hub s" q i] by (simp add: hub_ok_def)
    with ok obtain h where h: "Unsubscribe q (ui_hub s) = Some h" "hub_ok h"
      "\<And>r. subs_at (h_rooms h) r = removeAll q (subs_at (h_rooms (ui_hub s)) r)"
      "\<And>v. subs_at (h_users h) v = removeAll q (subs_at (h_users (ui_hub s)) v)"
      by (rule Unsubscribe_ok) blast
    then have "audience h (w_db (ui_world s))" using s by (auto simp: sole_def attended_def audience_def)
    with s h run have "attended t \<and> a_hubSub (ui_model t) = None \<and> subs_at (h_users (ui_hub t)) i = []"
      by (auto simp: quit_def cleanup_def reading_def seq_act_def hub_Unsubscribe_def nil_free_def hub_op_def modify_def
          call_OnDisconnect_def ok_def sole_def attended_def hub_clean_def split: if_splits)
    then show "sole True {} q i t \<or> attended t \<and> a_hubSub (ui_model t) = None \<and> subs_at (h_users (ui_hub t)) i = []" ..
  qed
qed

interpretation rooms: session_update "stays True {} q i" "stays_or_quits q i" for q i
  by unfold_locales
     (auto simp: stays_sendCurrent stays_join stays_create stays_leave stays_remove quits stays_def stays_or_quits_def)

section \<open>Two sessions of one user\<close>

text \<open>
  The relation the rest of \<^verbatim>\<open>/leave\<close> keeps to: the subscription \<open>x\<close> is in the room, its user is not
  a member.
\<close>

definition forgotten :: "Sub \<Rightarrow> int \<Rightarrow> AppModel ui \<Rightarrow> bool" where
  "forgotten x rid s \<longleftrightarrow> hub_clean s \<and> idle (ui_world s) \<and> x \<in> set (subs_at (h_rooms (ui_hub s)) rid) \<and>
     \<not> member (w_db (ui_world s)) rid (Sub_UserID x)"

definition forgets :: "Sub \<Rightarrow> int \<Rightarrow> AppModel ui \<Rightarrow> AppModel ui \<Rightarrow> bool" where
  "forgets x rid s t \<longleftrightarrow> (forgotten x rid s \<longrightarrow> forgotten x rid t)"

interpretation forgetting: run_relation "forgets x rid" for x rid
  by unfold_locales (simp_all add: forgets_def)

lemma forgets_store:
  assumes "through (\<lambda>d d'. room_members d' = room_members d) m"
  shows "moves (forgets x rid) (store_op m)"
proof (rule movesI)
  fix s t :: "AppModel ui" and r assume run: "store_op m s = (r, t)"
  obtain a w where m: "m (ui_world s) = (a, w)" by force
  with run have "t = s\<lparr>ui_world := w\<rparr>" by (simp add: store_op_def)
  then show "forgets x rid s t"
    using throughD [OF assms m] by (auto simp: forgets_def forgotten_def hub_clean_def member_def)
qed

lemma forgets_modify: "moves (forgets x rid) (modify f)"
  by (simp add: moves_def modify_def forgets_def forgotten_def hub_clean_def)

lemma same_members_read: "frames core m \<Longrightarrow> through (\<lambda>d d'. room_members d' = room_members d) m"
  unfolding through_def frames_def by (simp add: core_eq idle_def)

lemma same_members_MarkRoomRead: "through (\<lambda>d d'. room_members d' = room_members d) (MarkRoomRead uid rid)"
proof (rule through_runI [OF methods_idle(21)])
  fix w r w' assume "MarkRoomRead uid rid w = (r, w')"
  then have "exec_stmt (update_notifications (\<lambda>n. n_user_id n = uid \<and> n_room_id n = Some rid \<and> n_read_at n = None) (w_clock w)) w = (r, w')"
    by (simp add: MarkRoomRead_def now_seq)
  from exec_stmt_db [OF this] show "room_members (w_db w') = room_members (w_db w)"
  proof
    assume "\<exists>a. update_notifications (\<lambda>n. n_user_id n = uid \<and> n_room_id n = Some rid \<and> n_read_at n = None) (w_clock w) (w_db w) = Inr (a, w_db w')"
    then obtain xs where "(w_db w)\<lparr>notifications := xs\<rparr> = w_db w'" by (elim exE) (simp add: update_notifications_def)
    from arg_cong [where f = room_members, OF this] show ?thesis by simp
  qed simp
qed

lemma forgets_publish: "moves (forgets x rid) (hub_PublishRoom r ev)"
proof (rule movesI)
  fix s t :: "AppModel ui" and c assume run: "hub_PublishRoom r ev s = (c, t)"
  show "forgets x rid s t"
    unfolding forgets_def
  proof
    assume s: "forgotten x rid s"
    then have ok: "hub_ok (ui_hub s)" "ui_nil s = []" by (simp_all add: forgotten_def hub_clean_def)
    obtain h where "PublishRoom r ev (ui_hub s) = Some h" "same_maps (ui_hub s) h" "hub_ok h"
      by (rule PublishRoom_ok [OF ok(1)])
    with run s ok show "forgotten x rid t"
      by (auto simp: hub_PublishRoom_def nil_free_def reading_def hub_op_def forgotten_def hub_clean_def same_maps_def)
  qed
qed

lemma forgets_refreshes: "moves (forgets x rid) refreshRooms" "moves (forgets x rid) (openRoom X r)"
proof -
  note reads = reads_frame [THEN same_members_read, THEN forgets_store]
  show "moves (forgets x rid) refreshRooms"
    unfolding refreshRooms_def by (intro moves_intros reads forgets_modify)
  show "moves (forgets x rid) (openRoom X r)"
    unfolding openRoom_def set_history_def refreshMembers_def renderHistory_def
    by (intro moves_intros reads forgets_modify forgets_store same_members_MarkRoomRead)
qed

text \<open>C36. Why the audience needs it: \<^verbatim>\<open>/leave\<close> takes only the session it is typed in out of the room. When the
  same user has another session in the room, that one goes on receiving the room's live messages although
  the user is no longer a member.\<close>

theorem leave_misses_other_sessions:
  assumes "hub_clean s" and "quiet (ui_world s)" and "idle (ui_world s)" and "a_current (ui_model s) = viewRoom"
    and "a_hubSub (ui_model s) = Some q" and "x \<noteq> q" and "Sub_UserID x = my_id (ui_model s)"
    and "x \<in> set (subs_at (h_rooms (ui_hub s)) (a_currentRoomID (ui_model s)))"
    and "slash_leave X s = (r, t)"
  shows "x \<in> set (subs_at (h_rooms (ui_hub t)) (a_currentRoomID (ui_model s))) \<and>
    \<not> member (w_db (ui_world t)) (a_currentRoomID (ui_model s)) (Sub_UserID x)"
proof -
  let ?rid = "a_currentRoomID (ui_model s)" and ?me = "my_id (ui_model s)"
  let ?w = "(ui_world s)\<lparr>w_db := (w_db (ui_world s))\<lparr>room_members :=
      filter (\<lambda>m. member_key m \<noteq> (?rid, ?me)) (room_members (w_db (ui_world s)))\<rparr>\<rparr>"
  let ?s = "s\<lparr>ui_world := ?w, ui_hub := LeaveRoom q ?rid (ui_hub s)\<rparr>"
  let ?rest = "next_act refreshRooms (reading_model a_rooms (\<lambda>rs.
       next_act (case rs of r # _ \<Rightarrow> openRoom X (Room_ID r) | [] \<Rightarrow> modify (\<lambda>m. m\<lparr>a_current := viewNone\<rparr>)) (
       next_act (publish_meta ?rid) (say ''left room''))))"
  have left: "store_op (Store_LeaveRoom ?rid ?me) s = (Inr (Inr ()), s\<lparr>ui_world := ?w\<rparr>)"
    using assms(2) by (simp add: store_op_def Store_LeaveRoom_def quiet_exec delete_member_def)
  have gone: "hub_LeaveRoom (Some q) ?rid (s\<lparr>ui_world := ?w\<rparr>) = (Inr (), ?s)"
    by (simp add: hub_LeaveRoom_def hub_op_def)
  have rest: "?rest ?s = (r, t)"
    using assms(4,5,9) by (simp add: slash_leave_def reading_app seq_act_Inr [where m = "store_op (Store_LeaveRoom i j)" for i j, OF left]
        seq_act_Inr [where m = "hub_LeaveRoom (Some q) j" for j, OF gone])
  have s0: "forgotten x ?rid ?s"
    using assms by (auto simp: forgotten_def hub_clean_def LeaveRoom_ok member_def idle_def) (simp_all add: LeaveRoom_def)
  have mv: "moves (forgets x ?rid) ?rest"
    unfolding publish_meta_def by (intro moves_intros forgets_refreshes forgets_modify forgets_publish)
  have "forgets x ?rid ?s t" by (rule movesD [OF mv rest])
  with s0 show ?thesis by (simp add: forgets_def forgotten_def)
qed

text \<open>Bob (user 2) has two sessions in room 1 and types \<^verbatim>\<open>/leave\<close> in the second.\<close>

definition bob_sub :: "nat \<Rightarrow> Sub" where
  "bob_sub k = \<lparr>Sub_ID = k, Sub_UserID = 2\<rparr>"

definition bob_hub :: Hub where
  "bob_hub = JoinRoom (bob_sub 1) 1 (JoinRoom (bob_sub 0) 1 (snd (the (Subscribe 2 (snd (the (Subscribe 2 NewHub)))))))"

definition bob_leaving :: "AppModel ui" where
  "bob_leaving = \<lparr>ui_model = (NewAppModel plain_deps (plain_user\<lparr>User_ID := 2\<rparr>))
       \<lparr>a_current := viewRoom, a_currentRoomID := 1, a_hubSub := Some (bob_sub 1)\<rparr>,
     ui_world = demo, ui_hub = bob_hub, ui_nil = [], ui_rate = [], ui_released = 0\<rparr>"

lemma bob_hub_ok: "hub_ok bob_hub" "bob_sub 0 \<in> set (subs_at (h_rooms bob_hub) 1)"
proof -
  note defs = Subscribe_def NewHub_def subs_at_def count_at_def Let_def broadcastPresence_def bob_sub_def live_def
  let ?h1 = "snd (the (Subscribe 2 NewHub))"
  let ?h2 = "snd (the (Subscribe 2 ?h1))"
  have "Subscribe 2 NewHub = Some (bob_sub 0, ?h1)" by (simp add: defs)
  then have r1: "hub_reach ?h1" by (rule hub_reach.subscribe [OF hub_reach.init])
  have "Subscribe 2 ?h1 = Some (bob_sub 1, ?h2)" by (simp add: defs)
  then have r2: "hub_reach ?h2" by (rule hub_reach.subscribe [OF r1])
  have live: "live ?h2 (bob_sub 0)" "live ?h2 (bob_sub 1)" by (simp_all add: defs)
  have r3: "hub_reach (JoinRoom (bob_sub 0) 1 ?h2)" by (rule hub_reach.join [OF r2 live(1)])
  have "live (JoinRoom (bob_sub 0) 1 ?h2) (bob_sub 1)" using live(2) by (simp add: live_def JoinRoom_def)
  then have "hub_reach bob_hub" unfolding bob_hub_def by (rule hub_reach.join [OF r3])
  then show "hub_ok bob_hub" by (rule hub_reach_ok)
  show "bob_sub 0 \<in> set (subs_at (h_rooms bob_hub) 1)"
    by (simp add: bob_hub_def JoinRoom_def defs)
qed

theorem leave_misses_other_sessions_witness:
  "\<exists>r t. slash_leave plain_ext bob_leaving = (r, t) \<and> bob_sub 0 \<in> set (subs_at (h_rooms (ui_hub t)) 1) \<and>
     member (w_db (ui_world bob_leaving)) 1 2 \<and> \<not> member (w_db (ui_world t)) 1 2"
proof -
  have s: "hub_clean bob_leaving" "quiet (ui_world bob_leaving)" "idle (ui_world bob_leaving)"
    "a_current (ui_model bob_leaving) = viewRoom" "a_hubSub (ui_model bob_leaving) = Some (bob_sub 1)"
    "a_currentRoomID (ui_model bob_leaving) = 1" "my_id (ui_model bob_leaving) = 2" "ui_hub bob_leaving = bob_hub"
    by (simp_all add: bob_leaving_def hub_clean_def bob_hub_ok idle_def NewAppModel_def)
  obtain r t where run: "slash_leave plain_ext bob_leaving = (r, t)" by force
  have "bob_sub 0 \<noteq> bob_sub 1" "Sub_UserID (bob_sub 0) = my_id (ui_model bob_leaving)"
    "bob_sub 0 \<in> set (subs_at (h_rooms (ui_hub bob_leaving)) (a_currentRoomID (ui_model bob_leaving)))"
    by (simp_all add: s bob_hub_ok) (simp_all add: bob_sub_def)
  from leave_misses_other_sessions [OF s(1-5) this run]
  have "bob_sub 0 \<in> set (subs_at (h_rooms (ui_hub t)) 1)" "\<not> member (w_db (ui_world t)) 1 2"
    by (simp_all add: s) (simp add: bob_sub_def)
  moreover have "member (w_db (ui_world bob_leaving)) 1 2"
    by (simp add: bob_leaving_def member_def member_key_def member_of_def)
  ultimately show ?thesis using run by blast
qed

end
