(* ===== verification/ProcessAudience.thy ===== *)
theory ProcessAudience
  imports TuiAudience TuiProcess
begin

text \<open>
  The audience of the rooms in the whole process: connecting, registering, the handlers of all sessions,
  drawing, the admin command and the environment keep it, as long as no user has two sessions at the
  same time.
\<close>

section \<open>Connecting\<close>

text \<open>The model's list of rooms, which the session subscribes to when it starts.\<close>

definition same_rooms :: "AppModel ui \<Rightarrow> AppModel ui \<Rightarrow> bool" where
  "same_rooms s t \<longleftrightarrow> a_rooms (ui_model t) = a_rooms (ui_model s)"

interpretation listing: run_relation same_rooms
  by unfold_locales (simp_all add: same_rooms_def)





definition outside :: "(int \<times> int) set \<Rightarrow> int \<Rightarrow> AppModel ui \<Rightarrow> bool" where
  "outside M i s \<longleftrightarrow> attended s \<and> M \<subseteq> member_keys (w_db (ui_world s)) \<and> a_hubSub (ui_model s) = None \<and> my_id (ui_model s) = i"


definition enters :: "(int \<times> int) set \<Rightarrow> int \<Rightarrow> AppModel ui \<Rightarrow> AppModel ui \<Rightarrow> bool" where
  "enters M i s t \<longleftrightarrow> (outside M i s \<longrightarrow> outside M i t)"

interpretation entering: run_relation "enters M i" for M i
  by unfold_locales (simp_all add: enters_def)




















section \<open>A session\<close>


lemma attended_model [simp]: "attended (with_model n s) = attended s"
  by (simp add: attended_def)



















section \<open>The store's other clients\<close>









section \<open>The process\<close>

















end
