(* ===== verification/Spec2Isabelle.thy ===== *)
theory Spec2Isabelle
  imports HubRace StoreReads SshProps AdminProps TuiProps Startup SessionRate ProcessAudience
begin

text \<open>
  terminal-social: a chat server whose users log in over SSH. A verification development of its Go code.

  \<^bold>\<open>The program.\<close> \<^verbatim>\<open>internal/ssh\<close> admits connections (rate limit per address, capacity) and gives each
  session a model of \<^verbatim>\<open>internal/tui\<close>: the registration form, the suspension notice or the main model.
  A model handles one message at a time (keys, hub events, ticks); its handlers call the store
  (\<^verbatim>\<open>internal/store\<close>, SQL over SQLite) and the hub (\<^verbatim>\<open>internal/hub\<close>, publish/subscribe between the
  sessions of the process). \<^verbatim>\<open>internal/domain\<close> has the types, the name rules and the sanitizer,
  \<^verbatim>\<open>internal/rate\<close> the token buckets, \<^verbatim>\<open>internal/auth\<close> the fingerprints, \<^verbatim>\<open>internal/config\<close> the settings,
  \<^verbatim>\<open>cmd/tsocial-admin\<close> the maintenance command.

  \<^bold>\<open>The theories\<close>, in the order of the code's dependencies:

  \<^item> Prelude: actions that may fail (\<open>act\<close>: a state to an error or a value, and the state after), their
    invariants (\<open>keeps\<close>), frames (\<open>frames\<close>) and symbolic execution (\<open>seq_actE\<close>).
  \<^item> GoText: strings as bytes, UTF-8, and the functions of strings, unicode and strconv that the code uses.
  \<^item> Domain: \<^verbatim>\<open>domain/types.go\<close>. The sanitizer's index loops are proved equal to a recursive filter; its
    output has no control character and is stable.
  \<^item> Mentions: \<open>store.ParseMentions\<close> and \<open>tui.highlightMentions\<close>: exactly the mentioned handles; when the
    highlighting is safe and when its slices panic.
  \<^item> Rate: \<^verbatim>\<open>rate/rate.go\<close>. Buckets over a rounding parameter (throughput, range), and the limiter refines
    one independent bucket per key although it evicts idle ones.
  \<^item> Auth, Config: \<^verbatim>\<open>auth/auth.go\<close> and \<^verbatim>\<open>config/config.go\<close>.
  \<^item> Hub, HubInv, HubRace: \<^verbatim>\<open>hub/hub.go\<close> with channels as bounded queues. \<open>hub_ok\<close> is the invariant of
    the reachable hubs (presence is exact, subscribers are live and open); HubRace splits each operation at
    its unlock and lets the pieces interleave.
  \<^item> Schema: the tables of \<^verbatim>\<open>0001_init.sql\<close>, one function per SQL statement with its constraints, transactions and
    the driver's faults (\<open>world\<close>). SchemaInv: every statement keeps \<open>db_ok\<close> (keys, uniqueness, foreign keys, checks).
  \<^item> StoreUsers, StoreMessages: one definition per method of \<^verbatim>\<open>store/store.go\<close>. StoreInv: what every
    method keeps, by the locales \<open>db_posts\<close>, \<open>db_base\<close>, \<open>db_frame\<close>, \<open>db_members\<close> and \<open>db_invariant\<close>, which ask
    for a growing set of the statements; they are interpreted on the schema and on the history here, on the texts
    and the handles in StoreTrace, on the memberships in StoreTame.
    StoreExec: what a run of a method tells, with faults (\<open>_D\<close>) and without (\<open>quiet_\<close>).
    StoreProps, StoreAccess, StorePosts, StoreReads: atomicity, access, the effect of posting, pages and counts.
    StoreTrace: the clients of the store (\<open>client_step\<close>, \<open>via_methods\<close>) and what they cannot break (\<open>data_ok\<close>).
    StoreTame: which methods post messages, end memberships, or do neither (\<open>through\<close>).
  \<^item> TuiState, TuiView, TuiEvents, TuiCommands, TuiUpdate: \<^verbatim>\<open>tui/app.go\<close>, \<^verbatim>\<open>commands.go\<close>, \<^verbatim>\<open>register.go\<close>: one
    definition per function, per kind of event and per slash command; a handler is an action on \<open>ui\<close>
    (the session's model, the store, the hub) that may panic (\<open>crash\<close>). TuiDraw: the View functions.
  \<^item> TuiSafe, TuiSession: each handler of a session keeps its invariant (\<open>steady\<close>, \<open>session_inv\<close>), whatever it
    knows of the database that the store's methods keep (locale \<open>session_world\<close>).
    TuiProps: roles, eviction, counts, identifiers, and what a late key does after \<^verbatim>\<open>/quit\<close>.
  \<^item> TuiMoves: relations that all handlers keep to (\<open>moves\<close>), by the locales \<open>run_relation\<close>,
    \<open>session_relation\<close> and \<open>session_update\<close>. SessionRate: a session posts no more than the rate limiter lets
    through. TuiAudience: while a session's subscription is the only one of its user, the hub
    has in each room members of that room only.
  \<^item> SshServer, SshProps: \<^verbatim>\<open>ssh/server.go\<close>: the two callbacks and the hooks, and the session counter as a step
    relation of concurrent connections.
  \<^item> AdminCmd, AdminProps: \<^verbatim>\<open>cmd/tsocial-admin\<close>. Startup: \<^verbatim>\<open>cmd/tsocial\<close>, \<open>store.Open\<close> with its migrations
    and \<open>ListenAndServe\<close>: what happens before the server accepts and how it ends.
  \<^item> TuiProcess: the process: connections, sessions, drawing, the admin command and the environment interleave over one
    store and one hub. It never panics but in the slices of \<open>highlightMentions\<close>, it refines the
    specification of a client of the store, and its data stay as they should be. ProcessAudience: the audience of the
    rooms in the whole process.

  \<^bold>\<open>How the code is read.\<close> A Go \<open>(value, error)\<close> is a sum, with the state after either; a discarded error
  goes on with the zero value. A pointer that may be nil is an option. A map is an association list
  where its keys are enumerated, and else a function with the zero value for missing keys. A panic is
  \<open>None\<close> or a \<open>crash\<close>. Integers are unbounded except where the code can reach their bounds
  (parsed numbers, the duration of \<open>prune-deleted\<close>); identifiers and counters stay below them. Times
  are Unix seconds, durations seconds in the store and nanoseconds in Rate. Where SQL leaves the order of
  rows open, they come in the order of the table. A fault of the driver strikes a statement before it
  has an effect, or the reading of rows at any row (\<open>scan_rows\<close>: the rows read so far come with the error, and
  \<open>checked\<close> and \<open>kept\<close> say which callers look at it). A new rowid is one above the largest
  in use, as SQLite gives it without AUTOINCREMENT.

  \<^bold>\<open>Parameters\<close> (code outside the repository): Unicode lower case above ASCII, case folding, the match of
  an FTS5 query, lipgloss styles, time formats, driver error texts, the editing of the text area,
  the ssh library's key parser and printer, SHA-256, the reading of an integer flag, floating-point
  rounding. What is assumed of them is a named hypothesis (\<open>rounding\<close>, \<open>accurate\<close>, \<open>digest32\<close>).
  No fuel is used: every loop of the code is a total function, the non-structural ones with a measure.

  \<^bold>\<open>Not modelled.\<close> The colours of \<^verbatim>\<open>styles.go\<close> and what lipgloss makes of boxes and joins, the scroll
  position of the viewport, logging, usage texts, the transport of the ssh library, and the mutexes of Rate (its
  calls are sequential here). TuiProcess runs each handler as one step: the hub's unlocked tails are interleaved in HubRace only.

  \<^bold>\<open>What modelling showed.\<close> Posting, reading, banning, registering and evicting do what they promise; the
  theorems on failures are those of kind error and the last ones of StoreReads and StoreProps:
  rendering can panic on a letter whose lower case is longer, a publisher can send on a channel that is
  being closed, a banned user gets in while the ban query fails, a purge lets a new message take a reported
  identifier, a deleted room's name is lost, a key handled after quitting can poison a room,
  a large number of days makes \<open>prune-deleted\<close> delete everything soft-deleted, and the server program exits with
  status 0 when it cannot listen. The audience of a room is right only while no user has two sessions: \<^verbatim>\<open>/leave\<close> in
  one of them leaves the other one subscribed (\<open>leave_misses_other_sessions\<close>).
\<close>

end
